(* ===== verification/Prelude.thy ===== *)
theory Prelude
  imports Complex_Main
begin

text \<open>
  Shared vocabulary of the development: the exceptions a JavaScript statement can raise,
  computations over a state that keep the state reached when they raise, the array
  operations of the language on integer indices, and the collections of rules that the
  component theories extend.
\<close>

named_theorems js_run \<open>equations that execute a stateful computation\<close>
named_theorems js_arith \<open>integer facts about page and index computations\<close>

section \<open>Exceptions\<close>

text \<open>
  The engine raises \<open>TypeError\<close> (a property of \<open>null\<close> or \<open>undefined\<close>, a call of a
  non-function) and \<open>ReferenceError\<close> (an undeclared name); the code itself throws
  \<open>Error\<close> objects and, in the validators, bare strings.
\<close>

datatype js_error =
    TypeError string
  | ReferenceError string
  | ErrorObject string
  | ThrownString string

type_synonym 'a result = "js_error + 'a"

fun is_ok :: "'a result \<Rightarrow> bool" where
  "is_ok (Inl _) = False"
| "is_ok (Inr _) = True"

lemma is_ok_iff: "is_ok r \<longleftrightarrow> (\<exists>a. r = Inr a)"
  by (cases r) auto

lemma not_is_ok_iff: "\<not> is_ok r \<longleftrightarrow> (\<exists>e. r = Inl e)"
  by (cases r) auto

section \<open>Stateful computations\<close>

text \<open>
  A method body over a state \<open>'s\<close> returns a value or raises; what was written before the
  exception stays written, so the state is returned in both cases.
\<close>

type_synonym ('s, 'a) prog = "'s \<Rightarrow> 'a result \<times> 's"

definition ret :: "'a \<Rightarrow> ('s, 'a) prog" where
  "ret a s = (Inr a, s)"

definition throw :: "js_error \<Rightarrow> ('s, 'a) prog" where
  "throw e s = (Inl e, s)"

definition seq :: "('s, 'a) prog \<Rightarrow> ('a \<Rightarrow> ('s, 'b) prog) \<Rightarrow> ('s, 'b) prog" where
  "seq m f s = (case m s of (Inl e, s') \<Rightarrow> (Inl e, s') | (Inr a, s') \<Rightarrow> f a s')"

definition andthen :: "('s, 'a) prog \<Rightarrow> ('s, 'b) prog \<Rightarrow> ('s, 'b) prog" where
  "andthen m n = seq m (\<lambda>_. n)"

definition reads :: "('s \<Rightarrow> 'a) \<Rightarrow> ('s, 'a) prog" where
  "reads f s = (Inr (f s), s)"

definition update :: "('s \<Rightarrow> 's) \<Rightarrow> ('s, unit) prog" where
  "update f s = (Inr (), f s)"

definition lift_result :: "'a result \<Rightarrow> ('s, 'a) prog" where
  "lift_result r s = (r, s)"

definition whenever :: "bool \<Rightarrow> ('s, unit) prog \<Rightarrow> ('s, unit) prog" where
  "whenever b m = (if b then m else ret ())"

fun for_each :: "'x list \<Rightarrow> ('x \<Rightarrow> ('s, unit) prog) \<Rightarrow> ('s, unit) prog" where
  "for_each [] f = ret ()"
| "for_each (x # xs) f = andthen (f x) (for_each xs f)"

lemmas prog_defs =
  ret_def throw_def seq_def andthen_def reads_def update_def lift_result_def whenever_def

declare prog_defs [js_run]

lemma seq_ret [simp]: "seq (ret a) f = f a"
  by (simp add: seq_def ret_def fun_eq_iff)

lemma seq_throw [simp]: "seq (throw e) f = throw e"
  by (simp add: seq_def throw_def fun_eq_iff)

lemma seq_assoc: "seq (seq m f) g = seq m (\<lambda>a. seq (f a) g)"
  by (auto simp: seq_def fun_eq_iff split: prod.splits sum.splits)

lemma seq_right_ret [simp]: "seq m ret = m"
  by (auto simp: seq_def ret_def fun_eq_iff split: prod.splits sum.splits)

lemma andthen_ret [simp]: "andthen (ret a) m = m"
  by (simp add: andthen_def)

text \<open>A property of the state that every step of a loop keeps is kept by the loop.\<close>

lemma for_each_invariant:
  assumes "\<And>x s. x \<in> set xs \<Longrightarrow> I s \<Longrightarrow> I (snd (f x s))" and "I s"
  shows "I (snd (for_each xs f s))"
  using assms
proof (induction xs arbitrary: s)
  case Nil
  then show ?case by (simp add: ret_def)
next
  case (Cons x xs)
  have "I (snd (f x s))" by (rule Cons.prems) (use Cons.prems in auto)
  with Cons show ?case
    by (cases "f x s"; cases "fst (f x s)") (auto simp: andthen_def seq_def)
qed

text \<open>
  A computation leaves an observation \<open>v\<close> of the state alone, whether it returns or raises.
  The collection \<open>frame_rules\<close> derives this along the structure of a computation.
\<close>

definition leaves :: "('s \<Rightarrow> 'v) \<Rightarrow> ('s, 'a) prog \<Rightarrow> bool" where
  "leaves v m \<longleftrightarrow> (\<forall>s. v (snd (m s)) = v s)"

named_theorems frame_rules \<open>computations that leave an observation alone\<close>

lemma leavesD: "leaves v m \<Longrightarrow> v (snd (m s)) = v s"
  by (simp add: leaves_def)

lemma leaves_ret [frame_rules]: "leaves v (ret a)"
  and leaves_throw [frame_rules]: "leaves v (throw e)"
  and leaves_reads [frame_rules]: "leaves v (reads g)"
  and leaves_lift [frame_rules]: "leaves v (lift_result r)"
  by (simp_all add: leaves_def prog_defs)

lemma leaves_seq [frame_rules]:
  "leaves v m \<Longrightarrow> (\<And>a. leaves v (f a)) \<Longrightarrow> leaves v (seq m f)"
  by (auto simp: leaves_def seq_def split: prod.splits sum.splits) (metis snd_conv)+

lemma leaves_andthen [frame_rules]: "leaves v m \<Longrightarrow> leaves v n \<Longrightarrow> leaves v (andthen m n)"
  by (simp add: andthen_def leaves_seq)

lemma leaves_whenever [frame_rules]: "leaves v m \<Longrightarrow> leaves v (whenever b m)"
  by (simp add: whenever_def leaves_ret)

lemma leaves_if [frame_rules]: "leaves v m \<Longrightarrow> leaves v n \<Longrightarrow> leaves v (if b then m else n)"
  by simp

lemma leaves_option [frame_rules]:
  "leaves v m \<Longrightarrow> (\<And>a. leaves v (f a)) \<Longrightarrow> leaves v (case x of None \<Rightarrow> m | Some a \<Rightarrow> f a)"
  by (cases x) auto

lemma leaves_prod [frame_rules]:
  "(\<And>a b. leaves v (f a b)) \<Longrightarrow> leaves v (case x of (a, b) \<Rightarrow> f a b)"
  by (cases x) auto

lemma leaves_for_each [frame_rules]: "(\<And>x. leaves v (f x)) \<Longrightarrow> leaves v (for_each xs f)"
  by (induction xs) (auto intro: frame_rules)

lemma leaves_update: "(\<And>s. v (f s) = v s) \<Longrightarrow> leaves v (update f)"
  by (simp add: leaves_def update_def)

text \<open>
  A computation keeps an invariant of the state, whether it returns or raises; the collection
  \<open>keep_rules\<close> derives this along its structure.
\<close>

definition keeps :: "('s \<Rightarrow> bool) \<Rightarrow> ('s, 'a) prog \<Rightarrow> bool" where
  "keeps I m \<longleftrightarrow> (\<forall>s. I s \<longrightarrow> I (snd (m s)))"

named_theorems keep_rules \<open>computations that keep an invariant\<close>

lemma keepsD: "keeps I m \<Longrightarrow> I s \<Longrightarrow> I (snd (m s))"
  by (simp add: keeps_def)

lemma keeps_ret [keep_rules]: "keeps I (ret a)"
  and keeps_throw [keep_rules]: "keeps I (throw e)"
  and keeps_reads [keep_rules]: "keeps I (reads g)"
  and keeps_lift [keep_rules]: "keeps I (lift_result r)"
  by (simp_all add: keeps_def prog_defs)

lemma keeps_seq [keep_rules]: "keeps I m \<Longrightarrow> (\<And>a. keeps I (f a)) \<Longrightarrow> keeps I (seq m f)"
  by (fastforce simp: keeps_def seq_def split: prod.splits sum.splits)

lemma keeps_andthen [keep_rules]: "keeps I m \<Longrightarrow> keeps I n \<Longrightarrow> keeps I (andthen m n)"
  by (simp add: andthen_def keeps_seq)

lemma keeps_whenever [keep_rules]: "keeps I m \<Longrightarrow> keeps I (whenever b m)"
  by (simp add: whenever_def keeps_ret)

lemma keeps_if [keep_rules]: "(b \<Longrightarrow> keeps I m) \<Longrightarrow> (\<not> b \<Longrightarrow> keeps I n) \<Longrightarrow> keeps I (if b then m else n)"
  by simp

lemma keeps_option [keep_rules]:
  "keeps I m \<Longrightarrow> (\<And>a. keeps I (f a)) \<Longrightarrow> keeps I (case x of None \<Rightarrow> m | Some a \<Rightarrow> f a)"
  by (cases x) auto

lemma keeps_list [keep_rules]:
  "keeps I m \<Longrightarrow> (\<And>x xs. keeps I (f x xs)) \<Longrightarrow> keeps I (case ys of [] \<Rightarrow> m | x # xs \<Rightarrow> f x xs)"
  by (cases ys) auto

lemma keeps_for_each [keep_rules]: "(\<And>x. keeps I (f x)) \<Longrightarrow> keeps I (for_each xs f)"
  by (induction xs) (auto intro: keep_rules)

lemma keeps_update: "(\<And>s. I s \<Longrightarrow> I (f s)) \<Longrightarrow> keeps I (update f)"
  by (simp add: keeps_def update_def)

lemma leaves_keeps: "leaves v m \<Longrightarrow> (\<And>s s'. v s' = v s \<Longrightarrow> I s \<Longrightarrow> I s') \<Longrightarrow> keeps I m"
  by (auto simp: leaves_def keeps_def)

text \<open>
  A computation that surely returns from the states of \<open>P\<close>, with a value and a state of \<open>Q\<close>; the
  collection \<open>sure_rules\<close> derives this along its structure.
\<close>

definition sure :: "('s \<Rightarrow> bool) \<Rightarrow> ('s, 'a) prog \<Rightarrow> ('a \<Rightarrow> 's \<Rightarrow> bool) \<Rightarrow> bool" where
  "sure P m Q \<longleftrightarrow> (\<forall>s. P s \<longrightarrow> (\<exists>a s'. m s = (Inr a, s') \<and> Q a s'))"

named_theorems sure_rules \<open>computations that surely return\<close>

lemma sureI: "(\<And>s. P s \<Longrightarrow> \<exists>a s'. m s = (Inr a, s') \<and> Q a s') \<Longrightarrow> sure P m Q"
  by (simp add: sure_def)

lemma sureD: "sure P m Q \<Longrightarrow> P s \<Longrightarrow> \<exists>a s'. m s = (Inr a, s') \<and> Q a s'"
  by (simp add: sure_def)

lemma sure_weaken: "sure P m Q \<Longrightarrow> (\<And>s. P' s \<Longrightarrow> P s) \<Longrightarrow> (\<And>a s. Q a s \<Longrightarrow> Q' a s) \<Longrightarrow> sure P' m Q'"
  unfolding sure_def by blast

lemma sure_ret [sure_rules]: "(\<And>s. P s \<Longrightarrow> Q a s) \<Longrightarrow> sure P (ret a) Q"
  and sure_update [sure_rules]: "(\<And>s. P s \<Longrightarrow> Q () (f s)) \<Longrightarrow> sure P (update f) Q"
  and sure_reads [sure_rules]: "(\<And>s. P s \<Longrightarrow> Q (g s) s) \<Longrightarrow> sure P (reads g) Q"
  by (simp_all add: sure_def prog_defs)

lemma sure_seq [sure_rules]: "sure P m R \<Longrightarrow> (\<And>a. sure (R a) (f a) Q) \<Longrightarrow> sure P (seq m f) Q"
  unfolding sure_def seq_def by fastforce

lemma sure_andthen [sure_rules]: "sure P m (\<lambda>_. R) \<Longrightarrow> sure R n Q \<Longrightarrow> sure P (andthen m n) Q"
  unfolding andthen_def by (rule sure_seq)

lemma sure_whenever [sure_rules]:
  "(b \<Longrightarrow> sure P m Q) \<Longrightarrow> (\<And>s. \<not> b \<Longrightarrow> P s \<Longrightarrow> Q () s) \<Longrightarrow> sure P (whenever b m) Q"
  by (simp add: whenever_def sure_ret)

text \<open>A loop: what each step keeps, and what it establishes for its own element and keeps for the others.\<close>

lemma sure_for_each:
  assumes "\<And>x. x \<in> set xs \<Longrightarrow> sure P (f x) (\<lambda>_ s. P s)"
  shows "sure P (for_each xs f) (\<lambda>_ s. P s)"
  using assms by (induction xs) (auto intro!: sure_rules)

lemma sure_for_each_all:
  assumes "\<And>x ys. x \<in> set xs \<Longrightarrow> sure (\<lambda>s. P s \<and> (\<forall>y \<in> ys. R y s)) (f x) (\<lambda>_ s. P s \<and> (\<forall>y \<in> insert x ys. R y s))"
  shows "sure (\<lambda>s. P s \<and> (\<forall>y \<in> ys. R y s)) (for_each xs f) (\<lambda>_ s. P s \<and> (\<forall>y \<in> ys \<union> set xs. R y s))"
  using assms
proof (induction xs arbitrary: ys)
  case (Cons x xs)
  have "sure (\<lambda>s. P s \<and> (\<forall>y \<in> insert x ys. R y s)) (for_each xs f) (\<lambda>_ s. P s \<and> (\<forall>y \<in> insert x ys \<union> set xs. R y s))"
    using Cons.prems by (intro Cons.IH) simp
  moreover have "sure (\<lambda>s. P s \<and> (\<forall>y \<in> ys. R y s)) (f x) (\<lambda>_ s. P s \<and> (\<forall>y \<in> insert x ys. R y s))"
    using Cons.prems by simp
  ultimately show ?case
    by (auto intro: sure_andthen)
qed (auto intro: sure_rules)

section \<open>Arrays of the language\<close>

text \<open>
  \<open>Array.prototype.slice\<close> and \<open>splice\<close> take integers, count a negative start from the end
  and clamp what is out of range; an index read out of range is \<open>undefined\<close> (\<open>None\<close>).
\<close>

definition js_clamp :: "int \<Rightarrow> nat \<Rightarrow> nat" where
  "js_clamp k n = (if k < 0 then nat (max (int n + k) 0) else min (nat k) n)"

definition js_slice :: "'a list \<Rightarrow> int \<Rightarrow> int \<Rightarrow> 'a list" where
  "js_slice xs from to =
     (let a = js_clamp from (length xs); b = js_clamp to (length xs) in take (b - a) (drop a xs))"

definition js_splice1 :: "'a list \<Rightarrow> int \<Rightarrow> 'a list" where
  "js_splice1 xs k = (let a = js_clamp k (length xs) in take a xs @ drop (Suc a) xs)"

definition js_index :: "'a list \<Rightarrow> int \<Rightarrow> 'a option" where
  "js_index xs i = (if 0 \<le> i \<and> i < int (length xs) then Some (xs ! nat i) else None)"

fun index_of :: "'a \<Rightarrow> 'a list \<Rightarrow> nat option" where
  "index_of x [] = None"
| "index_of x (y # ys) = (if x = y then Some 0 else map_option Suc (index_of x ys))"

lemma js_clamp_nonneg [simp]: "0 \<le> k \<Longrightarrow> js_clamp k n = min (nat k) n"
  by (simp add: js_clamp_def)

lemma js_slice_nonneg:
  "0 \<le> a \<Longrightarrow> 0 \<le> b \<Longrightarrow> js_slice xs a b = take (nat b - nat a) (drop (nat a) xs)"
  by (cases "nat a \<le> length xs") (auto simp: js_slice_def Let_def min_def)

lemma js_splice1_nonneg:
  "0 \<le> k \<Longrightarrow> js_splice1 xs k = take (nat k) xs @ drop (Suc (nat k)) xs"
  by (auto simp: js_splice1_def Let_def min_def)

lemma js_splice1_beyond: "int (length xs) \<le> k \<Longrightarrow> js_splice1 xs k = xs"
  by (simp add: js_splice1_nonneg)

lemma length_js_splice1:
  "0 \<le> k \<Longrightarrow> k < int (length xs) \<Longrightarrow> Suc (length (js_splice1 xs k)) = length xs"
  by (simp add: js_splice1_nonneg)

lemma set_js_splice1: "set (js_splice1 xs k) \<subseteq> set xs"
  by (auto simp: js_splice1_def Let_def dest: in_set_takeD in_set_dropD)

lemma distinct_js_splice1: "distinct xs \<Longrightarrow> distinct (js_splice1 xs k)"
  unfolding js_splice1_def Let_def
  by (simp add: set_take_disj_set_drop_if_distinct)

lemma js_index_Some_iff:
  "js_index xs i = Some x \<longleftrightarrow> 0 \<le> i \<and> i < int (length xs) \<and> x = xs ! nat i"
  by (auto simp: js_index_def)

lemma js_index_None_iff: "js_index xs i = None \<longleftrightarrow> i < 0 \<or> int (length xs) \<le> i"
  by (auto simp: js_index_def)

lemma index_of_None_iff [simp]: "index_of x ys = None \<longleftrightarrow> x \<notin> set ys"
  by (induction ys) auto

lemma index_of_Some: "index_of x ys = Some n \<Longrightarrow> n < length ys \<and> ys ! n = x"
  by (induction ys arbitrary: n) (auto split: if_splits)

lemma index_of_nth:
  "distinct ys \<Longrightarrow> n < length ys \<Longrightarrow> index_of (ys ! n) ys = Some n"
  by (induction ys arbitrary: n) (auto simp: nth_Cons split: nat.splits)

text \<open>Removing the element found at an index removes that element from a duplicate-free array.\<close>

lemma splice_index_of:
  assumes "distinct xs" and "index_of x xs = Some n"
  shows "js_splice1 xs (int n) = removeAll x xs"
proof -
  from assms have n: "n < length xs" "xs ! n = x" by (auto dest: index_of_Some)
  then have xs: "xs = take n xs @ x # drop (Suc n) xs" by (metis id_take_nth_drop)
  with assms(1) have "x \<notin> set (take n xs)" "x \<notin> set (drop (Suc n) xs)"
    by (metis distinct_append disjoint_iff list.set_intros(1)) (metis xs assms(1) distinct.simps(2) distinct_append)
  then have "removeAll x (take n xs @ x # drop (Suc n) xs) = take n xs @ drop (Suc n) xs"
    by simp
  with xs show ?thesis by (simp add: js_splice1_nonneg)
qed

section \<open>Division with rounding up\<close>

text \<open>\<open>Math.ceil(a / b)\<close> on integers with a divisor other than 0.\<close>

definition ceil_div :: "int \<Rightarrow> int \<Rightarrow> int" where
  "ceil_div a b = - ((- a) div b)"

lemma ceil_div_ceiling: "ceil_div a b = \<lceil>(of_int a :: rat) / of_int b\<rceil>"
proof -
  have "- a div b = \<lfloor>(of_int (- a) :: rat) / of_int b\<rfloor>"
    by (simp only: floor_divide_of_int_eq)
  then show ?thesis by (simp add: ceil_div_def ceiling_def)
qed

lemma ceil_div_bounds [js_arith]:
  assumes "0 < b"
  shows "a \<le> b * ceil_div a b" and "b * ceil_div a b < a + b"
proof -
  have "b * (- a div b) + - a mod b = - a" by (rule mult_div_mod_eq)
  moreover have "- a mod b < b" "0 \<le> - a mod b" using assms by simp_all
  ultimately show "a \<le> b * ceil_div a b" "b * ceil_div a b < a + b"
    unfolding ceil_div_def mult_minus_right by linarith+
qed

lemma ceil_div_pos: "0 < b \<Longrightarrow> 0 < a \<Longrightarrow> 0 < ceil_div a b"
  using ceil_div_bounds(1) [of b a] by (smt (verit, best) mult_nonneg_nonpos)

lemma ceil_div_zero [simp]: "ceil_div 0 b = 0"
  by (simp add: ceil_div_def)

lemma ceil_div_mono: "0 < b \<Longrightarrow> a \<le> c \<Longrightarrow> ceil_div a b \<le> ceil_div c b"
  by (simp add: ceil_div_def zdiv_mono1)

end
