(* ===== verification/PageList.thy ===== *)
theory PageList
  imports Prelude "HOL-Library.Multiset"
begin

text \<open>
  The pager \<open>util/PageList.js\<close>: its fields as a record, one definition per method, the
  invariant that ties the page counters to the paged list, and the interface \<open>pager\<close> that
  the table view relies on, interpreted on this model at the end of the theory.

  Sizes and page numbers are integers. The page size is a number other than 0 (the views
  construct pagers with 10 or with one of the sizes 5 to 500 their selector offers), so that
  \<open>Math.ceil(available / this.pageSize)\<close> is the integer \<open>ceil_div available pageSize\<close>.
\<close>

section \<open>State and methods\<close>

text \<open>
  \<open>ctorPageSize\<close> is the constructor's parameter, which \<open>getPageSize\<close> reads through its
  closure; \<open>pageSize\<close> is the field. A \<open>null\<close> or undefined \<open>currentListPage\<close> is \<open>None\<close>.
\<close>

record 'a page_list =
  pl_list :: "'a list"
  available :: int
  pageSize :: int
  availablePage :: int
  currentPage :: int
  currentListPage :: "'a list option"
  ctorPageSize :: int

definition getPageSize :: "'a page_list \<Rightarrow> int" where
  "getPageSize pl = ctorPageSize pl"

definition setAvailablePage :: "int \<Rightarrow> 'a page_list \<Rightarrow> 'a page_list" where
  "setAvailablePage n pl =
     (let pl = pl\<lparr>available := n\<rparr>;
          pl = (if n = 0 then pl\<lparr>availablePage := 1, currentPage := 1\<rparr>
                else pl\<lparr>availablePage := ceil_div n (pageSize pl), currentPage := 1\<rparr>)
      in pl\<lparr>currentListPage := None\<rparr>)"

definition setPageSize :: "int \<Rightarrow> 'a page_list \<Rightarrow> 'a page_list" where
  "setPageSize n pl = (let pl = pl\<lparr>pageSize := n\<rparr> in setAvailablePage (available pl) pl)"

definition newPageList :: "int \<Rightarrow> 'a list \<Rightarrow> 'a page_list" where
  "newPageList n xs =
     setAvailablePage (int (length xs))
       \<lparr>pl_list = xs, available = int (length xs), pageSize = n, availablePage = 1,
        currentPage = -1, currentListPage = None, ctorPageSize = n\<rparr>"

definition getPrevPage :: "'a page_list \<Rightarrow> int" where
  "getPrevPage pl = (if currentPage pl = 1 then 1 else currentPage pl - 1)"

definition getNextPage :: "'a page_list \<Rightarrow> int" where
  "getNextPage pl =
     (if currentPage pl = availablePage pl then currentPage pl else currentPage pl + 1)"

definition getFrom :: "'a page_list \<Rightarrow> int" where
  "getFrom pl = (currentPage pl - 1) * pageSize pl"

definition getTo :: "'a page_list \<Rightarrow> int" where
  "getTo pl =
     (let to = currentPage pl * pageSize pl
      in if to > available pl then available pl else to)"

definition populateCurrentPage :: "'a page_list \<Rightarrow> 'a page_list" where
  "populateCurrentPage pl =
     pl\<lparr>currentListPage := Some (js_slice (pl_list pl) (getFrom pl) (getTo pl))\<rparr>"

definition currentPageItems :: "('a page_list, 'a list option) prog" where
  "currentPageItems =
     seq (reads currentListPage) (\<lambda>cur.
       andthen (whenever (cur = None) (update populateCurrentPage)) (reads currentListPage))"

text \<open>
  \<open>setCurrentPage\<close> gets items, not a page, and caches them whatever they are; nothing calls it. The
  next page that is read replaces them.
\<close>

definition setCurrentPage :: "'a list option \<Rightarrow> 'a page_list \<Rightarrow> 'a page_list" where
  "setCurrentPage pages pl = pl\<lparr>currentListPage := pages\<rparr>"

lemma populate_replaces_items: "populateCurrentPage (setCurrentPage pages pl) = populateCurrentPage pl"
  by (simp add: populateCurrentPage_def setCurrentPage_def getFrom_def getTo_def Let_def)

text \<open>
  A page out of range is meant to raise an \<open>Exception\<close>; the engine has no such name, so the
  \<open>throw\<close> itself raises a \<open>ReferenceError\<close>.
\<close>

definition checkAndSetPage :: "int \<Rightarrow> ('a page_list, unit) prog" where
  "checkAndSetPage page =
     seq (reads availablePage) (\<lambda>n.
       if page < 1 \<or> page > n then throw (ReferenceError ''Exception'')
       else update (\<lambda>pl. pl\<lparr>currentPage := page\<rparr>))"

definition getPage :: "int \<Rightarrow> ('a page_list, 'a list option) prog" where
  "getPage page =
     andthen (checkAndSetPage page) (andthen (update populateCurrentPage) (reads currentListPage))"

definition getItemOnCurrentPage :: "int \<Rightarrow> ('a page_list, 'a option) prog" where
  "getItemOnCurrentPage idx =
     seq (reads currentListPage) (\<lambda>cur. case cur of
         None \<Rightarrow> throw (TypeError ''currentListPage'')
       | Some xs \<Rightarrow> ret (js_index xs idx))"

definition removeItemOnCurrentPage :: "int \<Rightarrow> ('a page_list, unit) prog" where
  "removeItemOnCurrentPage idx =
     seq (reads (\<lambda>pl. getFrom pl + idx)) (\<lambda>realIdx.
     seq (reads currentPage) (\<lambda>cpage.
     andthen (update (\<lambda>pl. pl\<lparr>pl_list := js_splice1 (pl_list pl) realIdx\<rparr>))
     (andthen (update (\<lambda>pl. setAvailablePage (int (length (pl_list pl))) pl))
     (seq (reads availablePage) (\<lambda>n.
       seq (getPage (if n < cpage then n else cpage)) (\<lambda>_. ret ()))))))"

text \<open>The window of page links; half of an odd window size is a fraction.\<close>

definition getSubRange :: "int \<Rightarrow> int \<Rightarrow> 'a page_list \<Rightarrow> (rat \<times> rat) result" where
  "getSubRange page rangeSize pl =
     (if page < 1 \<or> page > availablePage pl then Inl (ReferenceError ''RuntimeException'')
      else if rangeSize \<ge> availablePage pl then Inr (1, of_int (availablePage pl))
      else let half = of_int rangeSize / 2 in
        if of_int page - half < 1 then Inr (1, of_int rangeSize)
        else if of_int page + (of_int rangeSize - half) > of_int (availablePage pl)
        then Inr (of_int (availablePage pl) - of_int rangeSize, of_int (availablePage pl))
        else Inr (of_int page - half, of_int page + (of_int rangeSize - half)))"

section \<open>The invariant\<close>

text \<open>What page \<open>k\<close> of a list shows, independently of the pager's counters.\<close>

definition page_at :: "int \<Rightarrow> 'a list \<Rightarrow> int \<Rightarrow> 'a list" where
  "page_at n xs k = take (nat n) (drop (nat ((k - 1) * n)) xs)"

definition page_count :: "int \<Rightarrow> nat \<Rightarrow> int" where
  "page_count n len = (if len = 0 then 1 else ceil_div (int len) n)"

definition pl_wf :: "'a page_list \<Rightarrow> bool" where
  "pl_wf pl \<longleftrightarrow>
     0 < pageSize pl \<and> available pl = int (length (pl_list pl)) \<and>
     availablePage pl = page_count (pageSize pl) (length (pl_list pl)) \<and>
     1 \<le> currentPage pl \<and> currentPage pl \<le> availablePage pl \<and>
     (currentListPage pl = None \<or>
      currentListPage pl = Some (page_at (pageSize pl) (pl_list pl) (currentPage pl)))"

named_theorems pl_run \<open>equations that run the pager's methods\<close>

lemmas pl_methods =
  getPageSize_def setAvailablePage_def setPageSize_def newPageList_def getPrevPage_def
  getNextPage_def populateCurrentPage_def currentPageItems_def
  checkAndSetPage_def getPage_def getItemOnCurrentPage_def removeItemOnCurrentPage_def

declare pl_methods [pl_run] prog_defs [pl_run]

lemma page_count_pos [simp]: "0 < n \<Longrightarrow> 1 \<le> page_count n len"
  using ceil_div_pos [of n "int len"] by (auto simp: page_count_def)

lemma page_count_covers: "0 < n \<Longrightarrow> int len \<le> page_count n len * n"
  using ceil_div_bounds(1) [of n "int len"] by (auto simp: page_count_def mult.commute)

lemma page_count_tight: "0 < n \<Longrightarrow> 0 < len \<Longrightarrow> (page_count n len - 1) * n < int len"
  using ceil_div_bounds(2) [of n "int len"] by (simp add: page_count_def algebra_simps)

text \<open>The slice the pager takes is the page, whatever the rounding at the list's end.\<close>

lemma slice_is_page:
  assumes "0 < n" and "1 \<le> k"
  shows "js_slice xs ((k - 1) * n) (if k * n > int (length xs) then int (length xs) else k * n)
         = page_at n xs k"
proof -
  obtain p where p: "n = int p" using assms(1) by (metis nonneg_int_cases less_imp_le)
  obtain j where j: "k = int j + 1" using assms(2) by (metis zle_iff_zadd add.commute)
  have start: "nat ((k - 1) * n) = j * p" using p j by (simp flip: of_nat_mult)
  have stop: "k * n = int (j * p + p)" using p j by (simp add: algebra_simps)
  have nonneg: "0 \<le> (k - 1) * n" "0 \<le> k * n" using assms by simp_all
  show ?thesis
  proof (cases "k * n > int (length xs)")
    case True
    with stop have "length xs - j * p \<le> p" by linarith
    with True nonneg start p show ?thesis
      by (simp add: js_slice_nonneg page_at_def)
  next
    case False
    have "nat (k * n) - j * p = p" unfolding stop nat_int by simp
    with False nonneg start p show ?thesis
      by (simp add: js_slice_nonneg page_at_def)
  qed
qed

lemma populate_page:
  assumes "0 < pageSize pl" "available pl = int (length (pl_list pl))" "1 \<le> currentPage pl"
  shows "js_slice (pl_list pl) (getFrom pl) (getTo pl)
         = page_at (pageSize pl) (pl_list pl) (currentPage pl)"
  using slice_is_page [OF assms(1,3), of "pl_list pl"] assms(2)
  by (simp add: getFrom_def getTo_def Let_def split: if_splits)

lemma pl_wf_setAvailablePage:
  "0 < pageSize pl \<Longrightarrow> n = int (length (pl_list pl)) \<Longrightarrow> pl_wf (setAvailablePage n pl)"
  using page_count_pos [of "pageSize pl" "length (pl_list pl)"]
  by (auto simp: setAvailablePage_def pl_wf_def Let_def page_count_def)

lemma pl_wf_newPageList: "0 < n \<Longrightarrow> pl_wf (newPageList n xs)"
  by (simp add: newPageList_def pl_wf_setAvailablePage)

lemma pl_wf_setPageSize: "pl_wf pl \<Longrightarrow> 0 < n \<Longrightarrow> pl_wf (setPageSize n pl)"
  by (simp add: setPageSize_def pl_wf_setAvailablePage Let_def pl_wf_def [of pl])

lemma setAvailablePage_fields [simp]:
  "pl_list (setAvailablePage n pl) = pl_list pl"
  "pageSize (setAvailablePage n pl) = pageSize pl"
  "currentPage (setAvailablePage n pl) = 1"
  "currentListPage (setAvailablePage n pl) = None"
  by (simp_all add: setAvailablePage_def Let_def)

lemma getPage_out:
  "page < 1 \<or> page > availablePage pl \<Longrightarrow>
   getPage page pl = (Inl (ReferenceError ''Exception''), pl)"
  by (auto simp: pl_run)

lemma getPage_in:
  assumes "pl_wf pl" "1 \<le> page" "page \<le> availablePage pl"
  shows "getPage page pl =
     (Inr (Some (page_at (pageSize pl) (pl_list pl) page)),
      pl\<lparr>currentPage := page, currentListPage := Some (page_at (pageSize pl) (pl_list pl) page)\<rparr>)"
proof -
  have "js_slice (pl_list pl) (getFrom (pl\<lparr>currentPage := page\<rparr>)) (getTo (pl\<lparr>currentPage := page\<rparr>))
        = page_at (pageSize pl) (pl_list pl) page"
    using populate_page [of "pl\<lparr>currentPage := page\<rparr>"] assms by (simp add: pl_wf_def)
  with assms(2,3) show ?thesis by (simp add: pl_run)
qed

lemma pl_wf_getPage: "pl_wf pl \<Longrightarrow> pl_wf (snd (getPage page pl))"
  by (cases "page < 1 \<or> page > availablePage pl")
     (auto simp: getPage_out getPage_in, auto simp: pl_wf_def)

lemma currentPageItems_wf:
  assumes "pl_wf pl"
  defines "items \<equiv> page_at (pageSize pl) (pl_list pl) (currentPage pl)"
  shows "currentPageItems pl = (Inr (Some items), pl\<lparr>currentListPage := Some items\<rparr>)"
  using assms populate_page [of pl]
  by (cases "currentListPage pl") (auto simp: pl_wf_def pl_run)

lemma pl_wf_currentPageItems: "pl_wf pl \<Longrightarrow> pl_wf (snd (currentPageItems pl))"
  by (simp add: currentPageItems_wf) (simp add: pl_wf_def)

text \<open>
  Removing an item: the list loses the entry at the page's offset plus the index, the page
  count is recomputed, and the page shown is the old one or the new last one.
\<close>

lemma removeItemOnCurrentPage_run:
  fixes pl :: "'a page_list" and idx :: int
  assumes "pl_wf pl"
  defines "xs \<equiv> js_splice1 (pl_list pl) (getFrom pl + idx)"
  defines "n \<equiv> page_count (pageSize pl) (length xs)"
  defines "k \<equiv> if n < currentPage pl then n else currentPage pl"
  shows "removeItemOnCurrentPage idx pl =
    (Inr (), pl\<lparr>pl_list := xs, available := int (length xs), availablePage := n,
                currentPage := k, currentListPage := Some (page_at (pageSize pl) xs k)\<rparr>)"
proof -
  let ?pl = "setAvailablePage (int (length xs)) (pl\<lparr>pl_list := xs\<rparr>)"
  from assms have pos: "0 < pageSize pl" and cur: "1 \<le> currentPage pl" by (auto simp: pl_wf_def)
  have wf: "pl_wf ?pl" using pos by (simp add: pl_wf_setAvailablePage)
  then have n: "availablePage ?pl = n" by (simp add: pl_wf_def n_def)
  have k: "1 \<le> k" "k \<le> availablePage ?pl" using cur pos unfolding n by (simp_all add: k_def n_def)
  have "removeItemOnCurrentPage idx pl = (Inr (), snd (getPage k ?pl))"
    using getPage_in [OF wf k] n
    by (cases "n < currentPage pl")
       (simp_all add: removeItemOnCurrentPage_def prog_defs k_def flip: xs_def)
  also have "snd (getPage k ?pl) =
      ?pl\<lparr>currentPage := k, currentListPage := Some (page_at (pageSize pl) xs k)\<rparr>"
    using getPage_in [OF wf k] by simp
  also have "\<dots> = pl\<lparr>pl_list := xs, available := int (length xs), availablePage := n,
                currentPage := k, currentListPage := Some (page_at (pageSize pl) xs k)\<rparr>"
    using n by (simp add: setAvailablePage_def Let_def split: if_splits)
  finally show ?thesis .
qed

lemma pl_wf_removeItemOnCurrentPage:
  "pl_wf pl \<Longrightarrow> pl_wf (snd (removeItemOnCurrentPage idx pl))"
  by (simp add: removeItemOnCurrentPage_run) (auto simp: pl_wf_def)

section \<open>Reachable pagers\<close>

text \<open>One rule per method that changes the pager, after the constructor.\<close>

inductive pl_step :: "'a page_list \<Rightarrow> 'a page_list \<Rightarrow> bool" where
  step_setPageSize: "0 < n \<Longrightarrow> pl_step pl (setPageSize n pl)"
| step_getPage: "pl_step pl (snd (getPage page pl))"
| step_items: "pl_step pl (snd (currentPageItems pl))"
| step_remove: "pl_step pl (snd (removeItemOnCurrentPage idx pl))"

inductive pl_reachable :: "'a page_list \<Rightarrow> bool" where
  reach_new: "0 < n \<Longrightarrow> pl_reachable (newPageList n xs)"
| reach_step: "pl_reachable pl \<Longrightarrow> pl_step pl pl' \<Longrightarrow> pl_reachable pl'"

lemma pl_step_wf: "pl_step pl pl' \<Longrightarrow> pl_wf pl \<Longrightarrow> pl_wf pl'"
  by (induction rule: pl_step.induct)
     (auto intro: pl_wf_setPageSize pl_wf_getPage pl_wf_currentPageItems
        pl_wf_removeItemOnCurrentPage)

lemma pl_reachable_wf: "pl_reachable pl \<Longrightarrow> pl_wf pl"
  by (induction rule: pl_reachable.induct) (auto intro: pl_wf_newPageList pl_step_wf)

text \<open>
  The other methods that change the pager are for its own use, and nothing else calls them:
  \<open>setAvailablePage\<close> believes any count, \<open>checkAndSetPage\<close> leaves the cached page of before, and
  \<open>setCurrentPage\<close> caches any items. The flag tells that none of them was called.
\<close>

inductive pl_reached :: "bool \<Rightarrow> 'a page_list \<Rightarrow> bool" where
  reached_new: "0 < n \<Longrightarrow> pl_reached True (newPageList n xs)"
| reached_step: "pl_reached own pl \<Longrightarrow> pl_step pl pl' \<Longrightarrow> pl_reached own pl'"
| reached_count: "pl_reached own pl \<Longrightarrow> 0 \<le> n \<Longrightarrow> pl_reached False (setAvailablePage n pl)"
| reached_check: "pl_reached own pl \<Longrightarrow> pl_reached False (snd (checkAndSetPage page pl))"
| reached_items: "pl_reached own pl \<Longrightarrow> pl_reached False (setCurrentPage pages pl)"
| reached_populate: "pl_reached own pl \<Longrightarrow> pl_reached False (populateCurrentPage pl)"

lemma pl_reached_reachable: "pl_reached own pl \<Longrightarrow> own \<Longrightarrow> pl_reachable pl"
  by (induction rule: pl_reached.induct) (auto intro: pl_reachable.intros)

text \<open>What all methods keep: the counts and the current page fit the entries that the pager believes in.\<close>

definition counters_ok :: "'a page_list \<Rightarrow> bool" where
  "counters_ok pl \<longleftrightarrow> 0 < pageSize pl \<and> 0 \<le> available pl \<and>
     availablePage pl = (if available pl = 0 then 1 else ceil_div (available pl) (pageSize pl)) \<and>
     1 \<le> currentPage pl \<and> currentPage pl \<le> availablePage pl"

lemma counters_setAvailablePage: "0 < pageSize pl \<Longrightarrow> 0 \<le> n \<Longrightarrow> counters_ok (setAvailablePage n pl)"
  using page_count_pos [of "pageSize pl" "nat n"]
  by (auto simp: setAvailablePage_def counters_ok_def Let_def page_count_def split: if_splits)

lemma counters_getPage: "counters_ok pl \<Longrightarrow> counters_ok (snd (getPage page pl))"
  by (auto simp: getPage_def checkAndSetPage_def populateCurrentPage_def prog_defs counters_ok_def)

lemma counters_items: "counters_ok pl \<Longrightarrow> counters_ok (snd (currentPageItems pl))"
  by (auto simp: currentPageItems_def populateCurrentPage_def prog_defs counters_ok_def)

lemma counters_setPageSize: "0 < n \<Longrightarrow> counters_ok pl \<Longrightarrow> counters_ok (setPageSize n pl)"
  unfolding setPageSize_def Let_def by (intro counters_setAvailablePage) (simp_all add: counters_ok_def)

lemma counters_newPageList: "0 < n \<Longrightarrow> counters_ok (newPageList n xs)"
  unfolding newPageList_def by (intro counters_setAvailablePage) simp_all

lemma counters_remove:
  assumes "counters_ok pl"
  shows "counters_ok (snd (removeItemOnCurrentPage idx pl))"
proof -
  let ?xs = "js_splice1 (pl_list pl) (getFrom pl + idx)"
  let ?q = "setAvailablePage (int (length ?xs)) (pl\<lparr>pl_list := ?xs\<rparr>)"
  let ?k = "if availablePage ?q < currentPage pl then availablePage ?q else currentPage pl"
  have "counters_ok ?q" using assms by (intro counters_setAvailablePage) (simp_all add: counters_ok_def)
  moreover have "snd (removeItemOnCurrentPage idx pl) = snd (getPage ?k ?q)"
    by (simp add: removeItemOnCurrentPage_def prog_defs split: prod.split sum.split)
  ultimately show ?thesis by (simp only: counters_getPage)
qed

lemmas counters_rules = counters_getPage counters_items counters_setPageSize counters_remove

lemma counters_step: "pl_step pl pl' \<Longrightarrow> counters_ok pl \<Longrightarrow> counters_ok pl'"
  by (induction rule: pl_step.induct) (simp_all add: counters_rules)

lemma pl_reached_counters: "pl_reached own pl \<Longrightarrow> counters_ok pl"
proof (induction rule: pl_reached.induct)
  case (reached_new n xs)
  then show ?case by (rule counters_newPageList)
next
  case (reached_count own pl n)
  then show ?case by (intro counters_setAvailablePage) (simp_all add: counters_ok_def)
next
  case (reached_step own pl pl')
  then show ?case using counters_step by blast
qed (auto simp: checkAndSetPage_def setCurrentPage_def populateCurrentPage_def prog_defs counters_ok_def)

lemma reach_getPage: "pl_reachable pl \<Longrightarrow> pl_reachable (snd (getPage page pl))"
  by (rule reach_step [OF _ step_getPage])

lemma reach_remove: "pl_reachable pl \<Longrightarrow> pl_reachable (snd (removeItemOnCurrentPage idx pl))"
  by (rule reach_step [OF _ step_remove])

lemmas pl_reach_intros = reach_new reach_getPage reach_remove

section \<open>The pages of a list\<close>

lemma concat_pages:
  "0 < n \<Longrightarrow> concat (map (page_at n xs) [1..int m]) = take (m * nat n) xs"
proof (induction m)
  case 0
  then show ?case by simp
next
  case (Suc m)
  have range: "[1..int (Suc m)] = [1..int m] @ [int m + 1]"
    by (subst upto_rec2) simp_all
  have last: "page_at n xs (int m + 1) = take (nat n) (drop (m * nat n) xs)"
    using Suc.prems by (simp add: page_at_def nat_mult_distrib)
  have "concat (map (page_at n xs) [1..int (Suc m)])
        = take (m * nat n) xs @ take (nat n) (drop (m * nat n) xs)"
    using Suc by (simp add: range last del: of_nat_Suc)
  also have "\<dots> = take (Suc m * nat n) xs"
    by (simp add: add.commute flip: take_add)
  finally show ?case .
qed

lemma all_pages:
  assumes "0 < n"
  shows "concat (map (page_at n xs) [1..page_count n (length xs)]) = xs"
proof -
  obtain m where m: "page_count n (length xs) = int m"
    using page_count_pos [OF assms] by (metis nonneg_int_cases order_trans zero_le_one)
  obtain k where k: "n = int k" using assms by (metis nonneg_int_cases less_imp_le)
  have "int (length xs) \<le> int (m * k)" using page_count_covers [OF assms, of "length xs"] m k by simp
  then have "length xs \<le> m * nat n" using k by (simp only: nat_int of_nat_le_iff)
  then show ?thesis unfolding m by (simp add: concat_pages [OF assms])
qed

lemma length_page_at: "length (page_at n xs k) \<le> nat n"
  by (simp add: page_at_def)

lemma page_at_nth:
  assumes "0 < n" "1 \<le> k" "0 \<le> i" "i < int (length (page_at n xs k))"
  defines "r \<equiv> nat ((k - 1) * n + i)"
  shows "r < length xs" and "page_at n xs k ! nat i = xs ! r"
proof -
  have nonneg: "0 \<le> (k - 1) * n" using assms(1,2) by simp
  have r: "r = nat ((k - 1) * n) + nat i" using nonneg assms(3) by (simp add: r_def nat_add_distrib)
  have i: "nat i < length (page_at n xs k)" using assms(3,4) by linarith
  then show "r < length xs" unfolding r page_at_def by auto
  with i show "page_at n xs k ! nat i = xs ! r" by (simp add: r page_at_def)
qed

section \<open>The interface the table view relies on\<close>

text \<open>
  A pager, as its client sees it: it holds a list, cuts it into pages of its size, shows the
  page it is asked for and removes an entry by its index on the shown page.
\<close>

fun browse :: "(int \<Rightarrow> ('p, 'a list option) prog) \<Rightarrow> int list \<Rightarrow> 'p \<Rightarrow> 'a list result" where
  "browse goto [] p = Inr []"
| "browse goto (k # ks) p =
     (case goto k p of
        (Inl e, _) \<Rightarrow> Inl e
      | (Inr None, _) \<Rightarrow> Inl (TypeError ''currentListPage'')
      | (Inr (Some xs), p') \<Rightarrow>
          (case browse goto ks p' of Inl e \<Rightarrow> Inl e | Inr ys \<Rightarrow> Inr (xs @ ys)))"

locale pager =
  fixes contents :: "'p \<Rightarrow> 'a list"
    and size_of :: "'p \<Rightarrow> int"
    and pages_of :: "'p \<Rightarrow> int"
    and page_of :: "'p \<Rightarrow> int"
    and goto :: "int \<Rightarrow> ('p, 'a list option) prog"
    and drop_at :: "int \<Rightarrow> ('p, unit) prog"
    and ok :: "'p \<Rightarrow> bool"
  assumes size_pos: "ok p \<Longrightarrow> 0 < size_of p"
    and page_pos: "ok p \<Longrightarrow> 1 \<le> page_of p \<and> page_of p \<le> pages_of p"
    and pages: "ok p \<Longrightarrow> pages_of p = page_count (size_of p) (length (contents p))"
    and goto_in: "ok p \<Longrightarrow> 1 \<le> k \<Longrightarrow> k \<le> pages_of p \<Longrightarrow>
          fst (goto k p) = Inr (Some (page_at (size_of p) (contents p) k))"
    and goto_frame: "ok p \<Longrightarrow> ok (snd (goto k p)) \<and> contents (snd (goto k p)) = contents p \<and>
          size_of (snd (goto k p)) = size_of p"
    and drop_run: "ok p \<Longrightarrow> fst (drop_at i p) = Inr () \<and> ok (snd (drop_at i p)) \<and>
          size_of (snd (drop_at i p)) = size_of p \<and>
          contents (snd (drop_at i p)) = js_splice1 (contents p) ((page_of p - 1) * size_of p + i)"
begin

lemma browse_pages:
  "ok p \<Longrightarrow> \<forall>k \<in> set ks. 1 \<le> k \<and> k \<le> pages_of p \<Longrightarrow>
   browse goto ks p = Inr (concat (map (page_at (size_of p) (contents p)) ks))"
proof (induction ks arbitrary: p)
  case Nil
  then show ?case by simp
next
  case (Cons k ks)
  let ?p = "snd (goto k p)"
  have frame: "ok ?p" "contents ?p = contents p" "size_of ?p = size_of p"
    using goto_frame [OF Cons.prems(1), of k] by auto
  then have "pages_of ?p = pages_of p" using Cons.prems(1) by (simp add: pages)
  with Cons frame have "browse goto ks ?p = Inr (concat (map (page_at (size_of p) (contents p)) ks))"
    by auto
  moreover have "fst (goto k p) = Inr (Some (page_at (size_of p) (contents p) k))"
    using Cons.prems by (intro goto_in) auto
  ultimately show ?case by (cases "goto k p") auto
qed

text \<open>Going through all the pages in order shows the whole list, each entry once.\<close>

lemma browse_all: "ok p \<Longrightarrow> browse goto [1..pages_of p] p = Inr (contents p)"
  using browse_pages [of p "[1..pages_of p]"]
  by (simp add: pages all_pages size_pos)

text \<open>An entry removed by its index on the page is the entry shown there, and no other goes.\<close>

lemma drop_shown:
  assumes "ok p" "0 \<le> i" "i < int (length (page_at (size_of p) (contents p) (page_of p)))"
  shows "mset (contents p)
         = add_mset (page_at (size_of p) (contents p) (page_of p) ! nat i)
             (mset (contents (snd (drop_at i p))))"
proof -
  let ?r = "(page_of p - 1) * size_of p + i"
  have pos: "0 < size_of p" "1 \<le> page_of p" using assms(1) by (auto simp: size_pos page_pos)
  have shown: "nat ?r < length (contents p)"
      "page_at (size_of p) (contents p) (page_of p) ! nat i = contents p ! nat ?r"
    using page_at_nth [OF pos assms(2,3)] by simp_all
  have "0 \<le> ?r" using pos assms(2) by simp
  then have "contents (snd (drop_at i p)) = take (nat ?r) (contents p) @ drop (Suc (nat ?r)) (contents p)"
    using drop_run [OF assms(1)] by (simp add: js_splice1_nonneg)
  moreover have "contents p = take (nat ?r) (contents p) @ contents p ! nat ?r # drop (Suc (nat ?r)) (contents p)"
    using shown(1) by (rule id_take_nth_drop)
  ultimately show ?thesis
    unfolding shown(2) by (metis mset_append mset.simps(2) union_mset_add_mset_right)
qed

lemma drop_length:
  assumes "ok p" "0 \<le> i" "i < int (length (page_at (size_of p) (contents p) (page_of p)))"
  shows "length (contents p) = Suc (length (contents (snd (drop_at i p))))"
  using drop_shown [OF assms] by (metis size_add_mset size_mset)

end

interpretation pl: pager pl_list pageSize availablePage currentPage getPage
  removeItemOnCurrentPage pl_wf
proof (unfold_locales, goal_cases)
  case (5 p k)
  then show ?case
    using pl_wf_getPage [of p k]
    by (cases "k < 1 \<or> k > availablePage p") (auto simp: getPage_out getPage_in)
next
  case (6 p i)
  then show ?case
    using pl_wf_removeItemOnCurrentPage [of p i]
    by (simp add: removeItemOnCurrentPage_run getFrom_def)
qed (auto simp: pl_wf_def getPage_in)

section \<open>The page links\<close>

lemma getSubRange_window:
  assumes "1 \<le> page" "page \<le> availablePage pl" "0 < width"
  shows "\<exists>a b. getSubRange page width pl = Inr (a, b) \<and> 1 \<le> a \<and> a \<le> of_int page \<and>
           of_int page \<le> b \<and> b \<le> of_int (availablePage pl)"
proof -
  let ?p = "of_int page :: rat" and ?r = "of_int width :: rat" and ?n = "of_int (availablePage pl) :: rat"
  have p: "1 \<le> ?p" "?p \<le> ?n" and r: "1 \<le> ?r" using assms by simp_all
  consider "availablePage pl \<le> width" | "width < availablePage pl" "?p - ?r / 2 < 1"
    | "width < availablePage pl" "\<not> ?p - ?r / 2 < 1" "?p + (?r - ?r / 2) > ?n"
    | "width < availablePage pl" "\<not> ?p - ?r / 2 < 1" "\<not> ?p + (?r - ?r / 2) > ?n"
    by linarith
  then show ?thesis
  proof cases
    case 1
    then show ?thesis using assms p by (auto simp: getSubRange_def)
  next
    case 2
    have "?p * 2 < of_int (width + 2)" using 2(2) by simp
    then have "page * 2 < width + 2" by (metis of_int_less_iff of_int_mult of_int_numeral)
    then have "?p \<le> ?r" using assms(3) by simp
    with 2 assms p show ?thesis by (auto simp: getSubRange_def Let_def)
  next
    case 3
    have "of_int (width + 1) \<le> ?n" using 3(1) by (simp only: of_int_le_iff)
    then have "1 \<le> ?n - ?r" by simp
    moreover have "?n - ?r \<le> ?p" using 3(3) r by (simp add: field_simps)
    ultimately show ?thesis using 3 assms p by (auto simp: getSubRange_def Let_def)
  next
    case 4
    moreover have "?p - ?r / 2 \<le> ?p" "?p \<le> ?p + (?r - ?r / 2)" using r by (simp_all add: field_simps)
    ultimately show ?thesis using assms p by (auto simp: getSubRange_def Let_def)
  qed
qed

lemma prev_next_in_range:
  assumes "pl_wf pl"
  shows "1 \<le> getPrevPage pl \<and> getPrevPage pl \<le> availablePage pl \<and>
         1 \<le> getNextPage pl \<and> getNextPage pl \<le> availablePage pl"
  using assms by (auto simp: pl_wf_def getPrevPage_def getNextPage_def)

section \<open>Properties\<close>

text \<open>
  C11: every pager that the constructor and the methods can produce, in any order, with positive
  page sizes, counts that are not negative, and any pages, indices and items, has a current page
  between 1 and the page count, which is the number of entries it believes in divided by the page
  size rounded up (1 for none). As long as only the methods that its users call have run
  (\<open>setPageSize\<close>, \<open>getPage\<close>, \<open>currentPageItems\<close>, \<open>removeItemOnCurrentPage\<close>), that number is the length of the
  list, and the cached page, if any, is the current page of the list.
\<close>
theorem pager_always_consistent:
  assumes "pl_reached own pl"
  shows "0 < pageSize pl \<and>
    availablePage pl = (if available pl = 0 then 1 else ceil_div (available pl) (pageSize pl)) \<and>
    1 \<le> currentPage pl \<and> currentPage pl \<le> availablePage pl \<and>
    (own \<longrightarrow> available pl = int (length (pl_list pl)) \<and>
      (case currentListPage pl of None \<Rightarrow> True
       | Some items \<Rightarrow> items = page_at (pageSize pl) (pl_list pl) (currentPage pl)))"
  using pl_reached_counters [OF assms] pl_reachable_wf [OF pl_reached_reachable [OF assms]]
  by (auto simp: counters_ok_def pl_wf_def)

theorem pager_always_consistent_witness:
  "let pl = snd (removeItemOnCurrentPage 0 (snd (getPage 3 (newPageList 2 [10, 20, 30, 40, 50 :: int]))))
   in availablePage pl = 2 \<and> currentPage pl = 2 \<and> currentPage pl \<le> availablePage pl \<and> available pl = int (length (pl_list pl))"
proof -
  let ?pl = "snd (removeItemOnCurrentPage 0 (snd (getPage 3 (newPageList 2 [10, 20, 30, 40, 50 :: int]))))"
  have "pl_reached True ?pl"
    by (intro reached_step [OF _ step_remove] reached_step [OF _ step_getPage] reached_new) simp
  from pager_always_consistent [OF this] have "currentPage ?pl \<le> availablePage ?pl" "available ?pl = int (length (pl_list ?pl))"
    by blast+
  moreover have "availablePage ?pl = 2" "currentPage ?pl = 2" by code_simp+
  ultimately show ?thesis by (simp add: Let_def)
qed

text \<open>
  C12: a reader who asks for the pages from the first to the last, one after the other, is
  never refused and sees every entry of the list exactly once and in order.
\<close>
theorem pages_partition_list:
  assumes "pl_reachable pl"
  shows "browse getPage [1..availablePage pl] pl = Inr (pl_list pl)"
  by (rule pl.browse_all [OF pl_reachable_wf [OF assms]])

theorem pages_partition_list_witness:
  "browse getPage [1..3] (newPageList 2 ''abcde'') = Inr ''abcde''"
proof -
  have "pl_reachable (newPageList 2 ''abcde'')" by (rule reach_new) simp
  from pages_partition_list [OF this] show ?thesis
    by (simp add: newPageList_def setAvailablePage_def ceil_div_def)
qed

text \<open>
  Removing an entry by its index on the shown page removes that entry of the list and no
  other, and leaves the reader on the same page, or on the new last page when the removal
  emptied the one shown.
\<close>
lemma remove_removes_shown_item:
  assumes "pl_reachable pl" and "currentListPage pl = Some items"
    and "0 \<le> idx" and "idx < int (length items)"
  defines "pl' \<equiv> snd (removeItemOnCurrentPage idx pl)"
  shows "fst (removeItemOnCurrentPage idx pl) = Inr () \<and>
    mset (pl_list pl) = add_mset (items ! nat idx) (mset (pl_list pl')) \<and>
    currentPage pl' = min (currentPage pl) (page_count (pageSize pl) (length (pl_list pl'))) \<and>
    currentListPage pl' = Some (page_at (pageSize pl) (pl_list pl') (currentPage pl'))"
proof -
  have wf: "pl_wf pl" by (rule pl_reachable_wf [OF assms(1)])
  then have "items = page_at (pageSize pl) (pl_list pl) (currentPage pl)"
    using assms(2) by (simp add: pl_wf_def)
  with pl.drop_shown [OF wf assms(3)] assms(4)
  have "mset (pl_list pl) = add_mset (items ! nat idx) (mset (pl_list pl'))"
    by (simp add: pl'_def)
  then show ?thesis
    using wf by (simp add: pl'_def removeItemOnCurrentPage_run min_def)
qed

lemma remove_removes_shown_item_witness:
  "mset ''abcde'' =
     add_mset CHR ''e'' (mset (pl_list (snd (removeItemOnCurrentPage 0 (snd (getPage 3 (newPageList 2 ''abcde'')))))))"
proof -
  let ?pl = "snd (getPage 3 (newPageList 2 ''abcde''))"
  have "pl_reachable ?pl" by (intro pl_reach_intros) simp
  moreover have "currentListPage ?pl = Some ''e''" by code_simp
  moreover have "pl_list ?pl = ''abcde''" by code_simp
  ultimately show ?thesis using remove_removes_shown_item [of ?pl "''e''" 0] by simp
qed

text \<open>
  Asking for a page outside the range raises and leaves the pager as it was; the code
  means to raise an exception of its own with a message, but the class it names does not
  exist, so what is raised is a \<open>ReferenceError\<close>.
\<close>
lemma getPage_out_of_range:
  "getPage page pl = (if page < 1 \<or> availablePage pl < page
     then (Inl (ReferenceError ''Exception''), pl)
     else (Inr (Some (js_slice (pl_list pl) ((page - 1) * pageSize pl) (min (page * pageSize pl) (available pl)))),
           pl\<lparr>currentPage := page, currentListPage :=
               Some (js_slice (pl_list pl) ((page - 1) * pageSize pl) (min (page * pageSize pl) (available pl)))\<rparr>))"
  by (simp add: pl_run getFrom_def getTo_def Let_def min_def)

text \<open>
  The window of page links around a page of a consistent pager always contains that page
  and never leaves the range of pages, for every window width above 0.
\<close>
lemma getSubRange_contains_page:
  assumes "1 \<le> page" and "page \<le> availablePage pl" and "0 < rangeSize"
  shows "\<exists>a b. getSubRange page rangeSize pl = Inr (a, b) \<and> 1 \<le> a \<and> a \<le> of_int page \<and>
           of_int page \<le> b \<and> b \<le> of_int (availablePage pl)"
  using assms by (rule getSubRange_window)

lemma getSubRange_contains_page_witness:
  "\<exists>a b. getSubRange 7 10 (newPageList 10 [1..151]) = Inr (a, b) \<and> 1 \<le> a \<and> a \<le> 7 \<and> 7 \<le> b"
  using getSubRange_contains_page [of 7 "newPageList 10 [1..151]" 10]
  by (force simp: newPageList_def setAvailablePage_def ceil_div_def)

text \<open>
  The window the table asks for (10 links) has 10 links only while the page is one of the
  first five of a long list; from page 6 on it has 11.
\<close>
lemma page_links_drift:
  assumes "1 \<le> page" and "page \<le> availablePage pl" and "10 < availablePage pl"
  shows "\<exists>a b. getSubRange page 10 pl = Inr (a, b) \<and> b - a + 1 = (if page \<le> 5 then 10 else 11)"
proof -
  have *: "of_int page < (6::rat) \<longleftrightarrow> page \<le> 5"
    using of_int_less_iff [of page 6, where 'a = rat] by auto
  from assms show ?thesis by (auto simp: getSubRange_def Let_def *)
qed

lemma page_links_drift_witness:
  "\<exists>a b. getSubRange 8 10 (newPageList 10 [1..151]) = Inr (a, b) \<and> b - a + 1 = 11"
  using page_links_drift [of 8 "newPageList 10 [1..151]"]
  by (simp add: newPageList_def setAvailablePage_def ceil_div_def)

end
