(* ===== verification/JSValue.thy ===== *)
theory JSValue
  imports Prelude
begin

text \<open>
  The values of the language the code computes with: primitive values, arrays and plain
  objects (property lists in insertion order), the coercions the code relies on (\<open>== null\<close>,
  \<open>== ''\<close>, \<open>isNaN\<close>, comparison with a number), decimal numerals, and the interface
  \<open>property_map\<close> of objects used as dictionaries.

  Numbers are rationals with the two infinities and NaN, and 0 has one sign. A number read from
  text is rounded to a double (\<open>to_double\<close>); arithmetic on numbers is exact.
  Strings are lists of characters below 256.
\<close>

section \<open>Values\<close>

datatype jsnum = NaN | NegInf | PosInf | Fin rat

datatype jsval =
    JUndef
  | JNull
  | JBool bool
  | JNum jsnum
  | JStr string
  | JArr "jsval list"
  | JObj "(string \<times> jsval) list"

text \<open>\<open>x == null\<close>\<close>

fun nullish :: "jsval \<Rightarrow> bool" where
  "nullish JUndef = True"
| "nullish JNull = True"
| "nullish _ = False"

lemma nullish_iff: "nullish v \<longleftrightarrow> v = JUndef \<or> v = JNull"
  by (cases v) auto

fun is_array :: "jsval \<Rightarrow> bool" where
  "is_array (JArr _) = True"
| "is_array _ = False"

definition js_le :: "jsnum \<Rightarrow> int \<Rightarrow> bool" where
  "js_le x k = (case x of NaN \<Rightarrow> False | NegInf \<Rightarrow> True | PosInf \<Rightarrow> False | Fin q \<Rightarrow> q \<le> of_int k)"

text \<open>\<open>x < k\<close> and \<open>x > k\<close> for a number \<open>k\<close>; both are false on NaN.\<close>

definition js_less :: "jsnum \<Rightarrow> int \<Rightarrow> bool" where
  "js_less x k = (case x of NaN \<Rightarrow> False | NegInf \<Rightarrow> True | PosInf \<Rightarrow> False | Fin q \<Rightarrow> q < of_int k)"

definition js_greater :: "jsnum \<Rightarrow> int \<Rightarrow> bool" where
  "js_greater x k = (case x of NaN \<Rightarrow> False | NegInf \<Rightarrow> False | PosInf \<Rightarrow> True | Fin q \<Rightarrow> of_int k < q)"

section \<open>Doubles\<close>

text \<open>
  The double nearest to a rational: 53 binary digits, the least exponent -1074, a tie goes to the
  even neighbour, and what would need an exponent beyond 971 is infinite.
\<close>

function bits :: "int \<Rightarrow> int" where
  "bits n = (if n \<le> 0 then 0 else 1 + bits (n div 2))"
  by auto
termination by (relation "measure nat") auto

declare bits.simps [simp del]

definition two_pow :: "int \<Rightarrow> rat" where
  "two_pow e = (if 0 \<le> e then 2 ^ nat e else 1 / 2 ^ nat (- e))"

definition round_even :: "rat \<Rightarrow> int" where
  "round_even q =
     (let k = \<lfloor>q\<rfloor>; d = q - of_int k
      in if d < 1 / 2 then k else if 1 / 2 < d then k + 1 else if even k then k else k + 1)"

definition binade :: "rat \<Rightarrow> int" where
  "binade q =
     (let (a, b) = quotient_of \<bar>q\<bar>; e = bits a - bits b
      in if \<bar>q\<bar> < two_pow e then e - 1 else e)"

definition to_double :: "rat \<Rightarrow> jsnum" where
  "to_double q =
     (if q = 0 then Fin 0
      else let e = max (-1074) (binade q - 52); infinite = (if 0 < q then PosInf else NegInf)
       in if 971 < e then infinite
          else let m = round_even (q / two_pow e)
            in if e = 971 \<and> 2 ^ 53 \<le> \<bar>m\<bar> then infinite else Fin (of_int m * two_pow e))"

lemma bits_step: "0 < n \<Longrightarrow> bits n = 1 + bits (n div 2)"
  by (simp add: bits.simps [of n])

lemma bits_pos: "0 < n \<Longrightarrow> 0 < bits n" and bits_nonneg: "0 \<le> bits n"
proof -
  show "0 \<le> bits n" for n
    by (induction n rule: bits.induct) (subst bits.simps, auto)
  then show "0 < n \<Longrightarrow> 0 < bits n" by (metis bits_step zle_add1_eq_le add.commute)
qed

lemma bits_bounds: "0 < n \<Longrightarrow> 2 ^ nat (bits n - 1) \<le> n \<and> n < 2 ^ nat (bits n)"
proof (induction n rule: bits.induct)
  case (1 n)
  let ?b = "bits (n div 2)"
  show ?case
  proof (cases "n div 2 = 0")
    case True
    with 1(2) have "n = 1" by simp
    then show ?thesis by (simp add: bits.simps)
  next
    case False
    with 1(2) have pos: "0 < n div 2" by simp
    with 1 have IH: "2 ^ nat (?b - 1) \<le> n div 2" "n div 2 < 2 ^ nat ?b" by simp_all
    from pos have "nat ?b = Suc (nat (?b - 1))" "nat (bits n) = Suc (nat ?b)"
      using bits_pos [OF pos] bits_step [OF 1(2)] by simp_all
    then have "(2::int) ^ nat ?b = 2 * 2 ^ nat (?b - 1)" "(2::int) ^ nat (bits n) = 2 * 2 ^ nat ?b"
      by (simp_all only: power_Suc)
    with IH have "2 ^ nat ?b \<le> n" "n < 2 ^ nat (bits n)" by linarith+
    then show ?thesis using bits_step [OF 1(2)] by simp
  qed
qed

lemma round_even_int [simp]: "round_even (of_int k) = k"
  by (simp add: round_even_def Let_def)

lemma round_even_near: "\<bar>of_int (round_even q) - q\<bar> \<le> 1 / 2"
proof -
  have "of_int \<lfloor>q\<rfloor> \<le> q" "q < of_int \<lfloor>q\<rfloor> + 1" by linarith+
  then show ?thesis by (auto simp: round_even_def Let_def)
qed

lemma bits_one [simp]: "bits 1 = 1"
  by (simp add: bits.simps)

lemma binade_int:
  assumes "k \<noteq> 0"
  shows "binade (of_int k) = bits \<bar>k\<bar> - 1"
proof -
  have q: "quotient_of (\<bar>of_int k\<bar> :: rat) = (\<bar>k\<bar>, 1)" by (simp flip: of_int_abs)
  have pos: "0 < \<bar>k\<bar>" using assms by simp
  have p: "0 \<le> bits \<bar>k\<bar> - 1" using bits_pos [OF pos] by simp
  have "(of_int (2 ^ nat (bits \<bar>k\<bar> - 1)) :: rat) \<le> of_int \<bar>k\<bar>"
    using bits_bounds [OF pos] by (simp only: of_int_le_iff)
  then show ?thesis using p by (simp add: binade_def q two_pow_def Let_def)
qed

lemma to_double_int:
  assumes "\<bar>k\<bar> \<le> 2 ^ 53"
  shows "to_double (of_int k) = Fin (of_int k)"
proof (cases "k = 0")
  case True
  then show ?thesis by (simp add: to_double_def)
next
  case False
  let ?b = "bits \<bar>k\<bar>" and ?e = "max (-1074) (binade (of_int k) - 52)"
  have pos: "0 < \<bar>k\<bar>" using False by simp
  note k = bits_bounds [OF pos]
  have b: "?b \<le> 54"
  proof (rule ccontr)
    assume "\<not> ?thesis"
    then have "(2::int) ^ 54 \<le> 2 ^ nat (?b - 1)" by (intro power_increasing) auto
    with k have "(2::int) ^ 54 \<le> \<bar>k\<bar>" by linarith
    with assms show False by simp
  qed
  have e: "?e = ?b - 53" using bits_pos [OF pos] by (simp add: binade_int [OF False])
  have "\<exists>m. of_int k / two_pow ?e = (of_int m :: rat)"
  proof (cases "?b = 54")
    case True
    with k assms have "\<bar>k\<bar> = 2 ^ 53" by simp
    then have "k = 2 * (if 0 < k then 2 ^ 52 else - (2 ^ 52))" by auto
    then have "of_int k / two_pow 1 = (of_int (if 0 < k then 2 ^ 52 else - (2 ^ 52)) :: rat)"
      by (auto simp: two_pow_def)
    then show ?thesis using True unfolding e by auto
  next
    case False
    with b have "of_int k / two_pow ?e = (of_int (k * 2 ^ nat (53 - ?b)) :: rat)"
      unfolding e two_pow_def by auto
    then show ?thesis by blast
  qed
  then obtain m where m: "of_int k / two_pow ?e = (of_int m :: rat)" by blast
  have "two_pow ?e \<noteq> 0" by (simp add: two_pow_def)
  with m have "of_int m * two_pow ?e = (of_int k :: rat)" by (simp add: divide_eq_eq)
  moreover have "\<not> 971 < ?e" "?e \<noteq> 971" using b unfolding e by simp_all
  ultimately show ?thesis using False m by (simp only: to_double_def Let_def) simp
qed

text \<open>The double nearest to an integer is an integer or infinite.\<close>

lemma to_double_integral:
  "to_double (of_int k) \<in> {NegInf, PosInf} \<or> (\<exists>j. to_double (of_int k) = Fin (of_int j))"
proof (cases "\<bar>k\<bar> \<le> 2 ^ 53")
  case True
  then show ?thesis using to_double_int by blast
next
  case False
  let ?e = "max (-1074) (binade (of_int k) - 52)"
  have "0 < \<bar>k\<bar>" and large: "2 ^ 53 < \<bar>k\<bar>" using False by auto
  note k = bits_bounds [OF this(1)]
  have "53 < bits \<bar>k\<bar>"
  proof (rule ccontr)
    assume "\<not> ?thesis"
    then have "(2::int) ^ nat (bits \<bar>k\<bar>) \<le> 2 ^ 53" by (intro power_increasing) auto
    with k large show False by linarith
  qed
  then have "0 \<le> ?e" using binade_int [of k] \<open>0 < \<bar>k\<bar>\<close> by simp
  then have "of_int m * two_pow ?e = (of_int (m * 2 ^ nat ?e) :: rat)" for m
    by (simp add: two_pow_def)
  then have "\<exists>j. of_int m * two_pow ?e = (of_int j :: rat)" for m by blast
  then show ?thesis by (auto simp only: to_double_def Let_def insert_iff split: if_splits) auto
qed

lemma to_double_number: "to_double q \<noteq> NaN"
  by (simp add: to_double_def Let_def)

text \<open>Integers from 2 to the power 1024 on are infinite.\<close>

lemma to_double_large:
  assumes "2 ^ 1024 \<le> k"
  shows "to_double (of_int k) = PosInf"
proof -
  have pos: "0 < k" by (rule order.strict_trans2 [OF _ assms]) simp
  have "1024 < bits k"
  proof (rule ccontr)
    assume "\<not> ?thesis"
    then have "(2::int) ^ nat (bits k) \<le> 2 ^ 1024" by (intro power_increasing) auto
    with bits_bounds [OF pos] assms show False by linarith
  qed
  then have "971 < max (-1074) (binade (of_int k) - 52)" using binade_int [of k] pos by simp
  with pos show ?thesis by (simp only: to_double_def Let_def) simp
qed

section \<open>Decimal numerals\<close>

definition is_digit :: "char \<Rightarrow> bool" where
  "is_digit c \<longleftrightarrow> 48 \<le> (of_char c :: nat) \<and> (of_char c :: nat) \<le> 57"

definition is_space :: "char \<Rightarrow> bool" where
  "is_space c \<longleftrightarrow> (of_char c :: nat) \<in> {9, 10, 11, 12, 13, 32, 160}"

definition digit_val :: "char \<Rightarrow> nat" where
  "digit_val c = of_char c - 48"

definition digit_char :: "nat \<Rightarrow> char" where
  "digit_char d = char_of (48 + d)"

definition dec_val :: "string \<Rightarrow> nat" where
  "dec_val s = foldl (\<lambda>a c. a * 10 + digit_val c) 0 s"

fun show_nat :: "nat \<Rightarrow> string" where
  "show_nat n = (if n < 10 then [digit_char n] else show_nat (n div 10) @ [digit_char (n mod 10)])"

declare show_nat.simps [simp del]

definition show_int :: "int \<Rightarrow> string" where
  "show_int k = (if k < 0 then CHR ''-'' # show_nat (nat (- k)) else show_nat (nat k))"

lemma digit_char_digit [simp]: "d < 10 \<Longrightarrow> is_digit (digit_char d)"
  by (simp add: is_digit_def digit_char_def of_char_of)

lemma digit_val_char [simp]: "d < 10 \<Longrightarrow> digit_val (digit_char d) = d"
  by (simp add: digit_val_def digit_char_def of_char_of)

lemma show_nat_digits: "c \<in> set (show_nat n) \<Longrightarrow> is_digit c"
proof (induction n rule: show_nat.induct)
  case (1 n)
  then show ?case
    by (subst (asm) (2) show_nat.simps) (auto split: if_splits)
qed

lemma show_nat_nonempty [simp]: "show_nat n \<noteq> []"
  by (subst show_nat.simps) simp

lemma dec_val_snoc [simp]: "dec_val (s @ [c]) = dec_val s * 10 + digit_val c"
  by (simp add: dec_val_def)

lemma dec_val_single [simp]: "dec_val [c] = digit_val c"
  by (simp add: dec_val_def)

lemma dec_val_Nil [simp]: "dec_val [] = 0"
  by (simp add: dec_val_def)

lemma dec_val_show_nat [simp]: "dec_val (show_nat n) = n"
proof (induction n rule: show_nat.induct)
  case (1 n)
  then show ?case by (subst show_nat.simps) simp
qed

lemma show_nat_inject [simp]: "show_nat m = show_nat n \<longleftrightarrow> m = n"
  by (metis dec_val_show_nat)

lemma is_digit_special [simp]:
  "\<not> is_digit CHR ''-''" "\<not> is_digit CHR ''.''" "\<not> is_digit CHR ''@''" "\<not> is_digit CHR ''_''"
  "\<not> is_digit CHR '' ''"
  by (simp_all add: is_digit_def)

lemma show_nat_no_char: "\<not> is_digit c \<Longrightarrow> c \<notin> set (show_nat n)"
  by (blast dest: show_nat_digits)

lemma show_nat_no_dash [simp]: "show_nat n \<noteq> CHR ''-'' # s"
  by (metis is_digit_special(1) list.set_intros(1) show_nat_digits)

lemma show_int_inject [simp]: "show_int j = show_int k \<longleftrightarrow> j = k"
  by (auto simp: show_int_def dest: sym)

lemma show_int_no_space: "is_space c \<Longrightarrow> c \<notin> set (show_int k)"
  by (auto simp: show_int_def is_space_def is_digit_def dest!: show_nat_digits)

lemma show_int_of_nat [simp]: "show_int (int n) = show_nat n"
  by (simp add: show_int_def)

section \<open>Numbers from strings\<close>

text \<open>
  The conversion of a string to a number: surrounding white space is dropped, the empty
  string is 0, and what is left is an optional sign with digits, a fraction, an exponent or
  the word Infinity, or hexadecimal digits after 0x.
\<close>

definition parse_mantissa :: "string \<Rightarrow> rat option" where
  "parse_mantissa s =
     (let a = takeWhile is_digit s
      in case dropWhile is_digit s of
           [] \<Rightarrow> if a = [] then None else Some (of_nat (dec_val a))
         | c # b \<Rightarrow>
             if c = CHR ''.'' \<and> list_all is_digit b \<and> (a \<noteq> [] \<or> b \<noteq> [])
             then Some (of_nat (dec_val a) + of_nat (dec_val b) / 10 ^ length b)
             else None)"

definition parse_exponent :: "string \<Rightarrow> rat option" where
  "parse_exponent s =
     (let neg = (case s of c # _ \<Rightarrow> c = CHR ''-'' | [] \<Rightarrow> False);
          ds = (case s of c # r \<Rightarrow> if c = CHR ''-'' \<or> c = CHR ''+'' then r else s | [] \<Rightarrow> [])
      in if ds = [] \<or> \<not> list_all is_digit ds then None
         else Some (if neg then 1 / 10 ^ dec_val ds else 10 ^ dec_val ds))"

definition parse_decimal :: "string \<Rightarrow> rat option" where
  "parse_decimal s =
     (let m = takeWhile (\<lambda>c. c \<noteq> CHR ''e'' \<and> c \<noteq> CHR ''E'') s
      in case dropWhile (\<lambda>c. c \<noteq> CHR ''e'' \<and> c \<noteq> CHR ''E'') s of
           [] \<Rightarrow> parse_mantissa m
         | _ # e \<Rightarrow> (case (parse_mantissa m, parse_exponent e) of
               (Some q, Some p) \<Rightarrow> Some (q * p) | _ \<Rightarrow> None))"

definition hex_val :: "char \<Rightarrow> nat option" where
  "hex_val c = (let n = of_char c :: nat in
     if 48 \<le> n \<and> n \<le> 57 then Some (n - 48)
     else if 65 \<le> n \<and> n \<le> 70 then Some (n - 55)
     else if 97 \<le> n \<and> n \<le> 102 then Some (n - 87) else None)"

definition parse_hex :: "string \<Rightarrow> rat option" where
  "parse_hex s =
     (if s = [] then None
      else map_option of_nat
        (foldl (\<lambda>a c. Option.bind a (\<lambda>n. map_option (\<lambda>d. n * 16 + d) (hex_val c))) (Some 0) s))"

definition trim :: "string \<Rightarrow> string" where
  "trim s = rev (dropWhile is_space (rev (dropWhile is_space s)))"

definition num_of_opt :: "rat option \<Rightarrow> jsnum" where
  "num_of_opt q = (case q of None \<Rightarrow> NaN | Some r \<Rightarrow> Fin r)"

text \<open>The value the text denotes, before it is rounded to a double.\<close>

definition text_value :: "string \<Rightarrow> jsnum" where
  "text_value s0 =
     (let s = trim s0
      in if s = [] then Fin 0
         else if take 2 s = ''0x'' \<or> take 2 s = ''0X'' then num_of_opt (parse_hex (drop 2 s))
         else let neg = (hd s = CHR ''-'');
                  t = (if hd s = CHR ''-'' \<or> hd s = CHR ''+'' then tl s else s)
              in if t = ''Infinity'' then (if neg then NegInf else PosInf)
                 else num_of_opt (map_option (\<lambda>q. if neg then - q else q) (parse_decimal t)))"

definition round_num :: "jsnum \<Rightarrow> jsnum" where
  "round_num n = (case n of Fin q \<Rightarrow> to_double q | _ \<Rightarrow> n)"

definition js_str_to_num :: "string \<Rightarrow> jsnum" where
  "js_str_to_num s = round_num (text_value s)"

text \<open>
  \<open>ToNumber\<close>: an array converts through its joined text, in which \<open>null\<close> and \<open>undefined\<close>
  are empty and the comma between two entries is never part of a numeral; a plain object
  converts to the text \<open>[object Object]\<close>, hence to NaN.
\<close>

fun js_to_number :: "jsval \<Rightarrow> jsnum" where
  "js_to_number JUndef = NaN"
| "js_to_number JNull = Fin 0"
| "js_to_number (JBool b) = Fin (if b then 1 else 0)"
| "js_to_number (JNum n) = n"
| "js_to_number (JStr s) = js_str_to_num s"
| "js_to_number (JArr []) = Fin 0"
| "js_to_number (JArr [v]) =
     (case v of JUndef \<Rightarrow> Fin 0 | JNull \<Rightarrow> Fin 0 | JBool _ \<Rightarrow> NaN | _ \<Rightarrow> js_to_number v)"
| "js_to_number (JArr (_ # _ # _)) = NaN"
| "js_to_number (JObj _) = NaN"

text \<open>\<open>x == ''\<close>\<close>

fun joins_to_empty :: "jsval list \<Rightarrow> bool" where
  "joins_to_empty [] = True"
| "joins_to_empty [JArr vs] = joins_to_empty vs"
| "joins_to_empty [v] = (nullish v \<or> v = JStr [])"
| "joins_to_empty (_ # _ # _) = False"

fun equals_empty_string :: "jsval \<Rightarrow> bool" where
  "equals_empty_string (JBool b) = (\<not> b)"
| "equals_empty_string (JNum n) = (n = Fin 0)"
| "equals_empty_string (JStr s) = (s = [])"
| "equals_empty_string (JArr vs) = joins_to_empty vs"
| "equals_empty_string _ = False"

text \<open>
  \<open>ToString\<close>; the text of a number is the engine's, \<open>num_text\<close>.
\<close>

fun join_with :: "string \<Rightarrow> string list \<Rightarrow> string" where
  "join_with sep [] = []"
| "join_with sep [s] = s"
| "join_with sep (s # t # ss) = s @ sep @ join_with sep (t # ss)"

fun js_text :: "(jsnum \<Rightarrow> string) \<Rightarrow> jsval \<Rightarrow> string" where
  "js_text num_text JUndef = ''undefined''"
| "js_text num_text JNull = ''null''"
| "js_text num_text (JBool b) = (if b then ''true'' else ''false'')"
| "js_text num_text (JNum n) = num_text n"
| "js_text num_text (JStr s) = s"
| "js_text num_text (JArr vs) =
     join_with '','' (map (\<lambda>v. if nullish v then [] else js_text num_text v) vs)"
| "js_text num_text (JObj _) = ''[object Object]''"

section \<open>Objects as dictionaries\<close>

fun obj_put :: "string \<Rightarrow> 'v \<Rightarrow> (string \<times> 'v) list \<Rightarrow> (string \<times> 'v) list" where
  "obj_put k v [] = [(k, v)]"
| "obj_put k v ((k', v') # m) = (if k = k' then (k, v) # m else (k', v') # obj_put k v m)"

definition obj_del :: "string \<Rightarrow> (string \<times> 'v) list \<Rightarrow> (string \<times> 'v) list" where
  "obj_del k m = filter (\<lambda>(k', _). k' \<noteq> k) m"

definition obj_keys :: "(string \<times> 'v) list \<Rightarrow> string list" where
  "obj_keys m = map fst m"

definition obj_wf :: "(string \<times> 'v) list \<Rightarrow> bool" where
  "obj_wf m \<longleftrightarrow> distinct (obj_keys m)"

text \<open>A property read: an absent property is \<open>undefined\<close>.\<close>

definition get_prop :: "(string \<times> jsval) list \<Rightarrow> string \<Rightarrow> jsval" where
  "get_prop m k = (case map_of m k of None \<Rightarrow> JUndef | Some v \<Rightarrow> v)"

lemma map_of_obj_put [simp]: "map_of (obj_put k v m) = (map_of m)(k \<mapsto> v)"
  by (induction m) auto

lemma get_prop_put [simp]:
  "get_prop (obj_put k v m) k' = (if k' = k then v else get_prop m k')"
  by (simp add: get_prop_def)

lemma obj_keys_put:
  "obj_keys (obj_put k v m) = (if k \<in> set (obj_keys m) then obj_keys m else obj_keys m @ [k])"
  by (induction m) (auto simp: obj_keys_def rev_image_eqI)

lemma obj_put_fresh: "k \<notin> set (obj_keys m) \<Longrightarrow> obj_put k v m = m @ [(k, v)]"
  by (induction m) (auto simp: obj_keys_def)

lemma obj_wf_put [simp]: "obj_wf m \<Longrightarrow> obj_wf (obj_put k v m)"
  by (simp add: obj_wf_def obj_keys_put)

lemma obj_wf_Nil [simp]: "obj_wf []"
  by (simp add: obj_wf_def obj_keys_def)

lemma map_of_None_keys: "map_of m k = None \<longleftrightarrow> k \<notin> set (obj_keys m)"
  by (simp add: obj_keys_def map_of_eq_None_iff)

lemma map_of_obj_del: "map_of (obj_del k m) = (map_of m)(k := None)"
  by (induction m) (auto simp: obj_del_def fun_eq_iff)

lemma obj_keys_del: "obj_keys (obj_del k m) = removeAll k (obj_keys m)"
  by (induction m) (auto simp: obj_del_def obj_keys_def)

text \<open>
  A dictionary with insertion order, as the views use objects: \<open>put\<close> overwrites in place or
  appends, \<open>del\<close> removes, and a \<open>for (name in m)\<close> loop visits the keys in order.
\<close>

locale property_map =
  fixes get :: "'m \<Rightarrow> string \<Rightarrow> 'v option"
    and put :: "string \<Rightarrow> 'v \<Rightarrow> 'm \<Rightarrow> 'm"
    and del :: "string \<Rightarrow> 'm \<Rightarrow> 'm"
    and keys :: "'m \<Rightarrow> string list"
    and wf :: "'m \<Rightarrow> bool"
  assumes get_put: "get (put k v m) k' = (if k' = k then Some v else get m k')"
    and get_del: "get (del k m) k' = (if k' = k then None else get m k')"
    and keys_put: "keys (put k v m) = (if k \<in> set (keys m) then keys m else keys m @ [k])"
    and keys_del: "keys (del k m) = removeAll k (keys m)"
    and get_keys: "get m k = None \<longleftrightarrow> k \<notin> set (keys m)"
    and wf_distinct: "wf m \<longleftrightarrow> distinct (keys m)"
begin

lemma wf_put: "wf m \<Longrightarrow> wf (put k v m)"
  by (simp add: wf_distinct keys_put)

lemma wf_del: "wf m \<Longrightarrow> wf (del k m)"
  by (simp add: wf_distinct keys_del distinct_removeAll)

lemma keys_overwrite: "get m k = Some v \<Longrightarrow> keys (put k w m) = keys m"
  by (metis get_keys keys_put option.distinct(1))

lemma put_all_get:
  "distinct ks \<Longrightarrow>
   get (foldl (\<lambda>m k. put k (f k) m) m ks) k' = (if k' \<in> set ks then Some (f k') else get m k')"
  by (induction ks arbitrary: m) (auto simp: get_put)

lemma put_all_keys:
  "distinct ks \<Longrightarrow> set ks \<inter> set (keys m) = {} \<Longrightarrow>
   keys (foldl (\<lambda>m k. put k (f k) m) m ks) = keys m @ ks"
  by (induction ks arbitrary: m) (auto simp: keys_put)

lemma put_all_wf: "wf m \<Longrightarrow> wf (foldl (\<lambda>m k. put k (f k) m) m ks)"
  by (induction ks arbitrary: m) (auto simp: wf_put)

end

interpretation obj: property_map map_of obj_put obj_del obj_keys obj_wf
  by unfold_locales
     (auto simp: map_of_obj_del obj_keys_put obj_keys_del map_of_None_keys obj_wf_def)

end
