(* ===== verification/UIUtil.thy ===== *)
theory UIUtil
  imports JSValue
begin

text \<open>
  The input validators of \<open>ui/UIUtil.js\<close>: the three regular expressions as predicates on
  strings, \<open>parseInt\<close> and \<open>parseFloat\<close> on the strings they accept, and the four validators,
  whose \<open>throw\<close> of a message is an \<open>Inl\<close> result.
\<close>

section \<open>The regular expressions\<close>

definition drop_minus :: "string \<Rightarrow> string" where
  "drop_minus s = (case s of c # r \<Rightarrow> if c = CHR ''-'' then r else s | [] \<Rightarrow> [])"

definition is_minus :: "string \<Rightarrow> bool" where
  "is_minus s = (case s of c # _ \<Rightarrow> c = CHR ''-'' | [] \<Rightarrow> False)"

definition int_regex :: "string \<Rightarrow> bool" where
  "int_regex s \<longleftrightarrow> drop_minus s \<noteq> [] \<and> list_all is_digit (drop_minus s)"

definition float_regex :: "string \<Rightarrow> bool" where
  "float_regex s =
     (case dropWhile is_digit (drop_minus s) of
        [] \<Rightarrow> drop_minus s \<noteq> []
      | c # b \<Rightarrow> c = CHR ''.'' \<and> b \<noteq> [] \<and> list_all is_digit b)"

definition email_regex :: "string \<Rightarrow> bool" where
  "email_regex s \<longleftrightarrow>
     list_all (\<lambda>c. \<not> is_space c) s \<and>
     list_ex (\<lambda>i. s ! i = CHR ''@'' \<and>
        list_ex (\<lambda>j. s ! j = CHR ''.'' \<and> Suc j < length s) [i + 2..<length s]) [1..<length s]"

text \<open>\<open>parseInt\<close> and \<open>parseFloat\<close> on strings of these shapes: the value, rounded to a double.\<close>

definition int_val :: "string \<Rightarrow> int" where
  "int_val s = (if is_minus s then - int (dec_val (drop_minus s)) else int (dec_val s))"

definition parse_int :: "string \<Rightarrow> jsnum" where
  "parse_int s = to_double (of_int (int_val s))"

definition float_val :: "string \<Rightarrow> rat" where
  "float_val s =
     (let t = drop_minus s; a = takeWhile is_digit t; b = drop 1 (dropWhile is_digit t);
          q = of_nat (dec_val a) + of_nat (dec_val b) / 10 ^ length b
      in if is_minus s then - q else q)"

definition parse_float :: "string \<Rightarrow> jsnum" where
  "parse_float s = to_double (float_val s)"

section \<open>The validators\<close>

record validator_config =
  v_name :: string
  v_errorMsg :: "string option"
  v_from :: "int option"
  v_to :: "int option"

definition message_or :: "string \<Rightarrow> validator_config \<Rightarrow> string" where
  "message_or d v = (case v_errorMsg v of None \<Rightarrow> d | Some m \<Rightarrow> m)"

definition validate_empty :: "validator_config \<Rightarrow> jsval \<Rightarrow> jsval result" where
  "validate_empty v x =
     (if nullish x \<or> equals_empty_string x
      then Inl (ThrownString (message_or ''The value cannot be null or empty'' v))
      else Inr x)"

text \<open>The bounds test that \<open>integer\<close> and \<open>number\<close> end with.\<close>

definition check_bounds :: "validator_config \<Rightarrow> jsnum \<Rightarrow> jsval \<Rightarrow> jsval result" where
  "check_bounds v n x =
     (if n = NaN then Inl (ThrownString (message_or ''Expect an integer value'' v))
      else case v_from v of
        Some lo \<Rightarrow>
          if js_less n lo
          then Inl (ThrownString (''the value need to be greater than or equal to '' @ show_int lo))
          else (case v_to v of
              Some hi \<Rightarrow>
                if js_greater n hi
                then Inl (ThrownString (''the value need to be less than or equal to '' @ show_int hi))
                else Inr x
            | None \<Rightarrow> Inr x)
      | None \<Rightarrow> (case v_to v of
            Some hi \<Rightarrow>
              if js_greater n hi
              then Inl (ThrownString (''the value need to be less than or equal to '' @ show_int hi))
              else Inr x
          | None \<Rightarrow> Inr x))"

definition validate_integer :: "validator_config \<Rightarrow> jsval \<Rightarrow> jsval result" where
  "validate_integer v x =
     (let message = ThrownString (message_or ''Expect an integer value'' v)
      in if nullish x then Inl message
         else case x of
           JStr s \<Rightarrow>
             if int_regex s
             then check_bounds v (parse_int s) (JNum (parse_int s))
             else Inl message
         | _ \<Rightarrow> check_bounds v (js_to_number x) x)"

definition validate_number :: "validator_config \<Rightarrow> jsval \<Rightarrow> jsval result" where
  "validate_number v x =
     (let message = ThrownString (message_or ''Expect an integer value'' v)
      in if nullish x then Inl message
         else case x of
           JStr s \<Rightarrow>
             if float_regex s
             then check_bounds v (parse_float s) (JNum (parse_float s))
             else Inl message
         | _ \<Rightarrow> check_bounds v (js_to_number x) x)"

text \<open>
  A value of length 0 is passed through; any other is tested by its text (\<open>num_text\<close> is the
  engine's text of a number).
\<close>

definition has_length_zero :: "jsval \<Rightarrow> bool" where
  "has_length_zero x =
     (case x of
        JStr s \<Rightarrow> s = []
      | JArr xs \<Rightarrow> xs = []
      | JObj m \<Rightarrow> \<not> nullish (get_prop m ''length'') \<and> js_to_number (get_prop m ''length'') = Fin 0
      | _ \<Rightarrow> False)"

definition validate_email :: "(jsnum \<Rightarrow> string) \<Rightarrow> validator_config \<Rightarrow> jsval \<Rightarrow> jsval result" where
  "validate_email num_text v x =
     (if nullish x \<or> has_length_zero x then Inr x
      else if email_regex (js_text num_text x) then Inr x
      else Inl (ThrownString
        (message_or ''Expect a valid email address in the form name@host.domain'' v)))"

text \<open>The table \<open>UIUtil.Validator\<close>.\<close>

definition lookup_validator ::
  "(jsnum \<Rightarrow> string) \<Rightarrow> string \<Rightarrow> (validator_config \<Rightarrow> jsval \<Rightarrow> jsval result) option" where
  "lookup_validator num_text name =
     (if name = ''empty'' then Some validate_empty
      else if name = ''integer'' then Some validate_integer
      else if name = ''number'' then Some validate_number
      else if name = ''email'' then Some (validate_email num_text)
      else None)"

section \<open>Numerals\<close>

definition in_bounds :: "validator_config \<Rightarrow> jsnum \<Rightarrow> bool" where
  "in_bounds v n \<longleftrightarrow> n \<noteq> NaN \<and>
     (\<forall>lo. v_from v = Some lo \<longrightarrow> \<not> js_less n lo) \<and> (\<forall>hi. v_to v = Some hi \<longrightarrow> \<not> js_greater n hi)"

lemma check_bounds_ok: "check_bounds v n x = Inr y \<longleftrightarrow> in_bounds v n \<and> y = x"
  by (auto simp: check_bounds_def in_bounds_def split: option.splits)

lemma check_bounds_in: "in_bounds v n \<Longrightarrow> check_bounds v n x = Inr x"
  by (simp add: check_bounds_ok)

lemma drop_minus_show_int [simp]: "drop_minus (show_int k) = show_nat (nat \<bar>k\<bar>)"
  using show_nat_no_dash [of "nat k"]
  by (auto simp: drop_minus_def show_int_def simp del: show_nat_no_dash split: list.splits)

lemma is_minus_show_int [simp]: "is_minus (show_int k) \<longleftrightarrow> k < 0"
  using show_nat_no_dash [of "nat k"]
  by (auto simp: is_minus_def show_int_def simp del: show_nat_no_dash split: list.splits)

lemma int_regex_show_int [simp]: "int_regex (show_int k)"
  by (auto simp: int_regex_def list_all_iff show_nat_digits)

lemma int_val_show_int [simp]: "int_val (show_int k) = k"
  by (simp add: int_val_def) (simp add: show_int_def)

lemma drop_minus_id: "\<not> is_minus s \<Longrightarrow> drop_minus s = s"
  by (auto simp: is_minus_def drop_minus_def split: list.splits)

lemma all_digits_split:
  "list_all is_digit s \<Longrightarrow> takeWhile is_digit s = s \<and> dropWhile is_digit s = []"
  by (auto simp: list_all_iff takeWhile_eq_all_conv dropWhile_eq_Nil_conv)

lemma int_regex_digits:
  assumes "int_regex s"
  shows "drop_minus s \<noteq> []" and "takeWhile is_digit (drop_minus s) = drop_minus s"
    and "dropWhile is_digit (drop_minus s) = []"
  using assms all_digits_split [of "drop_minus s"] by (simp_all add: int_regex_def)

lemma float_regex_int: "int_regex s \<Longrightarrow> float_regex s"
  by (simp add: float_regex_def int_regex_digits)

lemma parse_float_int: "int_regex s \<Longrightarrow> parse_float s = parse_int s"
proof -
  assume int: "int_regex s"
  have "float_val s = of_int (int_val s)"
    unfolding float_val_def Let_def int_regex_digits(2,3) [OF int] int_val_def
    by (simp add: drop_minus_id)
  then show ?thesis by (simp add: parse_float_def parse_int_def)
qed

section \<open>Mail addresses\<close>

lemma split_at_two:
  assumes "0 < i" "i + 2 \<le> j" "Suc j < length s"
  shows "\<exists>u h d. s = u @ s ! i # h @ s ! j # d \<and> u \<noteq> [] \<and> h \<noteq> [] \<and> d \<noteq> []"
proof -
  have ij: "i < length s" "j < length s" "i < j" using assms by auto
  let ?u = "take i s" and ?h = "drop (Suc i) (take j s)" and ?d = "drop (Suc j) s"
  have "s = take j s @ s ! j # ?d" using ij(2) by (rule id_take_nth_drop)
  also have "take j s = take i (take j s) @ take j s ! i # drop (Suc i) (take j s)"
    using ij by (intro id_take_nth_drop) simp
  finally have "s = ?u @ s ! i # ?h @ s ! j # ?d" using ij by (simp add: min_def)
  moreover have "?u \<noteq> []" "?h \<noteq> []" "?d \<noteq> []" using assms ij by auto
  ultimately show ?thesis by metis
qed

lemma email_regex_iff:
  "email_regex s \<longleftrightarrow>
     (\<forall>c \<in> set s. \<not> is_space c) \<and>
     (\<exists>u h d. s = u @ CHR ''@'' # h @ CHR ''.'' # d \<and> u \<noteq> [] \<and> h \<noteq> [] \<and> d \<noteq> [])"
  (is "?L \<longleftrightarrow> ?R")
proof
  assume ?L
  then obtain i j where "0 < i" "i + 2 \<le> j" "Suc j < length s" "s ! i = CHR ''@''" "s ! j = CHR ''.''"
    by (auto simp: email_regex_def list_ex_iff Suc_le_eq)
  with split_at_two [of i j s] \<open>?L\<close> show ?R by (auto simp: email_regex_def list_all_iff)
next
  assume ?R
  then obtain u h d where s: "s = u @ CHR ''@'' # h @ CHR ''.'' # d" "u \<noteq> []" "h \<noteq> []" "d \<noteq> []"
    by auto
  let ?i = "length u" and ?j = "length u + Suc (length h)"
  have "s ! ?i = CHR ''@''" "s ! ?j = CHR ''.''" using s(1) by (simp_all add: nth_append)
  moreover have len: "length s = length u + length h + length d + 2"
      "1 \<le> length u" "1 \<le> length h" "1 \<le> length d"
    using s by (simp_all add: Suc_le_eq)
  then have "?i \<in> set [1..<length s]" "?j \<in> set [?i + 2..<length s]" "Suc ?j < length s"
    unfolding set_upt atLeastLessThan_iff by arith+
  moreover have "list_all (\<lambda>c. \<not> is_space c) s" using \<open>?R\<close> by (simp add: list_all_iff)
  ultimately show ?L unfolding email_regex_def list_ex_iff by blast
qed

section \<open>Properties\<close>

text \<open>
  C20: the decimal text of an integer, typed into an input with the integer validator, is stored
  as the nearest double when that double lies within the configured bounds; otherwise the bound it
  breaks is reported, the lower one first. Up to 2 to the power 53 the double is the integer
  itself; from 2 to the power 1024 on it is infinite, and stored as such when there is no upper bound.
\<close>
theorem integer_of_text:
  "let n = to_double (of_int k)
   in validate_integer v (JStr (show_int k)) =
        (case (v_from v, v_to v) of
           (Some lo, Some hi) \<Rightarrow>
             if js_less n lo then Inl (ThrownString (''the value need to be greater than or equal to '' @ show_int lo))
             else if js_greater n hi then Inl (ThrownString (''the value need to be less than or equal to '' @ show_int hi))
             else Inr (JNum n)
         | (Some lo, None) \<Rightarrow>
             if js_less n lo then Inl (ThrownString (''the value need to be greater than or equal to '' @ show_int lo))
             else Inr (JNum n)
         | (None, Some hi) \<Rightarrow>
             if js_greater n hi then Inl (ThrownString (''the value need to be less than or equal to '' @ show_int hi))
             else Inr (JNum n)
         | (None, None) \<Rightarrow> Inr (JNum n)) \<and>
      (\<bar>k\<bar> \<le> 2 ^ 53 \<longrightarrow> n = Fin (of_int k) \<and> (\<forall>c. (js_less n c \<longleftrightarrow> k < c) \<and> (js_greater n c \<longleftrightarrow> c < k))) \<and>
      (2 ^ 1024 \<le> k \<longrightarrow> n = PosInf)"
proof -
  let ?n = "to_double (of_int k)"
  have exact: "?n = Fin (of_int k) \<and> (\<forall>c. (js_less ?n c \<longleftrightarrow> k < c) \<and> (js_greater ?n c \<longleftrightarrow> c < k))" if "\<bar>k\<bar> \<le> 2 ^ 53"
    unfolding to_double_int [OF that] by (simp add: js_less_def js_greater_def)
  have run: "validate_integer v (JStr (show_int k)) = check_bounds v ?n (JNum ?n)"
    by (simp add: validate_integer_def parse_int_def Let_def)
  show ?thesis unfolding Let_def run check_bounds_def
    by (intro conjI impI exact to_double_large) (simp_all add: to_double_number split: option.split)
qed

theorem integer_of_text_witness:
  "validate_integer \<lparr>v_name = ''integer'', v_errorMsg = None, v_from = Some 0, v_to = Some 100\<rparr> (JStr (show_int 42))
     = Inr (JNum (Fin 42)) \<and>
   validate_integer \<lparr>v_name = ''integer'', v_errorMsg = None, v_from = None, v_to = None\<rparr> (JStr (show_int 9007199254740993))
     = Inr (JNum (Fin 9007199254740992))"
proof -
  have "to_double (of_int 42) = Fin 42" using to_double_int [of 42] by simp
  moreover have "to_double (of_int 9007199254740993) = Fin 9007199254740992" by code_simp
  ultimately show ?thesis
    using integer_of_text [of 42 "\<lparr>v_name = ''integer'', v_errorMsg = None, v_from = Some 0, v_to = Some 100\<rparr>"]
      integer_of_text [of 9007199254740993 "\<lparr>v_name = ''integer'', v_errorMsg = None, v_from = None, v_to = None\<rparr>"]
    unfolding Let_def by (simp add: js_less_def js_greater_def)
qed

text \<open>
  C21: whatever the integer and the number validators accept, text or not, the value they
  store is a number (after conversion), not below \<open>from\<close> and not above \<open>to\<close>, and
  validating the stored value again accepts it and leaves it unchanged.
\<close>
theorem accepted_values_in_bounds:
  assumes "validate_integer v x = Inr y \<or> validate_number v x = Inr y"
  shows "js_to_number y \<noteq> NaN \<and>
    (\<forall>lo. v_from v = Some lo \<longrightarrow> \<not> js_less (js_to_number y) lo) \<and>
    (\<forall>hi. v_to v = Some hi \<longrightarrow> \<not> js_greater (js_to_number y) hi) \<and>
    validate_integer v y = Inr y \<and> validate_number v y = Inr y"
proof -
  have "in_bounds v (js_to_number y) \<and> \<not> nullish y \<and> (\<forall>s. y \<noteq> JStr s)"
    using assms
    by (auto simp: validate_integer_def validate_number_def Let_def check_bounds_ok
        split: jsval.splits if_splits)
  then show ?thesis
    by (auto simp: in_bounds_def validate_integer_def validate_number_def Let_def check_bounds_ok
        split: jsval.splits)
qed

theorem accepted_values_in_bounds_witness:
  "let v = \<lparr>v_name = ''integer'', v_errorMsg = None, v_from = Some 0, v_to = Some 100\<rparr>;
       y = JNum (Fin 42)
   in validate_integer v (JStr ''42'') = Inr y \<and> validate_integer v y = Inr y"
proof -
  let ?v = "\<lparr>v_name = ''integer'', v_errorMsg = None, v_from = Some 0, v_to = Some 100\<rparr>"
  have "validate_integer ?v (JStr ''42'') = Inr (JNum (Fin 42))" by code_simp
  with accepted_values_in_bounds [of ?v "JStr ''42''" "JNum (Fin 42)"] show ?thesis
    by (simp add: Let_def)
qed

text \<open>
  On text that the integer validator accepts the number validator agrees with it: it
  accepts the text under the same bounds and stores the same number.
\<close>
lemma number_extends_integer:
  assumes "validate_integer v (JStr s) = Inr y"
  shows "validate_number v (JStr s) = Inr y"
  using assms float_regex_int [of s] parse_float_int [of s]
  by (auto simp: validate_integer_def validate_number_def Let_def split: if_splits)

lemma number_extends_integer_witness:
  "validate_number \<lparr>v_name = ''number'', v_errorMsg = None, v_from = Some (-9), v_to = None\<rparr> (JStr ''-7'')
   = Inr (JNum (Fin (-7)))"
  by (rule number_extends_integer) code_simp

text \<open>
  C22: the mail validator lets text through unchanged exactly when it is empty or of the form
  name, at sign, host, dot, domain, with all three parts nonempty and no white space.
\<close>
theorem email_accepts:
  "validate_email num_text v (JStr s) =
     (if s = [] \<or> (\<forall>c \<in> set s. \<not> is_space c) \<and>
          (\<exists>u h d. s = u @ ''@'' @ h @ ''.'' @ d \<and> u \<noteq> [] \<and> h \<noteq> [] \<and> d \<noteq> [])
      then Inr (JStr s)
      else Inl (ThrownString
        (message_or ''Expect a valid email address in the form name@host.domain'' v)))"
  by (simp add: validate_email_def has_length_zero_def email_regex_iff)

theorem email_accepts_witness:
  "let v = \<lparr>v_name = ''email'', v_errorMsg = None, v_from = None, v_to = None\<rparr>
   in validate_email (\<lambda>_. []) v (JStr ''ab@c.d'') = Inr (JStr ''ab@c.d'') \<and>
      validate_email (\<lambda>_. []) v (JStr []) = Inr (JStr [])"
proof -
  have "\<forall>c \<in> set ''ab@c.d''. \<not> is_space c" by code_simp
  moreover have "\<exists>u h d. ''ab@c.d'' = u @ ''@'' @ h @ ''.'' @ d \<and> u \<noteq> [] \<and> h \<noteq> [] \<and> d \<noteq> []"
    by (intro exI [of _ "''ab''"] exI [of _ "''c''"] exI [of _ "''d''"]) simp
  ultimately show ?thesis
    by (simp only: email_accepts [of _ _ "''ab@c.d''"] email_accepts [of _ _ "[]"] Let_def) simp
qed

text \<open>
  The validator meant for missing input also refuses the number 0 and \<open>false\<close>, which
  compare equal to the empty string: a numeric field that holds 0 cannot pass it, while the
  text \<open>0\<close> does.
\<close>
lemma empty_refuses_zero:
  "validate_empty v (JNum (Fin 0)) = validate_empty v JNull \<and>
   validate_empty v (JBool False) = validate_empty v JNull \<and>
   validate_empty v (JNum (Fin 0)) \<noteq> Inr (JNum (Fin 0)) \<and>
   validate_empty v (JStr ''0'') = Inr (JStr ''0'')"
  by (simp add: validate_empty_def)

end
