(* ===== verification/UIBean.thy ===== *)
theory UIBean
  imports UIUtil
begin

text \<open>
  The form view \<open>ui/UIBean.js\<close>: beans (plain objects) bound under names, with a state per
  name (edit mode, selection, the copy to restore, the errors found), and the handlers of the
  form's events. The beans live in a store and are referred to by address, since a bean is
  shared between the caller, the view's states and, for array forms, the caller's array.

  The configuration a view is given is a parameter (\<open>form_config\<close>); the functions it holds
  are values of function type. What the template writes to the page is modelled as far as
  it changes the beans or decides what is shown (\<open>render\<close>, \<open>shown_blocks\<close>).
\<close>

section \<open>Configuration\<close>

record option_item =
  opt_label :: string
  opt_value :: jsval

type_synonym obj = "(string \<times> jsval) list"

text \<open>
  \<open>fc_options\<close> is \<open>select.getOptions\<close>, called without arguments (\<open>None\<close>) or with the bean.
\<close>

record field_config =
  fc_field :: string
  fc_required :: bool
  fc_multiple :: "bool option"
  fc_default :: jsval
  fc_options :: "(obj option \<Rightarrow> option_item list option) option"
  fc_validator :: "validator_config option"

definition plain_field :: "string \<Rightarrow> field_config" where
  "plain_field name =
     \<lparr>fc_field = name, fc_required = False, fc_multiple = None, fc_default = JUndef,
      fc_options = None, fc_validator = None\<rparr>"

record form_config =
  cf_type :: "string option"
  cf_beans :: "(string \<times> field_config list) list"

section \<open>State\<close>

text \<open>A message stored in \<open>fieldErrors\<close> is the string that was thrown.\<close>

record bean_state =
  bs_bean :: nat
  editMode :: bool
  select :: bool
  readOnly :: bool
  origin :: "obj option"
  fieldErrors :: "(string \<times> js_error) list option"

definition new_state :: "nat \<Rightarrow> bool \<Rightarrow> bool \<Rightarrow> bean_state" where
  "new_state a edit sel =
     \<lparr>bs_bean = a, editMode = edit, select = sel, readOnly = False, origin = None, fieldErrors = None\<rparr>"

record ui_bean =
  beanStates :: "(string \<times> bean_state) list"
  beanArray :: "nat list option"
  beanName :: string
  heap :: "nat \<Rightarrow> obj"
  fresh :: nat

definition obj_upd :: "string \<Rightarrow> ('v \<Rightarrow> 'v) \<Rightarrow> (string \<times> 'v) list \<Rightarrow> (string \<times> 'v) list" where
  "obj_upd k f m = map (\<lambda>(k', v). (k', if k' = k then f v else v)) m"

definition get_state :: "string \<Rightarrow> (ui_bean, bean_state) prog" where
  "get_state name s =
     (case map_of (beanStates s) name of
        None \<Rightarrow> (Inl (TypeError name), s) | Some b \<Rightarrow> (Inr b, s))"

definition set_state :: "string \<Rightarrow> (bean_state \<Rightarrow> bean_state) \<Rightarrow> (ui_bean, unit) prog" where
  "set_state name f = update (\<lambda>s. s\<lparr>beanStates := obj_upd name f (beanStates s)\<rparr>)"

definition set_bean :: "nat \<Rightarrow> obj \<Rightarrow> (ui_bean, unit) prog" where
  "set_bean a b = update (\<lambda>s. s\<lparr>heap := (heap s)(a := b)\<rparr>)"

definition alloc :: "(ui_bean, nat) prog" where
  "alloc s = (Inr (fresh s), s\<lparr>heap := (heap s)(fresh s := []), fresh := Suc (fresh s)\<rparr>)"

section \<open>Names and configurations\<close>

definition before_last :: "char \<Rightarrow> string \<Rightarrow> string" where
  "before_last c s = rev (drop 1 (dropWhile (\<lambda>d. d \<noteq> c) (rev s)))"

definition after_last :: "char \<Rightarrow> string \<Rightarrow> string" where
  "after_last c s = rev (takeWhile (\<lambda>d. d \<noteq> c) (rev s))"

definition indexed_name :: "string \<Rightarrow> nat \<Rightarrow> string" where
  "indexed_name name i = name @ ''_'' @ show_nat i"

definition getBeanConfig :: "form_config \<Rightarrow> string \<Rightarrow> field_config list option" where
  "getBeanConfig cfg name =
     (if cf_type cfg = Some ''array'' then map_of (cf_beans cfg) (before_last CHR ''_'' name)
      else map_of (cf_beans cfg) name)"

definition get_config :: "form_config \<Rightarrow> string \<Rightarrow> (ui_bean, field_config list) prog" where
  "get_config cfg name =
     (case getBeanConfig cfg name of None \<Rightarrow> throw (TypeError ''fields'') | Some fs \<Rightarrow> ret fs)"

definition getBeanFieldConfig :: "field_config list \<Rightarrow> string \<Rightarrow> field_config option" where
  "getBeanFieldConfig fs name = find (\<lambda>f. fc_field f = name) fs"

section \<open>Binding\<close>

definition default_field :: "obj \<Rightarrow> field_config \<Rightarrow> obj" where
  "default_field b f =
     (if nullish (get_prop b (fc_field f)) \<and> \<not> nullish (fc_default f)
      then obj_put (fc_field f) (fc_default f) b
      else if nullish (get_prop b (fc_field f)) then
        (case fc_options f of
           None \<Rightarrow> b
         | Some opts \<Rightarrow> (case opts None of Some (o1 # _) \<Rightarrow> obj_put (fc_field f) (opt_value o1) b | _ \<Rightarrow> b))
      else b)"

definition setDefaultFieldValue :: "field_config list \<Rightarrow> nat \<Rightarrow> (ui_bean, unit) prog" where
  "setDefaultFieldValue fs a = seq (reads (\<lambda>s. heap s a)) (\<lambda>b. set_bean a (foldl default_field b fs))"

definition bind_bean :: "form_config \<Rightarrow> string \<Rightarrow> nat \<Rightarrow> bool \<Rightarrow> (ui_bean, unit) prog" where
  "bind_bean cfg name a setDefault =
     andthen (whenever setDefault (seq (get_config cfg name) (\<lambda>fs. setDefaultFieldValue fs a)))
       (update (\<lambda>s. s\<lparr>beanStates := obj_put name (new_state a False (beanStates s = [])) (beanStates s)\<rparr>))"

text \<open>
  All states are deselected; then the named one is selected, or the first one when there is
  no state of that name.
\<close>

definition toggleBean :: "string \<Rightarrow> (ui_bean, unit) prog" where
  "toggleBean name =
     andthen (update (\<lambda>s. s\<lparr>beanStates := map (\<lambda>(k, b). (k, b\<lparr>select := False\<rparr>)) (beanStates s)\<rparr>))
       (seq (reads beanStates) (\<lambda>m.
          if map_of m name \<noteq> None then set_state name (\<lambda>b. b\<lparr>select := True\<rparr>)
          else case m of
            [] \<Rightarrow> throw (TypeError ''select'')
          | (first, _) # _ \<Rightarrow> set_state first (\<lambda>b. b\<lparr>select := True\<rparr>)))"

definition bind_array :: "form_config \<Rightarrow> string \<Rightarrow> nat list \<Rightarrow> (ui_bean, unit) prog" where
  "bind_array cfg name array =
     (if cf_type cfg \<noteq> Some ''array'' then throw (ErrorObject ''Expect config type is array'')
      else
        seq (if array = [] then seq alloc (\<lambda>a. ret [a]) else ret array) (\<lambda>array.
        andthen (update (\<lambda>s. s\<lparr>beanArray := Some array, beanName := name\<rparr>))
        (andthen
           (for_each [0..<length array] (\<lambda>i.
              update (\<lambda>s. s\<lparr>beanStates :=
                obj_put (indexed_name name i) (new_state (array ! i) False False) (beanStates s)\<rparr>)))
           (toggleBean (indexed_name name (length array))))))"

definition setReadOnly :: "bool \<Rightarrow> (ui_bean, unit) prog" where
  "setReadOnly r =
     update (\<lambda>s. s\<lparr>beanStates := map (\<lambda>(k, b). (k, b\<lparr>readOnly := r\<rparr>)) (beanStates s)\<rparr>)"

definition getBean :: "string \<Rightarrow> (ui_bean, nat) prog" where
  "getBean name = seq (get_state name) (\<lambda>b. ret (bs_bean b))"

section \<open>Rendering\<close>

text \<open>
  The template draws one block per state, the editable form in edit mode, and shows only the
  blocks of the selected states. Drawing the editable form of a repeated field without a
  value gives that field one empty entry.
\<close>

definition fill_repeated :: "obj \<Rightarrow> field_config \<Rightarrow> obj" where
  "fill_repeated b f =
     (if fc_options f = None \<and> fc_multiple f \<noteq> None \<and> nullish (get_prop b (fc_field f))
      then obj_put (fc_field f) (JArr [JStr []]) b else b)"

text \<open>
  The fields are drawn in order; a selection whose options are \<open>null\<close> raises, and what was filled
  before stays.
\<close>

definition drawable :: "obj \<Rightarrow> field_config \<Rightarrow> bool" where
  "drawable b f = (case fc_options f of None \<Rightarrow> True | Some opts \<Rightarrow> opts (Some b) \<noteq> None)"

fun draw_fields :: "obj \<Rightarrow> field_config list \<Rightarrow> obj \<times> bool" where
  "draw_fields b [] = (b, True)"
| "draw_fields b (f # fs) = (if drawable b f then draw_fields (fill_repeated b f) fs else (b, False))"

definition render_block :: "form_config \<Rightarrow> string \<Rightarrow> (ui_bean, unit) prog" where
  "render_block cfg name =
     seq (get_config cfg name) (\<lambda>fs. seq (get_state name) (\<lambda>st.
       whenever (editMode st)
         (seq (reads (\<lambda>s. draw_fields (heap s (bs_bean st)) fs)) (\<lambda>(b, drawn).
            andthen (set_bean (bs_bean st) b) (whenever (\<not> drawn) (throw (TypeError ''length'')))))))"

text \<open>The selections of a form that always have options; such a form is drawn to its end.\<close>

definition offers_options :: "field_config \<Rightarrow> bool" where
  "offers_options f = (case fc_options f of None \<Rightarrow> True | Some opts \<Rightarrow> (\<forall>b. opts b \<noteq> None))"

lemma draw_fields_all: "list_all offers_options fs \<Longrightarrow> draw_fields b fs = (foldl fill_repeated b fs, True)"
  by (induction fs arbitrary: b) (auto simp: offers_options_def drawable_def split: option.splits)

lemma draw_fields_same: "list_all (\<lambda>f. fill_repeated b f = b) fs \<Longrightarrow> fst (draw_fields b fs) = b"
  by (induction fs) auto

definition render_tabs :: "form_config \<Rightarrow> (ui_bean, unit) prog" where
  "render_tabs cfg =
     (if cf_type cfg = None \<or> cf_type cfg = Some ''single'' then ret ()
      else seq (reads (\<lambda>s. obj_keys (beanStates s))) (\<lambda>names.
        for_each names (\<lambda>name. seq (get_config cfg name) (\<lambda>_. ret ()))))"

definition render :: "form_config \<Rightarrow> (ui_bean, unit) prog" where
  "render cfg =
     andthen (render_tabs cfg)
       (seq (reads (\<lambda>s. obj_keys (beanStates s))) (\<lambda>names. for_each names (render_block cfg)))"

definition shown_blocks :: "ui_bean \<Rightarrow> string list" where
  "shown_blocks s = map fst (filter (\<lambda>(k, b). select b) (beanStates s))"

section \<open>Handlers of the list of beans\<close>

definition onToggleBean :: "form_config \<Rightarrow> string \<Rightarrow> (ui_bean, unit) prog" where
  "onToggleBean cfg name =
     andthen (toggleBean name)
       (seq (get_state name) (\<lambda>_.
          andthen (set_state name (\<lambda>b. b\<lparr>select := True\<rparr>)) (render cfg)))"

definition get_array :: "(ui_bean, nat list) prog" where
  "get_array s = (case beanArray s of None \<Rightarrow> (Inl (TypeError ''beanArray''), s) | Some xs \<Rightarrow> (Inr xs, s))"

definition onAddBean :: "form_config \<Rightarrow> (ui_bean, unit) prog" where
  "onAddBean cfg =
     seq get_array (\<lambda>xs. seq alloc (\<lambda>a. seq (reads beanName) (\<lambda>n.
       let name = indexed_name n (length xs) in
       andthen (update (\<lambda>s. s\<lparr>beanArray := Some (xs @ [a]),
           beanStates := obj_put name (new_state a True False) (beanStates s)\<rparr>))
         (andthen (toggleBean name) (render cfg)))))"

text \<open>The states that are left are renumbered from 0; the caller's array is refilled in step.\<close>

definition renumber :: "string \<Rightarrow> bean_state list \<Rightarrow> (string \<times> bean_state) list" where
  "renumber n bs = map (\<lambda>(i, b). (indexed_name n i, b)) (enumerate 0 bs)"

definition onDeleteBean :: "form_config \<Rightarrow> string \<Rightarrow> (ui_bean, unit) prog" where
  "onDeleteBean cfg name =
     seq get_array (\<lambda>_. seq (reads beanName) (\<lambda>n. seq (reads beanStates) (\<lambda>m.
       let left = map snd (filter (\<lambda>(k, b). k \<noteq> name) m) in
       andthen
         (if left = [] then
            seq alloc (\<lambda>a. update (\<lambda>s. s\<lparr>beanArray := Some [a], beanStates := renumber n [new_state a True False]\<rparr>))
          else update (\<lambda>s. s\<lparr>beanArray := Some (map bs_bean left), beanStates := renumber n left\<rparr>))
         (andthen (toggleBean ''null'') (render cfg)))))"

section \<open>Editing\<close>

text \<open>
  \<open>$.extend(true, {}, v)\<close>: properties that are \<open>undefined\<close> are not copied.
\<close>

fun deep_copy :: "jsval \<Rightarrow> jsval" where
  "deep_copy (JArr vs) = JArr (rev (dropWhile (\<lambda>v. v = JUndef) (rev (map deep_copy vs))))"
| "deep_copy (JObj m) = JObj (filter (\<lambda>(k, v). v \<noteq> JUndef) (map (\<lambda>(k, v). (k, deep_copy v)) m))"
| "deep_copy v = v"

definition copy_obj :: "obj \<Rightarrow> obj" where
  "copy_obj m = filter (\<lambda>(k, v). v \<noteq> JUndef) (map (\<lambda>(k, v). (k, deep_copy v)) m)"

text \<open>\<open>v == s\<close> for a string \<open>s\<close>.\<close>

definition equals_string :: "(jsnum \<Rightarrow> string) \<Rightarrow> jsval \<Rightarrow> string \<Rightarrow> bool" where
  "equals_string num_text v s =
     (case v of
        JUndef \<Rightarrow> False
      | JNull \<Rightarrow> False
      | JBool b \<Rightarrow> js_str_to_num s = Fin (if b then 1 else 0)
      | JNum n \<Rightarrow> n \<noteq> NaN \<and> js_str_to_num s = n
      | JStr t \<Rightarrow> t = s
      | _ \<Rightarrow> js_text num_text v = s)"

text \<open>The leading integer of a string, as \<open>parseInt\<close> reads it; \<open>None\<close> is NaN.\<close>

definition parse_int_prefix :: "string \<Rightarrow> int option" where
  "parse_int_prefix s0 =
     (let s = dropWhile is_space s0;
          neg = is_minus s;
          t = (case s of c # r \<Rightarrow> if c = CHR ''-'' \<or> c = CHR ''+'' then r else s | [] \<Rightarrow> []);
          ds = takeWhile is_digit t
      in if ds = [] then None else Some (if neg then - int (dec_val ds) else int (dec_val ds)))"

text \<open>
  \<open>v[i]\<close> and \<open>v[i] = w\<close> of a field value that is not \<open>null\<close>: an array index past the end
  extends the array, an index that is not one sets a property no other code reads, and
  writing into a string, a number or a boolean has no effect.
\<close>

definition index_get :: "jsval \<Rightarrow> int option \<Rightarrow> jsval" where
  "index_get v i =
     (case (v, i) of
        (JArr vs, Some k) \<Rightarrow> (case js_index vs k of Some w \<Rightarrow> w | None \<Rightarrow> JUndef)
      | (JStr s, Some k) \<Rightarrow> (case js_index s k of Some c \<Rightarrow> JStr [c] | None \<Rightarrow> JUndef)
      | (JObj m, Some k) \<Rightarrow> get_prop m (show_int k)
      | (JObj m, None) \<Rightarrow> get_prop m ''NaN''
      | _ \<Rightarrow> JUndef)"

definition index_set :: "jsval \<Rightarrow> int option \<Rightarrow> jsval \<Rightarrow> jsval" where
  "index_set v i w =
     (case (v, i) of
        (JArr vs, Some k) \<Rightarrow>
          if k < 0 then v
          else if nat k < length vs then JArr (vs[nat k := w])
          else JArr (vs @ replicate (nat k - length vs) JUndef @ [w])
      | (JObj m, Some k) \<Rightarrow> JObj (obj_put (show_int k) w m)
      | (JObj m, None) \<Rightarrow> JObj (obj_put ''NaN'' w m)
      | _ \<Rightarrow> v)"

definition onEditMode :: "form_config \<Rightarrow> string \<Rightarrow> (ui_bean, unit) prog" where
  "onEditMode cfg name =
     seq (get_state name) (\<lambda>_. andthen (set_state name (\<lambda>b. b\<lparr>editMode := True\<rparr>)) (render cfg))"

text \<open>The name of an input is the field's, followed by \<open>@\<close> and an index in a repeated field.\<close>

definition split_input_name :: "string \<Rightarrow> string \<times> int option" where
  "split_input_name n =
     (if CHR ''@'' \<in> set (drop 1 n)
      then (before_last CHR ''@'' n, parse_int_prefix (after_last CHR ''@'' n))
      else (n, Some (-1)))"

definition keep_origin :: "string \<Rightarrow> obj \<Rightarrow> (ui_bean, unit) prog" where
  "keep_origin name b =
     set_state name (\<lambda>st. if origin st = None then st\<lparr>origin := Some (copy_obj b)\<rparr> else st)"

definition onChangeInput ::
  "(jsnum \<Rightarrow> string) \<Rightarrow> form_config \<Rightarrow> string \<Rightarrow> string \<Rightarrow> string \<Rightarrow> (ui_bean, unit) prog" where
  "onChangeInput num_text cfg name input val =
     seq (get_state name) (\<lambda>st. seq (get_config cfg name) (\<lambda>fs.
     seq (reads (\<lambda>s. heap s (bs_bean st))) (\<lambda>b.
       let (fieldName, idx) = split_input_name input in
       case getBeanFieldConfig fs fieldName of
         None \<Rightarrow> throw (TypeError ''multiple'')
       | Some field \<Rightarrow>
           let v = get_prop b fieldName in
           if fc_multiple field = Some True then
             if nullish v then throw (TypeError fieldName)
             else andthen (whenever (\<not> equals_string num_text (index_get v idx) val) (keep_origin name b))
                    (set_bean (bs_bean st) (obj_put fieldName (index_set v idx (JStr val)) b))
           else andthen (whenever (\<not> equals_string num_text v val) (keep_origin name b))
                  (set_bean (bs_bean st) (obj_put fieldName (JStr val) b)))))"

definition onAddInput :: "string \<Rightarrow> string \<Rightarrow> (ui_bean, unit) prog" where
  "onAddInput name fieldName =
     seq (get_state name) (\<lambda>st. seq (reads (\<lambda>s. heap s (bs_bean st))) (\<lambda>b.
       andthen (keep_origin name b)
         (case get_prop b fieldName of
            JArr vs \<Rightarrow> set_bean (bs_bean st) (obj_put fieldName (JArr (vs @ [JStr []])) b)
          | _ \<Rightarrow> throw (TypeError ''push''))))"

definition restoreBeanState :: "form_config \<Rightarrow> string \<Rightarrow> (ui_bean, unit) prog" where
  "restoreBeanState cfg name =
     seq (get_state name) (\<lambda>st.
       andthen (case origin st of None \<Rightarrow> ret () | Some b \<Rightarrow> set_bean (bs_bean st) (copy_obj b))
         (render cfg))"

section \<open>Validation\<close>

text \<open>
  \<open>_.isEmpty\<close>: a number or a boolean has no enumerable property, so it counts as empty.
\<close>

fun is_empty :: "jsval \<Rightarrow> bool" where
  "is_empty (JArr vs) = (vs = [])"
| "is_empty (JStr s) = (s = [])"
| "is_empty (JObj m) = (m = [])"
| "is_empty _ = True"

fun validate_items :: "(jsval \<Rightarrow> jsval result) \<Rightarrow> jsval list \<Rightarrow> jsval list \<times> js_error option" where
  "validate_items f [] = ([], None)"
| "validate_items f (v # vs) =
     (case f v of
        Inl e \<Rightarrow> (v # vs, Some e)
      | Inr w \<Rightarrow> (case validate_items f vs of (ws, e) \<Rightarrow> (w # ws, e)))"

text \<open>One field: the bean with the validated value stored, and the error found, if any.\<close>

definition validate_field ::
  "(jsnum \<Rightarrow> string) \<Rightarrow> field_config \<Rightarrow> obj \<Rightarrow> (obj \<times> js_error option) result" where
  "validate_field num_text f b =
     (let v = get_prop b (fc_field f) in
      if fc_required f \<and> is_empty v
      then Inr (b, Some (ThrownString ''This field cannot be empty''))
      else case fc_validator f of
        None \<Rightarrow> Inr (b, None)
      | Some vc \<Rightarrow>
          (case lookup_validator num_text (v_name vc) of
             None \<Rightarrow> Inl (ErrorObject ''Unknown validator [object Object]'')
           | Some check \<Rightarrow>
               (case v of
                  JArr vs \<Rightarrow> (case validate_items (check vc) vs of
                      (ws, e) \<Rightarrow> Inr (obj_put (fc_field f) (JArr ws) b, e))
                | _ \<Rightarrow> (case check vc v of
                      Inl e \<Rightarrow> Inr (b, Some e)
                    | Inr w \<Rightarrow> Inr (obj_put (fc_field f) w b, None)))))"

fun validate_fields ::
  "(jsnum \<Rightarrow> string) \<Rightarrow> string \<Rightarrow> nat \<Rightarrow> field_config list \<Rightarrow> (ui_bean, bool) prog" where
  "validate_fields num_text name a [] = ret False"
| "validate_fields num_text name a (f # fs) =
     seq (reads (\<lambda>s. heap s a)) (\<lambda>b. seq (lift_result (validate_field num_text f b)) (\<lambda>(b', err).
       andthen (set_bean a b')
       (andthen
          (case err of None \<Rightarrow> ret () | Some e \<Rightarrow>
             set_state name (\<lambda>st. st\<lparr>fieldErrors :=
               map_option (obj_put (fc_field f) e) (fieldErrors st)\<rparr>))
          (seq (validate_fields num_text name a fs) (\<lambda>more. ret (err \<noteq> None \<or> more))))))"

definition validateBeanState ::
  "(jsnum \<Rightarrow> string) \<Rightarrow> field_config list \<Rightarrow> string \<Rightarrow> (ui_bean, bool) prog" where
  "validateBeanState num_text fs name =
     seq (get_state name) (\<lambda>st.
     andthen (set_state name (\<lambda>st. st\<lparr>fieldErrors := Some []\<rparr>))
       (seq (validate_fields num_text name (bs_bean st) fs) (\<lambda>hasError. ret (\<not> hasError))))"

fun validate_states ::
  "(jsnum \<Rightarrow> string) \<Rightarrow> form_config \<Rightarrow> string list \<Rightarrow> (ui_bean, bool) prog" where
  "validate_states num_text cfg [] = ret False"
| "validate_states num_text cfg (name # names) =
     seq (get_config cfg name) (\<lambda>fs. seq (validateBeanState num_text fs name) (\<lambda>ok.
       seq (validate_states num_text cfg names) (\<lambda>error. ret (\<not> ok \<or> error))))"

definition validate :: "(jsnum \<Rightarrow> string) \<Rightarrow> form_config \<Rightarrow> (ui_bean, bool) prog" where
  "validate num_text cfg =
     seq (reads (\<lambda>s. obj_keys (beanStates s))) (\<lambda>names.
       seq (validate_states num_text cfg names) (\<lambda>error. ret (\<not> error)))"

text \<open>
  Leaving the edit mode: the entries of repeated fields are trimmed and dropped when they
  compare equal to the empty string (an entry \<open>null\<close> raises), the bean is validated, and the
  form stays in edit mode if an error was found.
\<close>

fun trim_items :: "jsval list \<Rightarrow> jsval list result" where
  "trim_items [] = Inr []"
| "trim_items (v # vs) =
     (if nullish v then Inl (TypeError ''trim'')
      else let w = (case v of JStr s \<Rightarrow> JStr (trim s) | _ \<Rightarrow> v) in
        (case trim_items vs of
           Inl e \<Rightarrow> Inl e
         | Inr ws \<Rightarrow> Inr (if equals_empty_string w then ws else w # ws)))"

definition trim_field :: "nat \<Rightarrow> field_config \<Rightarrow> (ui_bean, unit) prog" where
  "trim_field a f =
     seq (reads (\<lambda>s. heap s a)) (\<lambda>b. case get_prop b (fc_field f) of
         JArr vs \<Rightarrow> seq (lift_result (trim_items vs)) (\<lambda>ws. set_bean a (obj_put (fc_field f) (JArr ws) b))
       | _ \<Rightarrow> ret ())"

definition onViewMode :: "(jsnum \<Rightarrow> string) \<Rightarrow> form_config \<Rightarrow> string \<Rightarrow> (ui_bean, unit) prog" where
  "onViewMode num_text cfg name =
     seq (get_state name) (\<lambda>st. seq (get_config cfg name) (\<lambda>fs.
       andthen (for_each fs (trim_field (bs_bean st)))
         (seq (validateBeanState num_text fs name) (\<lambda>ok.
            andthen (whenever ok (set_state name (\<lambda>b. b\<lparr>editMode := False\<rparr>))) (render cfg)))))"

text \<open>
  The buttons of a form: the first edit action of the name is run, all view actions of the
  name are (the results are the handlers to run, in order).
\<close>

definition onEditAction :: "(string \<times> 'h) list \<Rightarrow> string \<Rightarrow> 'h list" where
  "onEditAction actions name = (case find (\<lambda>(n, h). n = name) actions of None \<Rightarrow> [] | Some (_, h) \<Rightarrow> [h])"

definition onViewAction :: "(string \<times> 'h) list \<Rightarrow> string \<Rightarrow> 'h list" where
  "onViewAction actions name = map snd (filter (\<lambda>(n, h). n = name) actions)"

end
