(* ===== verification/UIBeanFacts.thy ===== *)
theory UIBeanFacts
  imports UIBean
begin

text \<open>
  Facts about the form view: which of its observations each handler leaves alone, the
  invariant of the selection, the correspondence between the states and the array of an array
  form, what restoring and validating guarantee, and the properties that follow.
\<close>

section \<open>Observations\<close>

definition selection :: "ui_bean \<Rightarrow> (string \<times> bool) list" where
  "selection s = map (\<lambda>(k, b). (k, select b)) (beanStates s)"

definition bindings :: "ui_bean \<Rightarrow> (string \<times> nat) list \<times> nat list option \<times> string" where
  "bindings s = (map (\<lambda>(k, b). (k, bs_bean b)) (beanStates s), beanArray s, beanName s)"

text \<open>Updates of a state that touch neither the selection nor the bean it is bound to.\<close>

definition inner :: "(bean_state \<Rightarrow> bean_state) \<Rightarrow> bool" where
  "inner f \<longleftrightarrow> (\<forall>b. select (f b) = select b \<and> bs_bean (f b) = bs_bean b)"

definition both :: "ui_bean \<Rightarrow> (string \<times> bool) list \<times> (string \<times> nat) list \<times> nat list option \<times> string" where
  "both s = (selection s, bindings s)"

lemma obj_upd_map:
  "(\<And>b. g (f b) = g b) \<Longrightarrow>
   map (\<lambda>(k, b). (k, g b)) (obj_upd n f m) = map (\<lambda>(k, b). (k, g b)) m"
  by (induction m) (auto simp: obj_upd_def)

lemma map_of_obj_upd:
  "map_of (obj_upd n f m) k = (if k = n then map_option f (map_of m k) else map_of m k)"
  by (induction m) (auto simp: obj_upd_def)

lemma obj_keys_obj_upd [simp]: "obj_keys (obj_upd n f m) = obj_keys m"
  by (auto simp: obj_upd_def obj_keys_def)

lemma obj_upd_id: "n \<notin> set (obj_keys m) \<Longrightarrow> obj_upd n f m = m"
  by (induction m) (auto simp: obj_upd_def obj_keys_def)

lemma leaves_jsval [frame_rules]:
  assumes "leaves v m1" "leaves v m2" "\<And>b. leaves v (m3 b)" "\<And>n. leaves v (m4 n)"
    "\<And>t. leaves v (m5 t)" "\<And>vs. leaves v (m6 vs)" "\<And>m. leaves v (m7 m)"
  shows "leaves v (case x of JUndef \<Rightarrow> m1 | JNull \<Rightarrow> m2 | JBool b \<Rightarrow> m3 b | JNum n \<Rightarrow> m4 n
     | JStr t \<Rightarrow> m5 t | JArr vs \<Rightarrow> m6 vs | JObj m \<Rightarrow> m7 m)"
  using assms by (cases x) auto

lemma leaves_set_state: "inner f \<Longrightarrow> leaves both (set_state name f)"
  unfolding set_state_def
  by (rule leaves_update)
     (simp add: both_def selection_def bindings_def inner_def obj_upd_map)

lemma leaves_get_state [frame_rules]: "leaves v (get_state name)"
  by (simp add: leaves_def get_state_def split: option.splits)

lemma leaves_get_array [frame_rules]: "leaves v get_array"
  by (simp add: leaves_def get_array_def split: option.splits)

lemma leaves_get_config [frame_rules]: "leaves v (get_config cfg name)"
  by (simp add: get_config_def leaves_ret leaves_throw split: option.splits)

lemma leaves_set_bean [frame_rules]: "leaves both (set_bean a b)"
  unfolding set_bean_def
  by (rule leaves_update) (simp add: both_def selection_def bindings_def)

lemma leaves_inner [frame_rules]:
  "leaves both (set_state name (\<lambda>b. b\<lparr>editMode := e\<rparr>))"
  "leaves both (set_state name (\<lambda>b. b\<lparr>fieldErrors := fe\<rparr>))"
  "leaves both (set_state name (\<lambda>b. b\<lparr>fieldErrors := h (fieldErrors b)\<rparr>))"
  by (intro leaves_set_state, simp add: inner_def)+

lemma leaves_keep_origin [frame_rules]: "leaves both (keep_origin name b)"
  unfolding keep_origin_def by (intro leaves_set_state) (simp add: inner_def)

lemma leaves_render [frame_rules]: "leaves both (render cfg)"
  unfolding render_def render_tabs_def render_block_def
  by (intro frame_rules)

lemma leaves_validate_fields [frame_rules]: "leaves both (validate_fields nt name a fs)"
  by (induction fs) (auto intro!: frame_rules)

lemma leaves_validateBeanState [frame_rules]: "leaves both (validateBeanState nt fs name)"
  unfolding validateBeanState_def by (intro frame_rules)

lemma leaves_validate_states [frame_rules]: "leaves both (validate_states nt cfg names)"
  by (induction names) (auto intro!: frame_rules)

lemma leaves_validate [frame_rules]: "leaves both (validate nt cfg)"
  unfolding validate_def by (intro frame_rules)

lemma leaves_trim_field [frame_rules]: "leaves both (trim_field a f)"
  unfolding trim_field_def by (intro frame_rules)

lemma leaves_onViewMode [frame_rules]: "leaves both (onViewMode nt cfg name)"
  unfolding onViewMode_def by (intro frame_rules)

lemma leaves_onEditMode [frame_rules]: "leaves both (onEditMode cfg name)"
  unfolding onEditMode_def by (intro frame_rules)

lemma leaves_restore [frame_rules]: "leaves both (restoreBeanState cfg name)"
  unfolding restoreBeanState_def by (intro frame_rules)

lemma leaves_onChangeInput [frame_rules]: "leaves both (onChangeInput nt cfg name input val)"
  unfolding onChangeInput_def Let_def by (intro frame_rules)

lemma leaves_onAddInput [frame_rules]: "leaves both (onAddInput name field)"
  unfolding onAddInput_def by (intro frame_rules)

lemma leaves_setReadOnly [frame_rules]: "leaves both (setReadOnly r)"
  unfolding setReadOnly_def
  by (rule leaves_update) (auto simp: both_def selection_def bindings_def)

section \<open>The selection\<close>

definition one_selected :: "ui_bean \<Rightarrow> bool" where
  "one_selected s \<longleftrightarrow> distinct (obj_keys (beanStates s)) \<and> length (shown_blocks s) = 1"

lemma shown_selection: "shown_blocks s = map fst (filter snd (selection s))"
  by (simp add: shown_blocks_def selection_def filter_map o_def split_def)

lemma keys_selection: "obj_keys (beanStates s) = map fst (selection s)"
  by (simp add: obj_keys_def selection_def case_prod_beta)

lemma one_selected_both: "both s' = both s \<Longrightarrow> one_selected s' = one_selected s"
  by (simp add: one_selected_def shown_selection keys_selection both_def)

lemma leaves_one_selected: "leaves both m \<Longrightarrow> one_selected s \<Longrightarrow> one_selected (snd (m s))"
  using one_selected_both [of "snd (m s)" s] by (simp add: leavesD)

text \<open>What \<open>toggleBean\<close> makes of the states.\<close>

definition toggled :: "string \<Rightarrow> (string \<times> bean_state) list \<Rightarrow> (string \<times> bean_state) list" where
  "toggled name m =
     obj_upd (if map_of m name \<noteq> None then name else fst (hd m)) (\<lambda>b. b\<lparr>select := True\<rparr>)
       (map (\<lambda>(k, b). (k, b\<lparr>select := False\<rparr>)) m)"

lemma map_of_unselected:
  "map_of (map (\<lambda>(k, b). (k, b\<lparr>select := False\<rparr>)) m) name = None \<longleftrightarrow> map_of m name = None"
  by (induction m) auto

lemma toggleBean_run:
  assumes "beanStates s \<noteq> []"
  shows "toggleBean name s = (Inr (), s\<lparr>beanStates := toggled name (beanStates s)\<rparr>)"
proof -
  let ?m = "map (\<lambda>(k, b). (k, b\<lparr>select := False\<rparr>)) (beanStates s)"
  obtain k b l where m: "beanStates s = (k, b) # l" using assms by (cases "beanStates s") auto
  then have hd: "?m = (k, b\<lparr>select := False\<rparr>) # map (\<lambda>(k, b). (k, b\<lparr>select := False\<rparr>)) l" by simp
  show ?thesis
  proof (cases "map_of (beanStates s) name")
    case None
    then have "map_of ?m name = None" by (simp only: map_of_unselected)
    with None hd m show ?thesis
      by (simp add: toggleBean_def toggled_def prog_defs set_state_def)
  next
    case (Some c)
    then have "map_of ?m name \<noteq> None" by (simp only: map_of_unselected) simp
    with Some show ?thesis
      by (simp add: toggleBean_def toggled_def prog_defs set_state_def)
  qed
qed

lemma shown_toggled:
  assumes "distinct (obj_keys m)" "m \<noteq> []"
  shows "map fst (filter (\<lambda>(k, b). select b) (toggled name m))
         = [if map_of m name \<noteq> None then name else fst (hd m)]"
proof -
  define t where "t = (if map_of m name \<noteq> None then name else fst (hd m))"
  have "t \<in> set (obj_keys m)"
    using assms(2) map_of_None_keys [of m name]
    by (cases "map_of m name"; cases m) (auto simp: t_def obj_keys_def)
  moreover have "t \<in> set (obj_keys l) \<Longrightarrow> distinct (obj_keys l) \<Longrightarrow>
      map fst (filter (\<lambda>(k, b). select b)
        (obj_upd t (\<lambda>b. b\<lparr>select := True\<rparr>) (map (\<lambda>(k, b). (k, b\<lparr>select := False\<rparr>)) l))) = [t]"
    for l
  proof (induction l)
    case Nil
    then show ?case by (simp add: obj_keys_def)
  next
    case (Cons x l)
    obtain k b where x: "x = (k, b)" by (cases x)
    have none: "t \<notin> set (obj_keys l) \<Longrightarrow>
        filter (\<lambda>(k, b). select b)
          (obj_upd t (\<lambda>b. b\<lparr>select := True\<rparr>) (map (\<lambda>(k, b). (k, b\<lparr>select := False\<rparr>)) l)) = []"
      by (force simp: obj_upd_def obj_keys_def filter_empty_conv split: if_splits)
    show ?case
      using Cons none by (auto simp: x obj_upd_def obj_keys_def)
  qed
  ultimately show ?thesis using assms(1) unfolding toggled_def t_def [symmetric] by blast
qed

lemma obj_keys_toggled [simp]: "obj_keys (toggled name m) = obj_keys m"
  by (simp add: toggled_def) (simp add: obj_keys_def case_prod_beta)

lemma one_selected_toggle:
  assumes "distinct (obj_keys (beanStates s))" "beanStates s \<noteq> []"
  shows "one_selected (snd (toggleBean name s))"
  using assms shown_toggled [of "beanStates s" name]
  by (simp add: toggleBean_run one_selected_def shown_blocks_def)

lemma one_selected_nonempty: "one_selected s \<Longrightarrow> beanStates s \<noteq> []"
  by (auto simp: one_selected_def shown_blocks_def)

lemma andthen_snd:
  "snd (andthen m n s) = (case m s of (Inl _, s') \<Rightarrow> s' | (Inr _, s') \<Rightarrow> snd (n s'))"
  by (auto simp: andthen_def seq_def split: prod.splits sum.splits)

lemma one_selected_onToggleBean:
  assumes "one_selected s"
  shows "one_selected (snd (onToggleBean cfg name s))"
proof -
  have m: "distinct (obj_keys (beanStates s))" "beanStates s \<noteq> []"
    using assms one_selected_nonempty by (auto simp: one_selected_def)
  let ?s = "s\<lparr>beanStates := toggled name (beanStates s)\<rparr>"
  have sel: "one_selected ?s"
    using one_selected_toggle [OF m, of name] m by (simp add: toggleBean_run)
  show ?thesis
  proof (cases "map_of (beanStates s) name")
    case None
    then have "map_of (toggled name (beanStates s)) name = None"
      by (metis map_of_None_keys obj_keys_toggled)
    with sel m show ?thesis
      by (simp add: onToggleBean_def andthen_snd toggleBean_run get_state_def seq_def)
  next
    case (Some b)
    then have again: "obj_upd name (\<lambda>b. b\<lparr>select := True\<rparr>) (toggled name (beanStates s)) = toggled name (beanStates s)"
      by (auto simp: toggled_def obj_upd_def)
    obtain b' where "map_of (toggled name (beanStates s)) name = Some b'"
      using Some by (metis map_of_None_keys obj_keys_toggled not_None_eq)
    then have "snd (onToggleBean cfg name s) = snd (render cfg ?s)"
      using m again
      by (simp add: onToggleBean_def andthen_snd toggleBean_run get_state_def seq_def set_state_def update_def)
    with sel show ?thesis by (simp add: leaves_one_selected leaves_render)
  qed
qed

text \<open>The names of an array form.\<close>

lemma indexed_name_inject [simp]: "indexed_name n i = indexed_name n j \<longleftrightarrow> i = j"
  by (simp add: indexed_name_def)

lemma before_last_indexed [simp]: "before_last CHR ''_'' (indexed_name n i) = n"
proof -
  have "dropWhile (\<lambda>d. d \<noteq> CHR ''_'') (rev (show_nat i) @ CHR ''_'' # rev n) = CHR ''_'' # rev n"
    using show_nat_no_char [of "CHR ''_''" i] by (subst dropWhile_append2) auto
  then show ?thesis by (simp add: before_last_def indexed_name_def)
qed

lemma distinct_indexed: "distinct (map (indexed_name n) xs) = distinct xs"
  by (simp add: distinct_map inj_on_def)

lemma enumerate_keys: "map fst (enumerate 0 bs) = [0..<length bs]"
  by simp

lemma obj_keys_renumber: "obj_keys (renumber n bs) = map (indexed_name n) [0..<length bs]"
  unfolding obj_keys_def renumber_def
  by (rule nth_equalityI) (simp_all add: nth_enumerate_eq)

lemma renumber_states: "map snd (renumber n bs) = bs"
  unfolding renumber_def by (rule nth_equalityI) (simp_all add: nth_enumerate_eq)

lemma renumber_nonempty [simp]: "renumber n bs = [] \<longleftrightarrow> bs = []"
  by (metis renumber_states map_is_Nil_conv)

lemma beans_toggled: "map (\<lambda>(k, b). (k, bs_bean b)) (toggled name m) = map (\<lambda>(k, b). (k, bs_bean b)) m"
  by (simp add: toggled_def obj_upd_map) (simp add: case_prod_beta)

text \<open>Toggling and drawing, which end the handlers of the list of beans.\<close>

lemma toggle_render:
  fixes cfg :: form_config and name :: string and s :: ui_bean
  assumes "distinct (obj_keys (beanStates s))" "beanStates s \<noteq> []"
  defines "s' \<equiv> snd (andthen (toggleBean name) (render cfg) s)"
  shows "one_selected s'" and "bindings s' = bindings s"
proof -
  let ?s = "s\<lparr>beanStates := toggled name (beanStates s)\<rparr>"
  have s': "s' = snd (render cfg ?s)"
    using assms(2) by (simp add: s'_def andthen_snd toggleBean_run)
  have "one_selected ?s" using one_selected_toggle [OF assms(1,2), of name] assms(2)
    by (simp add: toggleBean_run)
  then show "one_selected s'" by (simp add: s' leaves_one_selected leaves_render)
  have "both s' = both ?s" by (simp add: s' leavesD [OF leaves_render])
  then show "bindings s' = bindings s" by (simp add: both_def bindings_def beans_toggled)
qed

lemma onAddBean_run:
  assumes "beanArray s = Some xs"
  defines "name \<equiv> indexed_name (beanName s) (length xs)"
  shows "snd (onAddBean cfg s) = snd (andthen (toggleBean name) (render cfg)
     (s\<lparr>heap := (heap s)(fresh s := []), fresh := Suc (fresh s), beanArray := Some (xs @ [fresh s]),
        beanStates := obj_put name (new_state (fresh s) True False) (beanStates s)\<rparr>))"
  using assms
  by (simp add: onAddBean_def get_array_def alloc_def seq_def reads_def andthen_def update_def Let_def)

lemma onDeleteBean_run:
  fixes cfg :: form_config and name :: string and s :: ui_bean
  assumes "beanArray s = Some xs"
  defines "left \<equiv> map snd (filter (\<lambda>(k, b). k \<noteq> name) (beanStates s))"
  shows "snd (onDeleteBean cfg name s) = snd (andthen (toggleBean ''null'') (render cfg)
     (if left = [] then s\<lparr>heap := (heap s)(fresh s := []), fresh := Suc (fresh s),
          beanArray := Some [fresh s], beanStates := renumber (beanName s) [new_state (fresh s) True False]\<rparr>
      else s\<lparr>beanArray := Some (map bs_bean left), beanStates := renumber (beanName s) left\<rparr>))"
  using assms
  by (simp add: onDeleteBean_def get_array_def alloc_def seq_def reads_def andthen_def update_def Let_def)

lemma onAddBean_no_array: "beanArray s = None \<Longrightarrow> snd (onAddBean cfg s) = s"
  and onDeleteBean_no_array: "beanArray s = None \<Longrightarrow> snd (onDeleteBean cfg name s) = s"
  by (simp_all add: onAddBean_def onDeleteBean_def get_array_def seq_def)

lemma obj_put_nonempty [simp]: "obj_put k v m \<noteq> []"
  by (cases "(k, v, m)" rule: obj_put.cases) (simp_all split: if_splits)

lemma distinct_obj_put: "distinct (obj_keys m) \<Longrightarrow> distinct (obj_keys (obj_put k v m))"
  by (simp add: obj_keys_put)

lemma one_selected_onAddBean: "one_selected s \<Longrightarrow> one_selected (snd (onAddBean cfg s))"
proof (cases "beanArray s")
  case (Some xs)
  assume "one_selected s"
  then show ?thesis unfolding onAddBean_run [OF Some]
    by (intro toggle_render) (simp_all add: one_selected_def distinct_obj_put)
qed (simp add: onAddBean_no_array)

lemma one_selected_onDeleteBean: "one_selected s \<Longrightarrow> one_selected (snd (onDeleteBean cfg name s))"
proof (cases "beanArray s")
  case (Some xs)
  show ?thesis unfolding onDeleteBean_run [OF Some]
    by (intro toggle_render) (auto simp: obj_keys_renumber distinct_indexed)
qed (simp add: onDeleteBean_no_array)

section \<open>Array forms\<close>

text \<open>
  The states of an array form are named after their positions, in order, and the bean of each
  is the entry of the array at that position.
\<close>

definition in_step :: "ui_bean \<Rightarrow> bool" where
  "in_step s \<longleftrightarrow>
     (\<exists>xs. beanArray s = Some xs \<and> xs \<noteq> [] \<and>
        map (\<lambda>(k, b). (k, bs_bean b)) (beanStates s) = zip (map (indexed_name (beanName s)) [0..<length xs]) xs)"

lemma in_step_bindings: "bindings s' = bindings s \<Longrightarrow> in_step s' = in_step s"
  by (simp add: in_step_def bindings_def)

lemma in_step_keys:
  assumes "in_step s" "beanArray s = Some xs"
  shows "obj_keys (beanStates s) = map (indexed_name (beanName s)) [0..<length xs]"
    and "map bs_bean (map snd (beanStates s)) = xs" and "beanStates s \<noteq> []"
proof -
  have z: "map (\<lambda>(k, b). (k, bs_bean b)) (beanStates s) = zip (map (indexed_name (beanName s)) [0..<length xs]) xs"
    and ne: "xs \<noteq> []" using assms by (auto simp: in_step_def)
  from arg_cong [OF z, of "map fst"] show "obj_keys (beanStates s) = map (indexed_name (beanName s)) [0..<length xs]"
    by (simp add: obj_keys_def o_def split_def)
  from arg_cong [OF z, of "map snd"] show "map bs_bean (map snd (beanStates s)) = xs"
    by (simp add: o_def split_def)
  then show "beanStates s \<noteq> []" using ne by auto
qed

lemma in_step_renumber:
  "bs \<noteq> [] \<Longrightarrow> xs = map bs_bean bs \<Longrightarrow> n = beanName s \<Longrightarrow>
   in_step (s\<lparr>beanArray := Some xs, beanStates := renumber n bs\<rparr>)"
  unfolding in_step_def
  by (rule exI [of _ xs])
     (auto simp: renumber_def intro!: nth_equalityI simp: nth_enumerate_eq)

lemma in_step_onAddBean:
  assumes "in_step s"
  shows "in_step (snd (onAddBean cfg s))"
    and "beanArray (snd (onAddBean cfg s)) = map_option (\<lambda>xs. xs @ [fresh s]) (beanArray s)"
proof -
  obtain xs where xs: "beanArray s = Some xs" using assms by (auto simp: in_step_def)
  let ?name = "indexed_name (beanName s) (length xs)"
  let ?s = "s\<lparr>heap := (heap s)(fresh s := []), fresh := Suc (fresh s), beanArray := Some (xs @ [fresh s]),
        beanStates := obj_put ?name (new_state (fresh s) True False) (beanStates s)\<rparr>"
  note keys = in_step_keys [OF assms xs]
  have new: "?name \<notin> set (obj_keys (beanStates s))" by (auto simp: keys(1))
  have dist: "distinct (obj_keys (beanStates ?s))"
    using keys(1) by (simp add: distinct_obj_put distinct_indexed)
  have same: "bindings (snd (onAddBean cfg s)) = bindings ?s"
    unfolding onAddBean_run [OF xs] by (intro toggle_render dist) simp
  have "map (\<lambda>(k, b). (k, bs_bean b)) (beanStates s) = zip (map (indexed_name (beanName s)) [0..<length xs]) xs"
    using assms xs by (simp add: in_step_def)
  then have "in_step ?s"
    by (simp add: in_step_def obj_put_fresh [OF new] new_state_def)
  then show "in_step (snd (onAddBean cfg s))" using in_step_bindings [OF same] by blast
  show "beanArray (snd (onAddBean cfg s)) = map_option (\<lambda>xs. xs @ [fresh s]) (beanArray s)"
    using same xs by (simp add: bindings_def)
qed

lemma filter_indexed:
  assumes "distinct ks" "length ks = length vs" "i < length ks"
  shows "map snd (filter (\<lambda>(k, v). k \<noteq> ks ! i) (zip ks vs)) = take i vs @ drop (Suc i) vs"
  using assms
proof (induction ks arbitrary: vs i)
  case (Cons k ks)
  then obtain v vs' where vs: "vs = v # vs'" by (cases vs) auto
  have all: "k \<notin> set ks \<Longrightarrow> length ks = length vs' \<Longrightarrow> map snd (filter (\<lambda>(k', v). k' \<noteq> k) (zip ks vs')) = vs'"
    by (subst filter_True) (auto dest: set_zip_leftD)
  show ?case using Cons all by (cases i) (auto simp: vs)
qed simp

lemma in_step_onDeleteBean:
  fixes cfg :: form_config and s :: ui_bean
  assumes "in_step s" "beanArray s = Some xs" "i < length xs"
  defines "s' \<equiv> snd (onDeleteBean cfg (indexed_name (beanName s) i) s)"
  shows "in_step s'"
    and "beanArray s' = Some (if length xs = 1 then [fresh s] else take i xs @ drop (Suc i) xs)"
proof -
  let ?n = "beanName s" and ?m = "beanStates s"
  note keys = in_step_keys [OF assms(1,2)]
  let ?left = "map snd (filter (\<lambda>(k, b). k \<noteq> indexed_name ?n i) ?m)"
  have len: "length ?m = length xs" using keys(2) by (metis length_map)
  have left: "?left = take i (map snd ?m) @ drop (Suc i) (map snd ?m)"
  proof -
    have nth: "indexed_name ?n i = obj_keys ?m ! i" using assms(3) by (simp add: keys(1))
    have "?left = map snd (filter (\<lambda>(k, v). k \<noteq> obj_keys ?m ! i) (zip (obj_keys ?m) (map snd ?m)))"
      by (simp only: nth obj_keys_def zip_map_fst_snd)
    also have "\<dots> = take i (map snd ?m) @ drop (Suc i) (map snd ?m)"
      using assms(3) len by (intro filter_indexed) (simp_all add: keys(1) distinct_indexed obj_keys_def [symmetric])
    finally show ?thesis .
  qed
  have beans: "map bs_bean ?left = take i xs @ drop (Suc i) xs"
    unfolding left keys(2) [symmetric] by (simp add: take_map drop_map)
  have empty: "?left = [] \<longleftrightarrow> length xs = 1" unfolding left using len assms(3) by (cases xs) auto
  let ?s = "if ?left = [] then s\<lparr>heap := (heap s)(fresh s := []), fresh := Suc (fresh s),
          beanArray := Some [fresh s], beanStates := renumber ?n [new_state (fresh s) True False]\<rparr>
      else s\<lparr>beanArray := Some (map bs_bean ?left), beanStates := renumber ?n ?left\<rparr>"
  have same: "bindings s' = bindings ?s"
    unfolding s'_def onDeleteBean_run [OF assms(2)]
    by (intro toggle_render) (auto simp: obj_keys_renumber distinct_indexed)
  moreover have "in_step ?s"
    by (auto intro!: in_step_renumber simp: new_state_def)
  ultimately show "in_step s'" using in_step_bindings [OF same] by blast
  show "beanArray s' = Some (if length xs = 1 then [fresh s] else take i xs @ drop (Suc i) xs)"
    using same beans empty by (simp add: bindings_def split: if_splits)
qed

section \<open>Reachable forms\<close>

definition empty_form :: "(nat \<Rightarrow> obj) \<Rightarrow> nat \<Rightarrow> ui_bean" where
  "empty_form h n = \<lparr>beanStates = [], beanArray = None, beanName = [], heap = h, fresh = n\<rparr>"

text \<open>One rule per event of a form that is bound.\<close>

inductive form_step :: "(jsnum \<Rightarrow> string) \<Rightarrow> form_config \<Rightarrow> ui_bean \<Rightarrow> ui_bean \<Rightarrow> bool"
  for nt :: "jsnum \<Rightarrow> string" and cfg :: form_config where
  ev_toggle: "form_step nt cfg s (snd (onToggleBean cfg name s))"
| ev_add: "form_step nt cfg s (snd (onAddBean cfg s))"
| ev_delete: "name \<in> set (obj_keys (beanStates s)) \<Longrightarrow> form_step nt cfg s (snd (onDeleteBean cfg name s))"
| ev_restore: "form_step nt cfg s (snd (restoreBeanState cfg name s))"
| ev_edit: "form_step nt cfg s (snd (onEditMode cfg name s))"
| ev_view: "form_step nt cfg s (snd (onViewMode nt cfg name s))"
| ev_change: "form_step nt cfg s (snd (onChangeInput nt cfg name input val s))"
| ev_add_input: "form_step nt cfg s (snd (onAddInput name field s))"
| ev_validate: "form_step nt cfg s (snd (validate nt cfg s))"
| ev_read_only: "form_step nt cfg s (snd (setReadOnly r s))"

text \<open>
  A form is bound once: to beans under different names, or to an array.
\<close>

inductive bound_form :: "form_config \<Rightarrow> ui_bean \<Rightarrow> bool" for cfg :: form_config where
  first_bind: "fst (bind_bean cfg name a d (empty_form h n)) = Inr () \<Longrightarrow>
     bound_form cfg (snd (bind_bean cfg name a d (empty_form h n)))"
| next_bind: "bound_form cfg s \<Longrightarrow> name \<notin> set (obj_keys (beanStates s)) \<Longrightarrow>
     bound_form cfg (snd (bind_bean cfg name a d s))"

inductive form_reachable :: "(jsnum \<Rightarrow> string) \<Rightarrow> form_config \<Rightarrow> ui_bean \<Rightarrow> bool"
  for nt :: "jsnum \<Rightarrow> string" and cfg :: form_config where
  by_name: "bound_form cfg s \<Longrightarrow> form_reachable nt cfg s"
| by_array: "cf_type cfg = Some ''array'' \<Longrightarrow>
     form_reachable nt cfg (snd (bind_array cfg name xs (empty_form h n)))"
| by_event: "form_reachable nt cfg s \<Longrightarrow> form_step nt cfg s s' \<Longrightarrow> form_reachable nt cfg s'"

text \<open>Binding.\<close>

lemma leaves_setDefault: "leaves beanStates (setDefaultFieldValue fs a)"
  unfolding setDefaultFieldValue_def set_bean_def
  by (intro frame_rules leaves_update) simp

lemma bind_bean_states:
  "beanStates (snd (bind_bean cfg name a d s)) =
     (if is_ok (fst (bind_bean cfg name a d s))
      then obj_put name (new_state a False (beanStates s = [])) (beanStates s) else beanStates s)"
proof -
  let ?pre = "whenever d (seq (get_config cfg name) (\<lambda>fs. setDefaultFieldValue fs a))"
  have pre: "beanStates (snd (?pre s)) = beanStates s"
    by (intro leavesD frame_rules leaves_setDefault)
  then show ?thesis
    by (cases "?pre s"; cases "fst (?pre s)") (auto simp: bind_bean_def andthen_def seq_def update_def)
qed

lemma unselected_put: "name \<notin> set (obj_keys m) \<Longrightarrow>
   filter (\<lambda>(k, b). select b) (obj_put name (new_state a e sel) m)
   = filter (\<lambda>(k, b). select b) m @ (if sel then [(name, new_state a e sel)] else [])"
  by (simp add: obj_put_fresh new_state_def)

lemma bound_form_selected: "bound_form cfg s \<Longrightarrow> one_selected s"
proof (induction rule: bound_form.induct)
  case (first_bind name a d h n)
  then show ?case
    by (simp add: one_selected_def shown_blocks_def bind_bean_states) (simp add: empty_form_def new_state_def obj_keys_def)
next
  case (next_bind s name a d)
  then have "beanStates s \<noteq> []" by (simp add: one_selected_nonempty)
  with next_bind show ?case
    by (simp add: one_selected_def shown_blocks_def bind_bean_states distinct_obj_put unselected_put)
qed

lemma for_each_update: "for_each xs (\<lambda>x. update (f x)) s = (Inr (), foldl (\<lambda>s x. f x s) s xs)"
  by (induction xs arbitrary: s) (simp_all add: prog_defs)

lemma foldl_put_fresh:
  "distinct (map g xs) \<Longrightarrow> set (map g xs) \<inter> set (obj_keys m) = {} \<Longrightarrow>
   foldl (\<lambda>m x. obj_put (g x) (v x) m) m xs = m @ map (\<lambda>x. (g x, v x)) xs"
  by (induction xs arbitrary: m) (auto simp: obj_put_fresh obj_keys_def)

lemma foldl_beanStates:
  fixes s :: ui_bean
  shows "foldl (\<lambda>s x. s\<lparr>beanStates := f x (beanStates s)\<rparr>) s xs = s\<lparr>beanStates := foldl (\<lambda>m x. f x m) (beanStates s) xs\<rparr>"
  by (induction xs arbitrary: s) simp_all

lemma bind_array_run:
  fixes cfg :: form_config and name :: string and xs :: "nat list" and h :: "nat \<Rightarrow> obj" and n :: nat
  assumes "cf_type cfg = Some ''array''"
  defines "ys \<equiv> if xs = [] then [n] else xs"
  defines "s0 \<equiv> (if xs = [] then (empty_form h n)\<lparr>heap := h(n := []), fresh := Suc n\<rparr> else empty_form h n)"
  defines "m \<equiv> map (\<lambda>i. (indexed_name name i, new_state (ys ! i) False False)) [0..<length ys]"
  shows "snd (bind_array cfg name xs (empty_form h n)) =
     s0\<lparr>beanArray := Some ys, beanName := name, beanStates := toggled (indexed_name name (length ys)) m\<rparr>"
proof -
  have states: "foldl (\<lambda>m i. obj_put (indexed_name name i) (new_state (ys ! i) False False) m) [] [0..<length ys] = m"
    unfolding m_def by (subst foldl_put_fresh) (simp_all add: distinct_indexed obj_keys_def)
  have "m \<noteq> []" by (simp add: m_def ys_def)
  moreover have "beanStates s0 = []" by (simp add: s0_def empty_form_def)
  ultimately show ?thesis
    using assms(1) states toggleBean_run [of "s0\<lparr>beanArray := Some ys, beanName := name, beanStates := m\<rparr>"]
      foldl_beanStates [where f = "\<lambda>i. obj_put (indexed_name name i) (new_state (xs ! i) False False)"]
      foldl_beanStates [where f = "\<lambda>i. obj_put (indexed_name name i) (new_state ([n] ! i) False False)"]
    by (cases "xs = []")
       (simp_all add: bind_array_def andthen_def seq_def for_each_update
          update_def ret_def alloc_def s0_def ys_def empty_form_def)
qed

lemma bind_array_in_step:
  assumes "cf_type cfg = Some ''array''"
  shows "in_step (snd (bind_array cfg name xs (empty_form h n)))"
    and "one_selected (snd (bind_array cfg name xs (empty_form h n)))"
proof -
  let ?ys = "if xs = [] then [n] else xs"
  let ?m = "map (\<lambda>i. (indexed_name name i, new_state (?ys ! i) False False)) [0..<length ?ys]"
  have ne: "?m \<noteq> []" by simp
  have dist: "distinct (obj_keys ?m)"
    by (simp add: obj_keys_def distinct_map inj_on_def)
  have "map (\<lambda>(k, b). (k, bs_bean b)) ?m = zip (map (indexed_name name) [0..<length ?ys]) ?ys"
    by (rule nth_equalityI) (simp_all add: new_state_def)
  then show "in_step (snd (bind_array cfg name xs (empty_form h n)))"
    unfolding bind_array_run [OF assms] in_step_def
    by (intro exI [of _ ?ys]) (simp add: beans_toggled)
  show "one_selected (snd (bind_array cfg name xs (empty_form h n)))"
    unfolding bind_array_run [OF assms] one_selected_def shown_blocks_def
    using shown_toggled [OF dist ne] dist by simp
qed

text \<open>The invariants of every event.\<close>

lemma form_step_selected: "form_step nt cfg s s' \<Longrightarrow> one_selected s \<Longrightarrow> one_selected s'"
proof (induction rule: form_step.induct)
  case (ev_toggle s name)
  then show ?case by (rule one_selected_onToggleBean)
next
  case (ev_add s)
  then show ?case by (rule one_selected_onAddBean)
next
  case (ev_delete name s)
  then show ?case by (intro one_selected_onDeleteBean)
qed (auto intro!: leaves_one_selected frame_rules)

lemma form_reachable_selected: "form_reachable nt cfg s \<Longrightarrow> one_selected s"
  by (induction rule: form_reachable.induct)
     (auto intro: bound_form_selected bind_array_in_step form_step_selected)

lemma bindings_of_both: "both s' = both s \<Longrightarrow> bindings s' = bindings s"
  by (simp add: both_def)

lemma leaves_bindings: "leaves both m \<Longrightarrow> leaves bindings m"
  by (simp add: leaves_def both_def)

lemma leaves_in_step: "leaves both m \<Longrightarrow> in_step s \<Longrightarrow> in_step (snd (m s))"
  using in_step_bindings [OF bindings_of_both] leavesD by metis

lemma bindings_onToggleBean:
  assumes "beanStates s \<noteq> []"
  shows "bindings (snd (onToggleBean cfg name s)) = bindings s"
proof -
  let ?s = "s\<lparr>beanStates := toggled name (beanStates s)\<rparr>"
  have "leaves bindings (set_state name (\<lambda>b. b\<lparr>select := True\<rparr>))"
    unfolding set_state_def by (rule leaves_update) (simp add: bindings_def obj_upd_map)
  then have "leaves bindings (seq (get_state name) (\<lambda>_. andthen (set_state name (\<lambda>b. b\<lparr>select := True\<rparr>)) (render cfg)))"
    by (intro leaves_seq leaves_andthen leaves_get_state leaves_bindings [OF leaves_render])
  from leavesD [OF this, of ?s]
  have "bindings (snd (onToggleBean cfg name s)) = bindings ?s"
    using assms by (simp add: onToggleBean_def andthen_snd toggleBean_run)
  then show ?thesis by (simp add: bindings_def beans_toggled)
qed

lemma form_step_in_step: "form_step nt cfg s s' \<Longrightarrow> in_step s \<Longrightarrow> in_step s'"
proof (induction rule: form_step.induct)
  case (ev_toggle s name)
  then obtain xs where "beanArray s = Some xs" by (auto simp: in_step_def)
  then have "bindings (snd (onToggleBean cfg name s)) = bindings s"
    by (intro bindings_onToggleBean in_step_keys(3) [OF ev_toggle])
  from in_step_bindings [OF this] ev_toggle show ?case by blast
next
  case (ev_add s)
  then show ?case by (rule in_step_onAddBean)
next
  case (ev_delete name s)
  then obtain xs where xs: "beanArray s = Some xs" by (auto simp: in_step_def)
  with ev_delete obtain i where "i < length xs" "name = indexed_name (beanName s) i"
    by (auto simp: in_step_keys(1))
  with in_step_onDeleteBean(1) [OF ev_delete(2) xs] show ?case by simp
qed (auto intro!: leaves_in_step frame_rules)

inductive array_form :: "(jsnum \<Rightarrow> string) \<Rightarrow> form_config \<Rightarrow> ui_bean \<Rightarrow> bool"
  for nt :: "jsnum \<Rightarrow> string" and cfg :: form_config where
  array_bound: "cf_type cfg = Some ''array'' \<Longrightarrow>
     array_form nt cfg (snd (bind_array cfg name xs (empty_form h n)))"
| array_event: "array_form nt cfg s \<Longrightarrow> form_step nt cfg s s' \<Longrightarrow> array_form nt cfg s'"

lemma array_form_in_step: "array_form nt cfg s \<Longrightarrow> in_step s"
  by (induction rule: array_form.induct) (auto intro: bind_array_in_step form_step_in_step)

end
