(* ===== verification/UIBeanProps.thy ===== *)
theory UIBeanProps
  imports UIBeanFacts
begin

text \<open>
  What the form view guarantees: the properties of the selection, of array forms, of editing
  and restoring, of defaults and of validation, with the lemmas on single fields they rest on.
\<close>

section \<open>Editing and restoring\<close>

text \<open>
  A bean as the inputs of a form hold it: scalar fields hold text or nothing, repeated fields
  an array of texts, and drawing it does not fill a repeated field.
\<close>

fun is_text :: "jsval \<Rightarrow> bool" where
  "is_text (JStr _) = True"
| "is_text _ = False"

definition field_ok :: "field_config list \<Rightarrow> string \<times> jsval \<Rightarrow> bool" where
  "field_ok fs p =
     (case snd p of
        JStr _ \<Rightarrow> True
      | JNull \<Rightarrow> True
      | JArr vs \<Rightarrow> list_all is_text vs \<and>
          list_all (\<lambda>f. fc_field f = fst p \<longrightarrow> fc_multiple f = Some True) fs
      | _ \<Rightarrow> False)"

definition text_bean :: "field_config list \<Rightarrow> obj \<Rightarrow> bool" where
  "text_bean fs b \<longleftrightarrow> list_all (field_ok fs) b \<and> list_all (\<lambda>f. fill_repeated b f = b) fs"

lemma is_text_iff: "is_text v \<longleftrightarrow> (\<exists>t. v = JStr t)"
  by (cases v) auto

lemma deep_copy_text: "list_all is_text vs \<Longrightarrow> deep_copy (JArr vs) = JArr vs"
proof -
  assume "list_all is_text vs"
  then have "map deep_copy vs = vs" "\<forall>v \<in> set vs. v \<noteq> JUndef"
    by (induction vs) (auto simp: is_text_iff)
  then show ?thesis by (cases "rev vs") (auto simp del: deep_copy.simps(2,3) simp: rev_swap)
qed

lemma copy_text_bean: "text_bean fs b \<Longrightarrow> copy_obj b = b"
proof -
  assume "text_bean fs b"
  then have "list_all (field_ok fs) b" by (simp add: text_bean_def)
  then show ?thesis
  proof (induction b)
    case (Cons p b)
    obtain k v where "p = (k, v)" by (cases p)
    with Cons show ?case
      by (cases v) (auto simp: copy_obj_def field_ok_def deep_copy_text simp del: deep_copy.simps(1))
  qed (simp add: copy_obj_def)
qed

lemma obj_put_same: "map_of b k = Some v \<Longrightarrow> obj_put k v b = b"
  by (induction b) (auto split: if_splits)

lemma get_prop_text:
  assumes "text_bean fs b" "map_of b k = Some v"
  shows "field_ok fs (k, v)"
  using assms map_of_SomeD [OF assms(2)] by (auto simp: text_bean_def list_all_iff)

text \<open>An input that does not differ from what the bean holds does not change the bean.\<close>

lemma unchanged_scalar:
  assumes "text_bean fs b" "getBeanFieldConfig fs k = Some f" "fc_multiple f \<noteq> Some True"
    "equals_string nt (get_prop b k) val"
  shows "obj_put k (JStr val) b = b"
proof -
  from assms(4) obtain v where v: "map_of b k = Some v"
    by (cases "map_of b k") (auto simp: get_prop_def equals_string_def)
  from assms(2) have "f \<in> set fs" "fc_field f = k"
    by (auto simp: getBeanFieldConfig_def find_Some_iff)
  with get_prop_text [OF assms(1) v] assms(3,4) v have "v = JStr val"
    by (cases v) (auto simp: get_prop_def equals_string_def field_ok_def list_all_iff)
  with v show ?thesis by (simp add: obj_put_same)
qed

lemma unchanged_repeated:
  assumes "text_bean fs b" "\<not> nullish (get_prop b k)"
    "equals_string nt (index_get (get_prop b k) i) val"
  shows "obj_put k (index_set (get_prop b k) i (JStr val)) b = b"
proof -
  from assms(2) obtain v where v: "map_of b k = Some v"
    by (cases "map_of b k") (auto simp: get_prop_def)
  have "index_set v i (JStr val) = v"
  proof (cases v)
    case (JArr vs)
    then have txts: "list_all is_text vs" using get_prop_text [OF assms(1) v] by (simp add: field_ok_def)
    with assms(3) v JArr obtain j where j: "i = Some j" "0 \<le> j" "j < int (length vs)"
      by (auto simp: get_prop_def equals_string_def index_get_def js_index_def split: option.splits if_splits)
    from j have "nat j < length vs" by (simp add: nat_less_iff)
    with txts obtain t where "vs ! nat j = JStr t" by (auto simp: list_all_length is_text_iff)
    with assms(3) v JArr j have "vs ! nat j = JStr val"
      by (simp add: get_prop_def equals_string_def index_get_def js_index_def)
    then have "vs[nat j := JStr val] = vs" by (metis list_update_id)
    with j JArr show ?thesis by (simp add: index_set_def nat_less_iff)
  next
    case (JObj m)
    then show ?thesis using get_prop_text [OF assms(1) v] by (simp add: field_ok_def)
  qed (auto simp: index_set_def)
  with v show ?thesis by (simp add: get_prop_def obj_put_same)
qed

text \<open>
  What is true of the bean \<open>b\<close> at address \<open>a\<close> during an editing session under \<open>name\<close>: its
  state holds a copy of \<open>b\<close>, or the bean is still \<open>b\<close>; no other state shares the address.
\<close>

definition restorable :: "string \<Rightarrow> nat \<Rightarrow> obj \<Rightarrow> ui_bean \<Rightarrow> bool" where
  "restorable name a b s \<longleftrightarrow>
     (\<exists>st. map_of (beanStates s) name = Some st \<and> bs_bean st = a \<and>
        (origin st = Some b \<or> origin st = None \<and> heap s a = b)) \<and>
     (\<forall>n st. n \<noteq> name \<longrightarrow> map_of (beanStates s) n = Some st \<longrightarrow> bs_bean st \<noteq> a)"

lemma restorable_cong:
  assumes "restorable name a b s" "heap s' a = heap s a"
    "\<And>n. map_option (\<lambda>st. (bs_bean st, origin st)) (map_of (beanStates s') n)
        = map_option (\<lambda>st. (bs_bean st, origin st)) (map_of (beanStates s) n)"
  shows "restorable name a b s'"
proof -
  have orig: "\<exists>st. map_of (beanStates s) n = Some st \<and> bs_bean st = bs_bean st' \<and> origin st = origin st'"
    if "map_of (beanStates s') n = Some st'" for n st'
    using assms(3) [of n] that by (cases "map_of (beanStates s) n") auto
  obtain st where st: "map_of (beanStates s) name = Some st" "bs_bean st = a"
      "origin st = Some b \<or> origin st = None \<and> heap s a = b"
    using assms(1) by (auto simp: restorable_def)
  then obtain st' where "map_of (beanStates s') name = Some st'" "bs_bean st' = a" "origin st' = origin st"
    using assms(3) [of name] by (cases "map_of (beanStates s') name") auto
  with st assms(1,2) orig show ?thesis unfolding restorable_def by (metis (no_types, lifting))
qed

lemma restorable_set_state:
  assumes "restorable name a b s" "\<And>st. bs_bean (f st) = bs_bean st \<and> origin (f st) = origin st"
  shows "restorable name a b (s\<lparr>beanStates := obj_upd n f (beanStates s)\<rparr>)"
  by (rule restorable_cong [OF assms(1)]) (auto simp: map_of_obj_upd option.map_comp o_def assms(2))

lemma render_block_run:
  "snd (render_block cfg n s) =
     (case (getBeanConfig cfg n, map_of (beanStates s) n) of
        (Some gs, Some st) \<Rightarrow>
          if editMode st
          then s\<lparr>heap := (heap s)(bs_bean st := fst (draw_fields (heap s (bs_bean st)) gs))\<rparr> else s
      | _ \<Rightarrow> s)"
  by (simp add: render_block_def get_config_def get_state_def seq_def whenever_def reads_def
        set_bean_def andthen_def update_def ret_def throw_def split: option.split prod.split)

lemma restorable_render_block:
  assumes "restorable name a b s" "getBeanConfig cfg name = Some fs" "text_bean fs b"
  shows "restorable name a b (snd (render_block cfg n s))"
proof (cases "getBeanConfig cfg n = None \<or> map_of (beanStates s) n = None")
  case True
  with assms(1) show ?thesis by (auto simp: render_block_run split: option.split)
next
  case False
  then obtain gs st where gs: "getBeanConfig cfg n = Some gs" and st: "map_of (beanStates s) n = Some st"
    by auto
  show ?thesis
  proof (cases "n = name")
    case True
    with assms st gs show ?thesis
      by (auto simp: render_block_run restorable_def text_bean_def draw_fields_same)
  next
    case False
    with assms(1) st have "bs_bean st \<noteq> a" by (auto simp: restorable_def)
    with assms(1) gs st show ?thesis by (auto simp: render_block_run intro: restorable_cong)
  qed
qed

lemma render_snd:
  "\<exists>ns. snd (render cfg s) = snd (for_each ns (render_block cfg) s)"
proof -
  have "leaves (\<lambda>s. s) (render_tabs cfg)"
    unfolding render_tabs_def by (intro frame_rules)
  then have id: "snd (render_tabs cfg s) = s" by (rule leavesD)
  show ?thesis
  proof (cases "fst (render_tabs cfg s)")
    case (Inl e)
    then show ?thesis using id
      by (intro exI [of _ "[]"]) (cases "render_tabs cfg s"; simp add: render_def andthen_snd ret_def)
  next
    case (Inr u)
    then show ?thesis using id
      by (intro exI [of _ "obj_keys (beanStates s)"])
         (cases "render_tabs cfg s"; simp add: render_def andthen_snd seq_def reads_def)
  qed
qed

lemma restorable_render:
  assumes "restorable name a b s" "getBeanConfig cfg name = Some fs" "text_bean fs b"
  shows "restorable name a b (snd (render cfg s))"
proof -
  obtain ns where "snd (render cfg s) = snd (for_each ns (render_block cfg) s)" using render_snd by blast
  moreover have "restorable name a b (snd (for_each ns (render_block cfg) s))"
    by (rule for_each_invariant [of ns "restorable name a b"])
       (use assms restorable_render_block in blast)+
  ultimately show ?thesis by simp
qed

text \<open>Writing an input: the origin is kept first when the input differs.\<close>

definition keep_then_write :: "string \<Rightarrow> bool \<Rightarrow> nat \<Rightarrow> obj \<Rightarrow> obj \<Rightarrow> (ui_bean, unit) prog" where
  "keep_then_write n differs a old new = andthen (whenever differs (keep_origin n old)) (set_bean a new)"

lemma restorable_write:
  assumes "restorable name a b s" "text_bean fs b" "map_of (beanStates s) n = Some st"
    "n = name \<Longrightarrow> heap s a = b \<Longrightarrow> \<not> differs \<Longrightarrow> new = b"
  shows "restorable name a b (snd (keep_then_write n differs (bs_bean st) (heap s (bs_bean st)) new s))"
proof -
  let ?keep = "\<lambda>t. if origin t = None then t\<lparr>origin := Some (copy_obj (heap s (bs_bean st)))\<rparr> else t"
  have run: "snd (keep_then_write n differs (bs_bean st) (heap s (bs_bean st)) new s)
    = s\<lparr>beanStates := (if differs then obj_upd n ?keep (beanStates s) else beanStates s),
        heap := (heap s)(bs_bean st := new)\<rparr>"
    by (simp add: keep_then_write_def keep_origin_def set_state_def set_bean_def prog_defs)
  show ?thesis
  proof (cases "n = name")
    case True
    with assms copy_text_bean [OF assms(2)] show ?thesis
      unfolding run restorable_def by (cases differs) (auto simp: map_of_obj_upd)
  next
    case False
    with assms(1,3) have "bs_bean st \<noteq> a" by (auto simp: restorable_def)
    with False assms(1) show ?thesis
      unfolding run restorable_def by (cases differs) (auto simp: map_of_obj_upd)
  qed
qed

lemma onChangeInput_run:
  assumes "map_of (beanStates s) n = Some st" "getBeanConfig cfg n = Some gs"
  shows "snd (onChangeInput nt cfg n input val s) =
    (let (k, i) = split_input_name input; b = heap s (bs_bean st); v = get_prop b k in
     case getBeanFieldConfig gs k of
       None \<Rightarrow> s
     | Some f \<Rightarrow>
         if fc_multiple f = Some True then
           if nullish v then s
           else snd (keep_then_write n (\<not> equals_string nt (index_get v i) val) (bs_bean st) b
                  (obj_put k (index_set v i (JStr val)) b) s)
         else snd (keep_then_write n (\<not> equals_string nt v val) (bs_bean st) b (obj_put k (JStr val) b) s))"
  using assms
  by (cases "getBeanFieldConfig gs (fst (split_input_name input))")
     (auto simp: onChangeInput_def get_state_def get_config_def seq_def reads_def keep_then_write_def
        ret_def throw_def Let_def split: prod.split)

lemma restorable_onChangeInput:
  assumes "restorable name a b s" "getBeanConfig cfg name = Some fs" "text_bean fs b"
  shows "restorable name a b (snd (onChangeInput nt cfg n input val s))"
proof (cases "map_of (beanStates s) n")
  case None
  with assms(1) show ?thesis by (simp add: onChangeInput_def get_state_def seq_def)
next
  case st: (Some st)
  show ?thesis
  proof (cases "getBeanConfig cfg n")
    case None
    with assms(1) st show ?thesis
      by (simp add: onChangeInput_def get_state_def get_config_def seq_def throw_def)
  next
    case gs: (Some gs)
    obtain k i where ki: "split_input_name input = (k, i)" by (cases "split_input_name input")
    have a: "n = name \<Longrightarrow> bs_bean st = a \<and> gs = fs"
      using assms(1,2) st gs by (auto simp: restorable_def)
    let ?b = "heap s (bs_bean st)"
    have scalar: "obj_put k (JStr val) ?b = b"
      if "n = name" "heap s a = b" "getBeanFieldConfig gs k = Some f" "fc_multiple f \<noteq> Some True"
        "\<not> \<not> equals_string nt (get_prop ?b k) val" for f
      using that a unchanged_scalar [OF assms(3)] by auto
    have repeated: "obj_put k (index_set (get_prop ?b k) i (JStr val)) ?b = b"
      if "n = name" "heap s a = b" "\<not> nullish (get_prop ?b k)"
        "\<not> \<not> equals_string nt (index_get (get_prop ?b k) i) val"
      using that a unchanged_repeated [OF assms(3)] by auto
    let ?eq = "equals_string nt (index_get (get_prop ?b k) i) val"
    have r: "restorable name a b (snd (keep_then_write n (\<not> ?eq) (bs_bean st) ?b
        (obj_put k (index_set (get_prop ?b k) i (JStr val)) ?b) s))"
      if "\<not> nullish (get_prop ?b k)"
      by (rule restorable_write [OF assms(1,3) st]) (rule repeated [OF _ _ that])
    let ?eqs = "equals_string nt (get_prop ?b k) val"
    have sc: "restorable name a b (snd (keep_then_write n (\<not> ?eqs) (bs_bean st) ?b
        (obj_put k (JStr val) ?b) s))"
      if "getBeanFieldConfig gs k = Some f" "fc_multiple f \<noteq> Some True" for f
      by (rule restorable_write [OF assms(1,3) st]) (rule scalar [OF _ _ that])
    show ?thesis
      unfolding onChangeInput_run [OF st gs] ki Let_def prod.case
      using r sc by (simp split: option.split add: assms(1))
  qed
qed

lemma restorable_onAddInput:
  assumes "restorable name a b s" "text_bean fs b"
  shows "restorable name a b (snd (onAddInput n k s))"
proof (cases "map_of (beanStates s) n")
  case None
  with assms(1) show ?thesis by (simp add: onAddInput_def get_state_def seq_def)
next
  case st: (Some st)
  let ?b = "heap s (bs_bean st)"
  have same: "snd (keep_then_write n True (bs_bean st) ?b ?b s)
    = (snd (keep_origin n ?b s))\<lparr>heap := heap s\<rparr>"
    by (simp add: keep_then_write_def keep_origin_def set_state_def set_bean_def prog_defs)
  have kept: "(snd (keep_origin n ?b s))\<lparr>heap := heap s\<rparr> = snd (keep_origin n ?b s)"
    by (simp add: keep_origin_def set_state_def update_def)
  have "snd (onAddInput n k s) =
     (case get_prop ?b k of
        JArr vs \<Rightarrow> snd (keep_then_write n True (bs_bean st) ?b (obj_put k (JArr (vs @ [JStr []])) ?b) s)
      | _ \<Rightarrow> snd (keep_origin n ?b s))"
    using st
    by (simp add: onAddInput_def get_state_def seq_def reads_def andthen_def keep_then_write_def
          whenever_def keep_origin_def set_state_def update_def throw_def split: jsval.split)
  also have "restorable name a b \<dots>"
    using restorable_write [OF assms st, of True] same kept by (simp split: jsval.split) metis
  finally show ?thesis .
qed

text \<open>An editing session: the events between opening the editable form and restoring.\<close>

inductive edits :: "(jsnum \<Rightarrow> string) \<Rightarrow> form_config \<Rightarrow> ui_bean \<Rightarrow> ui_bean \<Rightarrow> bool"
  for nt :: "jsnum \<Rightarrow> string" and cfg :: form_config where
  ed_none: "edits nt cfg s s"
| ed_open: "edits nt cfg s s' \<Longrightarrow> edits nt cfg s (snd (onEditMode cfg n s'))"
| ed_change: "edits nt cfg s s' \<Longrightarrow> edits nt cfg s (snd (onChangeInput nt cfg n input val s'))"
| ed_add: "edits nt cfg s s' \<Longrightarrow> edits nt cfg s (snd (onAddInput n k s'))"
| ed_toggle: "edits nt cfg s s' \<Longrightarrow> edits nt cfg s (snd (onToggleBean cfg n s'))"

lemma restorable_onEditMode:
  assumes "restorable name a b s" "getBeanConfig cfg name = Some fs" "text_bean fs b"
  shows "restorable name a b (snd (onEditMode cfg n s))"
proof (cases "map_of (beanStates s) n")
  case None
  with assms(1) show ?thesis by (simp add: onEditMode_def get_state_def seq_def)
next
  case (Some st)
  then have "snd (onEditMode cfg n s)
      = snd (render cfg (s\<lparr>beanStates := obj_upd n (\<lambda>b. b\<lparr>editMode := True\<rparr>) (beanStates s)\<rparr>))"
    by (simp add: onEditMode_def get_state_def seq_def andthen_def set_state_def update_def)
  then show ?thesis
    using restorable_render [OF restorable_set_state [OF assms(1)] assms(2,3)] by simp
qed

lemma map_of_toggled_origin:
  "map_option (\<lambda>st. (bs_bean st, origin st)) (map_of (toggled n m) k)
   = map_option (\<lambda>st. (bs_bean st, origin st)) (map_of m k)"
proof -
  have "map_option (\<lambda>st. (bs_bean st, origin st)) (map_of (map (\<lambda>(k, b). (k, b\<lparr>select := False\<rparr>)) m) k)
      = map_option (\<lambda>st. (bs_bean st, origin st)) (map_of m k)"
    by (induction m) auto
  then show ?thesis
    by (auto simp: toggled_def map_of_obj_upd option.map_comp o_def)
qed

lemma restorable_onToggleBean:
  assumes "restorable name a b s" "getBeanConfig cfg name = Some fs" "text_bean fs b"
  shows "restorable name a b (snd (onToggleBean cfg n s))"
proof -
  have ne: "beanStates s \<noteq> []" using assms(1) by (auto simp: restorable_def)
  let ?s = "s\<lparr>beanStates := toggled n (beanStates s)\<rparr>"
  have r: "restorable name a b ?s"
    by (rule restorable_cong [OF assms(1)]) (simp_all add: map_of_toggled_origin)
  show ?thesis
  proof (cases "map_of (toggled n (beanStates s)) n")
    case None
    with r ne show ?thesis
      by (simp add: onToggleBean_def andthen_snd toggleBean_run get_state_def seq_def)
  next
    case (Some st)
    with ne have "snd (onToggleBean cfg n s) = snd (render cfg
        (?s\<lparr>beanStates := obj_upd n (\<lambda>b. b\<lparr>select := True\<rparr>) (beanStates ?s)\<rparr>))"
      by (simp add: onToggleBean_def andthen_snd toggleBean_run get_state_def seq_def set_state_def update_def)
    then show ?thesis
      using restorable_render [OF restorable_set_state [OF r] assms(2,3)] by simp
  qed
qed

lemma restorable_edits:
  assumes "edits nt cfg s s'" "restorable name a b s" "getBeanConfig cfg name = Some fs" "text_bean fs b"
  shows "restorable name a b s'"
  using assms
proof (induction rule: edits.induct)
  case (ed_open s s' n)
  then show ?case using restorable_onEditMode by blast
next
  case (ed_change s s' n input val)
  then show ?case using restorable_onChangeInput by blast
next
  case (ed_add s s' n k)
  then show ?case using restorable_onAddInput by blast
next
  case (ed_toggle s s' n)
  then show ?case using restorable_onToggleBean by blast
qed

definition settled :: "string \<Rightarrow> nat \<Rightarrow> obj \<Rightarrow> ui_bean \<Rightarrow> bool" where
  "settled name a b s \<longleftrightarrow> heap s a = b \<and>
     (\<forall>n st. n \<noteq> name \<longrightarrow> map_of (beanStates s) n = Some st \<longrightarrow> bs_bean st \<noteq> a)"

lemma settled_render_block:
  assumes "settled name a b s" "getBeanConfig cfg name = Some fs" "text_bean fs b"
  shows "settled name a b (snd (render_block cfg n s))"
proof (cases "getBeanConfig cfg n = None \<or> map_of (beanStates s) n = None")
  case True
  with assms(1) show ?thesis by (auto simp: render_block_run split: option.split)
next
  case False
  then obtain gs st where gs: "getBeanConfig cfg n = Some gs" and st: "map_of (beanStates s) n = Some st"
    by auto
  show ?thesis
  proof (cases "bs_bean st = a")
    case True
    with assms st have "n = name" by (auto simp: settled_def)
    with True assms gs st show ?thesis by (simp add: render_block_run settled_def text_bean_def draw_fields_same)
  next
    case False
    with assms(1) gs st show ?thesis by (simp add: render_block_run settled_def)
  qed
qed

lemma heap_restored:
  assumes "restorable name a b s" "getBeanConfig cfg name = Some fs" "text_bean fs b"
  shows "heap (snd (restoreBeanState cfg name s)) a = b"
proof -
  obtain st where st: "map_of (beanStates s) name = Some st" "bs_bean st = a"
      "origin st = Some b \<or> origin st = None \<and> heap s a = b"
    using assms(1) by (auto simp: restorable_def)
  let ?s = "if origin st = None then s else s\<lparr>heap := (heap s)(a := b)\<rparr>"
  have run: "snd (restoreBeanState cfg name s) = snd (render cfg ?s)"
    using st copy_text_bean [OF assms(3)]
    by (auto simp: restoreBeanState_def get_state_def seq_def andthen_def set_bean_def update_def ret_def)
  obtain ns where ns: "snd (render cfg ?s) = snd (for_each ns (render_block cfg) ?s)" using render_snd by blast
  have "settled name a b ?s" using assms(1) st by (auto simp: restorable_def settled_def)
  then have "settled name a b (snd (for_each ns (render_block cfg) ?s))"
    by (intro for_each_invariant [of ns "settled name a b"]) (use settled_render_block assms in auto)
  then show ?thesis by (simp add: run ns settled_def)
qed

lemma restorable_fresh:
  assumes "map_of (beanStates s) name = Some st" "origin st = None" "heap s (bs_bean st) = b"
    "distinct (map (\<lambda>(n, st). bs_bean st) (beanStates s))"
  shows "restorable name (bs_bean st) b s"
proof -
  have "bs_bean st' \<noteq> bs_bean st" if "n \<noteq> name" "map_of (beanStates s) n = Some st'" for n st'
  proof
    assume "bs_bean st' = bs_bean st"
    moreover have "(n, st') \<in> set (beanStates s)" "(name, st) \<in> set (beanStates s)"
      using that(2) assms(1) by (auto dest: map_of_SomeD)
    ultimately have "(n, st') = (name, st)"
      using assms(4) inj_onD [of "\<lambda>(n, st). bs_bean st" "set (beanStates s)" "(n, st')" "(name, st)"]
      by (simp add: distinct_map)
    with that(1) show False by simp
  qed
  with assms show ?thesis by (auto simp: restorable_def)
qed

end
