(* ===== verification/UIBeanValidation.thy ===== *)
theory UIBeanValidation
  imports UIBeanProps
begin

text \<open>
  Validation of a form and the way it leaves the edit mode: which fields are reported, when a
  form goes back to its view, and what the validated bean holds; then the properties of the
  form view.
\<close>

section \<open>One field\<close>

definition known_validators :: "(jsnum \<Rightarrow> string) \<Rightarrow> field_config list \<Rightarrow> bool" where
  "known_validators nt fs \<longleftrightarrow>
     list_all (\<lambda>f. case fc_validator f of None \<Rightarrow> True | Some vc \<Rightarrow> lookup_validator nt (v_name vc) \<noteq> None) fs"

definition field_error :: "(jsnum \<Rightarrow> string) \<Rightarrow> obj \<Rightarrow> field_config \<Rightarrow> js_error option" where
  "field_error nt b f =
     (let v = get_prop b (fc_field f) in
      if fc_required f \<and> is_empty v then Some (ThrownString ''This field cannot be empty'')
      else case fc_validator f of
        None \<Rightarrow> None
      | Some vc \<Rightarrow> (case lookup_validator nt (v_name vc) of
            None \<Rightarrow> None
          | Some check \<Rightarrow> (case v of
                JArr vs \<Rightarrow> snd (validate_items (check vc) vs)
              | _ \<Rightarrow> (case check vc v of Inl e \<Rightarrow> Some e | Inr _ \<Rightarrow> None))))"

text \<open>The errors of a form, in the order of its fields.\<close>

definition form_errors :: "(jsnum \<Rightarrow> string) \<Rightarrow> field_config list \<Rightarrow> obj \<Rightarrow> (string \<times> js_error) list" where
  "form_errors nt fs b =
     concat (map (\<lambda>f. case field_error nt b f of None \<Rightarrow> [] | Some e \<Rightarrow> [(fc_field f, e)]) fs)"

lemma validate_field_run:
  assumes "known_validators nt (f # fs)"
  shows "\<exists>b'. validate_field nt f b = Inr (b', field_error nt b f) \<and>
    (\<forall>k. k \<noteq> fc_field f \<longrightarrow> get_prop b' k = get_prop b k)"
  using assms
  by (auto simp: validate_field_def field_error_def known_validators_def Let_def
      split: option.splits jsval.splits sum.splits prod.splits)

lemma field_error_cong:
  "get_prop b (fc_field f) = get_prop b' (fc_field f) \<Longrightarrow> field_error nt b f = field_error nt b' f"
  by (simp add: field_error_def)

lemma form_errors_cong:
  "(\<And>f. f \<in> set fs \<Longrightarrow> get_prop b (fc_field f) = get_prop b' (fc_field f)) \<Longrightarrow>
   form_errors nt fs b = form_errors nt fs b'"
  unfolding form_errors_def
  by (intro arg_cong [where f = concat] map_cong) (simp_all add: field_error_cong [of b _ b'])

lemma form_errors_Cons:
  "form_errors nt (f # fs) b =
     (case field_error nt b f of None \<Rightarrow> [] | Some e \<Rightarrow> [(fc_field f, e)]) @ form_errors nt fs b"
  by (simp add: form_errors_def)

lemma form_errors_Nil_iff: "form_errors nt fs b = [] \<longleftrightarrow> (\<forall>f \<in> set fs. field_error nt b f = None)"
  by (induction fs) (auto simp: form_errors_def split: option.splits)

lemma form_errors_fields: "fst ` set (form_errors nt fs b) \<subseteq> fc_field ` set fs"
  by (induction fs) (auto simp: form_errors_def split: option.splits)

section \<open>All fields\<close>

lemma validate_fields_run:
  assumes "known_validators nt fs" "distinct (map fc_field fs)"
    "map_of (beanStates s) name = Some st" "fieldErrors st = Some es"
    "set (obj_keys es) \<inter> fc_field ` set fs = {}"
  shows "\<exists>st'. fst (validate_fields nt name a fs s) = Inr (form_errors nt fs (heap s a) \<noteq> []) \<and>
    map_of (beanStates (snd (validate_fields nt name a fs s))) name = Some st' \<and>
    st' = st\<lparr>fieldErrors := Some (es @ form_errors nt fs (heap s a))\<rparr>"
  using assms
proof (induction fs arbitrary: s st es)
  case Nil
  then show ?case by (simp add: form_errors_def ret_def)
next
  case (Cons f fs)
  obtain b' where run: "validate_field nt f (heap s a) = Inr (b', field_error nt (heap s a) f)"
    and other: "\<And>k. k \<noteq> fc_field f \<Longrightarrow> get_prop b' k = get_prop (heap s a) k"
    using validate_field_run [OF Cons.prems(1)] by metis
  let ?err = "field_error nt (heap s a) f"
  let ?s1 = "s\<lparr>heap := (heap s)(a := b')\<rparr>"
  let ?add = "\<lambda>e st. st\<lparr>fieldErrors := map_option (obj_put (fc_field f) e) (fieldErrors st)\<rparr>"
  let ?s2 = "case ?err of None \<Rightarrow> ?s1 | Some e \<Rightarrow> ?s1\<lparr>beanStates := obj_upd name (?add e) (beanStates ?s1)\<rparr>"
  let ?new = "case ?err of None \<Rightarrow> [] | Some e \<Rightarrow> [(fc_field f, e)]"
  have step: "validate_fields nt name a (f # fs) s
      = seq (validate_fields nt name a fs) (\<lambda>more. ret (?err \<noteq> None \<or> more)) ?s2"
    by (cases ?err) (simp_all add: reads_def seq_def lift_result_def run andthen_def set_bean_def
        set_state_def update_def ret_def)
  have st2: "map_of (beanStates ?s2) name = Some (st\<lparr>fieldErrors := Some (es @ ?new)\<rparr>)"
    using Cons.prems(3,4,5)
    by (cases ?err) (auto simp: map_of_obj_upd obj_put_fresh)
  have rest: "form_errors nt fs (heap ?s2 a) = form_errors nt fs (heap s a)"
    by (rule form_errors_cong)
       (use Cons.prems(2) other in \<open>auto split: option.splits simp: image_iff\<close>)
  have known: "known_validators nt fs" using Cons.prems(1) by (simp add: known_validators_def)
  have "set (obj_keys (es @ ?new)) \<inter> fc_field ` set fs = {}"
    using Cons.prems(2,5) by (cases ?err) (auto simp: obj_keys_def rev_image_eqI)
  from Cons.IH [OF known _ st2 _ this] Cons.prems(2) rest
  obtain st' where "fst (validate_fields nt name a fs ?s2) = Inr (form_errors nt fs (heap s a) \<noteq> [])"
    "map_of (beanStates (snd (validate_fields nt name a fs ?s2))) name = Some st'"
    "st' = st\<lparr>fieldErrors := Some ((es @ ?new) @ form_errors nt fs (heap s a))\<rparr>"
    by auto
  then show ?case
    unfolding step form_errors_Cons
    by (cases "validate_fields nt name a fs ?s2")
       (auto simp: seq_def ret_def split: option.splits)
qed

lemma validateBeanState_run:
  assumes "known_validators nt fs" "distinct (map fc_field fs)" "map_of (beanStates s) name = Some st"
  shows "fst (validateBeanState nt fs name s) = Inr (form_errors nt fs (heap s (bs_bean st)) = [])"
    and "map_of (beanStates (snd (validateBeanState nt fs name s))) name
         = Some (st\<lparr>fieldErrors := Some (form_errors nt fs (heap s (bs_bean st)))\<rparr>)"
proof -
  let ?s = "s\<lparr>beanStates := obj_upd name (\<lambda>st. st\<lparr>fieldErrors := Some []\<rparr>) (beanStates s)\<rparr>"
  have st: "map_of (beanStates ?s) name = Some (st\<lparr>fieldErrors := Some []\<rparr>)"
    using assms(3) by (simp add: map_of_obj_upd)
  have run: "validateBeanState nt fs name s
    = seq (validate_fields nt name (bs_bean st) fs) (\<lambda>hasError. ret (\<not> hasError)) ?s"
    using assms(3)
    by (simp add: validateBeanState_def get_state_def seq_def andthen_def set_state_def update_def)
  from validate_fields_run [OF assms(1,2) st, of "[]" "bs_bean st"]
  show "fst (validateBeanState nt fs name s) = Inr (form_errors nt fs (heap s (bs_bean st)) = [])"
    and "map_of (beanStates (snd (validateBeanState nt fs name s))) name
         = Some (st\<lparr>fieldErrors := Some (form_errors nt fs (heap s (bs_bean st)))\<rparr>)"
    unfolding run by (cases "validate_fields nt name (bs_bean st) fs ?s"; simp add: seq_def ret_def obj_keys_def)+
qed

section \<open>Leaving the edit mode\<close>

lemma leaves_render_states [frame_rules]: "leaves beanStates (render cfg)"
  unfolding render_def render_tabs_def render_block_def set_bean_def
  by (intro frame_rules leaves_update) simp

lemma leaves_trim_states: "leaves beanStates (for_each fs (trim_field a))"
  unfolding trim_field_def set_bean_def
  by (intro frame_rules leaves_update) simp

lemma onViewMode_states:
  assumes "map_of (beanStates s) name = Some st" "getBeanConfig cfg name = Some fs"
    "known_validators nt fs" "distinct (map fc_field fs)"
    "for_each fs (trim_field (bs_bean st)) s = (Inr (), s1)"
  defines "es \<equiv> form_errors nt fs (heap s1 (bs_bean st))"
  shows "map_of (beanStates (snd (onViewMode nt cfg name s))) name
    = Some (st\<lparr>fieldErrors := Some es, editMode := editMode st \<and> es \<noteq> []\<rparr>)"
proof -
  have s1: "beanStates s1 = beanStates s"
    using leavesD [OF leaves_trim_states, of fs "bs_bean st" s] assms(5) by simp
  then have st1: "map_of (beanStates s1) name = Some st" using assms(1) by simp
  obtain s2 where v: "validateBeanState nt fs name s1 = (Inr (es = []), s2)"
    and st2: "map_of (beanStates s2) name = Some (st\<lparr>fieldErrors := Some es\<rparr>)"
    using validateBeanState_run [OF assms(3,4) st1] by (cases "validateBeanState nt fs name s1") (auto simp: es_def)
  let ?s3 = "if es = [] then s2\<lparr>beanStates := obj_upd name (\<lambda>b. b\<lparr>editMode := False\<rparr>) (beanStates s2)\<rparr> else s2"
  have "snd (onViewMode nt cfg name s) = snd (render cfg ?s3)"
    using assms(1,2,5) v
    by (simp add: onViewMode_def get_state_def get_config_def seq_def andthen_def ret_def whenever_def
        set_state_def update_def)
  then have "beanStates (snd (onViewMode nt cfg name s)) = beanStates ?s3"
    by (simp add: leavesD [OF leaves_render_states])
  with st2 show ?thesis by (auto simp: map_of_obj_upd)
qed

section \<open>Properties\<close>

text \<open>A small form: a required number between 0 and 100 and a repeated mail address.\<close>

definition sample_fields :: "field_config list" where
  "sample_fields =
    [(plain_field ''age'')\<lparr>fc_required := True, fc_validator := Some
       \<lparr>v_name = ''integer'', v_errorMsg = None, v_from = Some 0, v_to = Some 100\<rparr>\<rparr>,
     (plain_field ''mail'')\<lparr>fc_multiple := Some True, fc_default := JArr [JStr ''a@b.c''], fc_validator := Some
       \<lparr>v_name = ''email'', v_errorMsg = None, v_from = None, v_to = None\<rparr>\<rparr>]"

definition sample_form :: "string option \<Rightarrow> form_config" where
  "sample_form ty = \<lparr>cf_type = ty, cf_beans = [(''user'', sample_fields)]\<rparr>"

lemma sample_form_config: "getBeanConfig (sample_form None) ''user'' = Some sample_fields"
  by (simp add: getBeanConfig_def sample_form_def)

text \<open>
  C1: whatever sequence of events a form that was bound goes through, exactly one of its blocks
  is shown and no two blocks have the same name.
\<close>
theorem form_shows_one_block:
  assumes "form_reachable nt cfg s"
  shows "\<exists>name. shown_blocks s = [name] \<and> name \<in> set (obj_keys (beanStates s)) \<and>
     distinct (obj_keys (beanStates s))"
proof -
  from form_reachable_selected [OF assms] obtain name where name: "shown_blocks s = [name]"
    by (auto simp: one_selected_def length_Suc_conv)
  then have "name \<in> set (shown_blocks s)" by simp
  then have "name \<in> set (obj_keys (beanStates s))" by (auto simp: shown_blocks_def obj_keys_def)
  with name form_reachable_selected [OF assms] show ?thesis by (simp add: one_selected_def)
qed

theorem form_shows_one_block_witness:
  "let cfg = sample_form (Some ''array'');
       s = snd (onDeleteBean cfg ''user_1'' (snd (onAddBean cfg
             (snd (bind_array cfg ''user'' [7] (empty_form (\<lambda>_. []) 8))))))
   in (\<exists>name. shown_blocks s = [name]) \<and> shown_blocks s = [''user_0'']"
proof -
  let ?cfg = "sample_form (Some ''array'')"
  let ?s1 = "snd (onAddBean ?cfg (snd (bind_array ?cfg ''user'' [7] (empty_form (\<lambda>_. []) 8))))"
  have "obj_keys (beanStates ?s1) = [''user_0'', ''user_1'']" by code_simp
  then have "form_reachable (\<lambda>_. []) ?cfg (snd (onDeleteBean ?cfg ''user_1'' ?s1))"
    by (intro form_reachable.by_event [OF form_reachable.by_event [OF form_reachable.by_array
          ev_add] ev_delete]) (simp_all add: sample_form_def)
  from form_shows_one_block [OF this]
  have "\<exists>name. shown_blocks (snd (onDeleteBean ?cfg ''user_1'' ?s1)) = [name]" by blast
  moreover have "shown_blocks (snd (onDeleteBean ?cfg ''user_1'' ?s1)) = [''user_0'']" by code_simp
  ultimately show ?thesis by (simp add: Let_def)
qed

text \<open>
  C3: the blocks of an array form mirror the caller's array after every sequence of events:
  the array is never empty, the blocks are numbered from 0 in its order, and each is bound to
  the entry of its number.
\<close>
theorem array_form_mirrors_array:
  assumes "array_form nt cfg s"
  shows "\<exists>xs. beanArray s = Some xs \<and> xs \<noteq> [] \<and>
     map (\<lambda>(k, b). (k, bs_bean b)) (beanStates s)
       = map (\<lambda>i. (indexed_name (beanName s) i, xs ! i)) [0..<length xs]"
proof -
  from array_form_in_step [OF assms] obtain xs where "beanArray s = Some xs" "xs \<noteq> []"
    "map (\<lambda>(k, b). (k, bs_bean b)) (beanStates s) = zip (map (indexed_name (beanName s)) [0..<length xs]) xs"
    by (auto simp: in_step_def)
  moreover have "zip (map (indexed_name (beanName s)) [0..<length xs]) xs
      = map (\<lambda>i. (indexed_name (beanName s) i, xs ! i)) [0..<length xs]"
    by (rule nth_equalityI) simp_all
  ultimately show ?thesis by auto
qed

theorem array_form_mirrors_array_witness:
  "let cfg = sample_form (Some ''array'');
       s = snd (onAddBean cfg (snd (bind_array cfg ''user'' [] (empty_form (\<lambda>_. []) 8))))
   in beanArray s = Some [8, 9] \<and> map (\<lambda>(k, b). (k, bs_bean b)) (beanStates s) = [(''user_0'', 8), (''user_1'', 9)]"
proof -
  let ?cfg = "sample_form (Some ''array'')"
  let ?s = "snd (onAddBean ?cfg (snd (bind_array ?cfg ''user'' [] (empty_form (\<lambda>_. []) 8))))"
  have "array_form (\<lambda>_. []) ?cfg ?s"
    by (intro array_event [OF array_bound ev_add]) (simp add: sample_form_def)
  note array_form_mirrors_array [OF this]
  moreover have "beanArray ?s = Some [8, 9]" "beanName ?s = ''user''" by code_simp+
  moreover have "map (\<lambda>i. (indexed_name ''user'' i, [8, 9::nat] ! i)) [0..<length [8, 9::nat]]
      = [(''user_0'', 8), (''user_1'', 9)]" by code_simp
  ultimately show ?thesis by (auto simp: Let_def)
qed

text \<open>
  C13: deleting block number \<open>i\<close> of an array form takes exactly entry \<open>i\<close> out of the caller's
  array, and when it was the only one puts a new bean in its place; adding appends one.
\<close>
theorem delete_and_add_beans:
  assumes "array_form nt cfg s" and "beanArray s = Some xs" and "i < length xs"
  shows "beanArray (snd (onDeleteBean cfg (indexed_name (beanName s) i) s))
           = Some (if length xs = 1 then [fresh s] else take i xs @ drop (Suc i) xs) \<and>
         beanArray (snd (onAddBean cfg s)) = Some (xs @ [fresh s])"
  using in_step_onDeleteBean(2) [OF array_form_in_step [OF assms(1)] assms(2,3)]
    in_step_onAddBean(2) [OF array_form_in_step [OF assms(1)]] assms(2) by simp

theorem delete_and_add_beans_witness:
  "let cfg = sample_form (Some ''array''); s = snd (bind_array cfg ''user'' [3, 5, 7] (empty_form (\<lambda>_. []) 8))
   in beanArray (snd (onDeleteBean cfg ''user_1'' s)) = Some [3, 7] \<and>
      beanArray (snd (onAddBean cfg s)) = Some [3, 5, 7, 8]"
proof -
  let ?cfg = "sample_form (Some ''array'')"
  let ?s = "snd (bind_array ?cfg ''user'' [3, 5, 7] (empty_form (\<lambda>_. []) 8))"
  have "array_form (\<lambda>_. []) ?cfg ?s" by (intro array_bound) (simp add: sample_form_def)
  moreover have "beanArray ?s = Some [3, 5, 7]" "indexed_name (beanName ?s) 1 = ''user_1''" "fresh ?s = 8"
    by code_simp+
  ultimately show ?thesis
    using delete_and_add_beans [of "\<lambda>_. []" ?cfg ?s "[3, 5, 7]" 1] by (simp add: Let_def)
qed

text \<open>
  Two ways to lose the old value, outside the next property. The form compares loosely, so a number
  replaced by its own text keeps no copy to restore from, and the bean then holds the text; and
  the OK button trims the texts without keeping a copy.
\<close>

lemma number_becomes_text:
  "let cfg = sample_form None;
       s = snd (bind_bean cfg ''user'' 0 False (empty_form (\<lambda>_. [(''age'', JNum (Fin 5))]) 1));
       s' = snd (onChangeInput (\<lambda>_. []) cfg ''user'' ''age'' ''5'' s)
   in heap (snd (restoreBeanState cfg ''user'' s')) 0 = [(''age'', JStr ''5'')]"
  by code_simp

lemma trimmed_text_stays:
  "let cfg = sample_form None;
       b = [(''age'', JStr ''41''), (''mail'', JArr [JStr '' x@y.z''])];
       s = snd (onEditMode cfg ''user'' (snd (bind_bean cfg ''user'' 0 False (empty_form (\<lambda>_. b) 1))));
       s' = snd (onViewMode (\<lambda>_. []) cfg ''user'' s)
   in get_prop (heap (snd (restoreBeanState cfg ''user'' s')) 0) ''mail'' = JArr [JStr ''x@y.z'']"
  by code_simp

text \<open>
  C2: a block's bean holds only texts, \<open>null\<close> and, in repeated fields, arrays of texts, with every repeated field present,
  no copy of it is kept yet, and every bean of the form is bound under one name only. After any
  sequence of changed inputs, added inputs, opened and toggled blocks, on whatever blocks of the
  form, restoring the block gives its bean back every property it had when the sequence began.
  A click on OK, which trims and validates, is not among these edits.
\<close>
theorem restore_undoes_edits:
  assumes "map_of (beanStates s) name = Some st" and "origin st = None"
    and "distinct (map (\<lambda>(n, st). bs_bean st) (beanStates s))"
    and "getBeanConfig cfg name = Some fs" and "text_bean fs (heap s (bs_bean st))"
    and "edits nt cfg s s'"
  shows "heap (snd (restoreBeanState cfg name s')) (bs_bean st) = heap s (bs_bean st)"
  using heap_restored [OF restorable_edits [OF assms(6) restorable_fresh [OF assms(1,2) refl assms(3)] assms(4,5)] assms(4,5)] .

theorem restore_undoes_edits_witness:
  "let cfg = sample_form None;
       b = [(''age'', JStr ''41''), (''mail'', JArr [JStr ''x@y.z''])];
       s = snd (bind_bean cfg ''user'' 0 False (empty_form (\<lambda>_. b) 1));
       s' = snd (onAddInput ''user'' ''mail'' (snd (onChangeInput (\<lambda>_. []) cfg ''user'' ''age'' ''42'' s)))
   in get_prop (heap s' 0) ''age'' = JStr ''42'' \<and> heap (snd (restoreBeanState cfg ''user'' s')) 0 = b"
proof -
  let ?cfg = "sample_form None"
  let ?b = "[(''age'', JStr ''41''), (''mail'', JArr [JStr ''x@y.z''])]"
  let ?s = "snd (bind_bean ?cfg ''user'' 0 False (empty_form (\<lambda>_. ?b) 1))"
  let ?s' = "snd (onAddInput ''user'' ''mail'' (snd (onChangeInput (\<lambda>_. []) ?cfg ''user'' ''age'' ''42'' ?s)))"
  have 1: "beanStates ?s = [(''user'', new_state 0 False True)]" by code_simp
  have 2: "heap ?s 0 = ?b" "get_prop (heap ?s' 0) ''age'' = JStr ''42''"
    "text_bean sample_fields ?b" by code_simp+
  have "edits (\<lambda>_. []) ?cfg ?s ?s'" by (intro edits.intros)
  with restore_undoes_edits [of ?s "''user''" "new_state 0 False True" ?cfg sample_fields "\<lambda>_. []" ?s'] 1 2 sample_form_config
  show ?thesis by (simp add: Let_def new_state_def)
qed

text \<open>
  C14: validating a bean reports exactly its invalid fields: the result is true when no field
  of the configuration is in error, and the errors kept for the template are those of the
  fields in error, in the order of the configuration, judged on the bean as it was before.
\<close>
theorem validation_reports_exactly:
  assumes "map_of (beanStates s) name = Some st" and "known_validators nt fs"
    and "distinct (map fc_field fs)"
  shows "\<exists>st'. fst (validateBeanState nt fs name s)
             = Inr (\<forall>f \<in> set fs. field_error nt (heap s (bs_bean st)) f = None) \<and>
           map_of (beanStates (snd (validateBeanState nt fs name s))) name = Some st' \<and>
           fieldErrors st' = Some (form_errors nt fs (heap s (bs_bean st)))"
  using validateBeanState_run [OF assms(2,3,1)] form_errors_Nil_iff [of nt fs] by simp

theorem validation_reports_exactly_witness:
  "let b = [(''age'', JStr ''142''), (''mail'', JArr [JStr ''x@y.z'', JStr ''?''])];
       s = snd (bind_bean (sample_form None) ''user'' 0 False (empty_form (\<lambda>_. b) 1))
   in map_option fieldErrors (map_of (beanStates (snd (validateBeanState (\<lambda>_. []) sample_fields ''user'' s))) ''user'')
     = Some (Some [(''age'', ThrownString ''the value need to be less than or equal to 100''),
        (''mail'', ThrownString ''Expect a valid email address in the form name@host.domain'')])"
proof -
  let ?b = "[(''age'', JStr ''142''), (''mail'', JArr [JStr ''x@y.z'', JStr ''?''])]"
  let ?s = "snd (bind_bean (sample_form None) ''user'' 0 False (empty_form (\<lambda>_. ?b) 1))"
  have 1: "map_of (beanStates ?s) ''user'' = Some (new_state 0 False True)" "heap ?s 0 = ?b" by code_simp+
  have 2: "known_validators (\<lambda>_. []) sample_fields" "distinct (map fc_field sample_fields)" by code_simp+
  have 3: "form_errors (\<lambda>_. []) sample_fields ?b
     = [(''age'', ThrownString ''the value need to be less than or equal to 100''),
        (''mail'', ThrownString ''Expect a valid email address in the form name@host.domain'')]" by code_simp
  have 4: "bs_bean (new_state 0 False True) = 0" by (simp add: new_state_def)
  from validation_reports_exactly [OF 1(1) 2] show ?thesis unfolding 4 1(2) 3 by (auto simp: Let_def)
qed

text \<open>
  C15: the OK button closes the editable form exactly when the trimmed bean has no field in
  error; otherwise the form stays in its mode with those errors.
\<close>
theorem view_mode_only_when_valid:
  assumes "map_of (beanStates s) name = Some st" and "getBeanConfig cfg name = Some fs"
    and "known_validators nt fs" and "distinct (map fc_field fs)"
    and "for_each fs (trim_field (bs_bean st)) s = (Inr (), s1)"
  shows "\<exists>st'. map_of (beanStates (snd (onViewMode nt cfg name s))) name = Some st' \<and>
           (editMode st' \<longleftrightarrow> editMode st \<and> (\<exists>f \<in> set fs. field_error nt (heap s1 (bs_bean st)) f \<noteq> None)) \<and>
           fieldErrors st' = Some (form_errors nt fs (heap s1 (bs_bean st))) \<and> bs_bean st' = bs_bean st"
  using onViewMode_states [OF assms] form_errors_Nil_iff [of nt fs "heap s1 (bs_bean st)"] by auto

theorem view_mode_only_when_valid_witness:
  "let b = [(''age'', JStr ''42''), (''mail'', JArr [JStr '' x@y.z '', JStr '' ''])]; cfg = sample_form None;
       s = snd (onEditMode cfg ''user'' (snd (bind_bean cfg ''user'' 0 False (empty_form (\<lambda>_. b) 1))))
   in map_option editMode (map_of (beanStates s) ''user'') = Some True \<and>
      map_option editMode (map_of (beanStates (snd (onViewMode (\<lambda>_. []) cfg ''user'' s))) ''user'') = Some False"
proof -
  let ?b = "[(''age'', JStr ''42''), (''mail'', JArr [JStr '' x@y.z '', JStr '' ''])]" and ?cfg = "sample_form None"
  let ?s = "snd (onEditMode ?cfg ''user'' (snd (bind_bean ?cfg ''user'' 0 False (empty_form (\<lambda>_. ?b) 1))))"
  have 1: "map_of (beanStates ?s) ''user'' = Some (new_state 0 True True)" by code_simp
  have 2: "known_validators (\<lambda>_. []) sample_fields" "distinct (map fc_field sample_fields)" by code_simp+
  have 4: "bs_bean (new_state 0 True True) = 0" "editMode (new_state 0 True True)" by (simp_all add: new_state_def)
  let ?r = "for_each sample_fields (trim_field 0) ?s"
  have 3: "fst ?r = Inr ()" "heap (snd ?r) 0 = [(''age'', JStr ''42''), (''mail'', JArr [JStr ''x@y.z''])]" by code_simp+
  then have r: "?r = (Inr (), snd ?r)" by (metis prod.collapse)
  have 5: "\<forall>f \<in> set sample_fields. field_error (\<lambda>_. []) [(''age'', JStr ''42''), (''mail'', JArr [JStr ''x@y.z''])] f = None"
    by code_simp
  from view_mode_only_when_valid [OF 1 sample_form_config 2, of "snd ?r"] r 5 show ?thesis
    unfolding 4 3 using 1 4 by (auto simp: Let_def)
qed

end
