(* ===== verification/CustomInput.thy ===== *)
theory CustomInput
  imports UIBean "HOL-Library.Sublist"
begin

text \<open>
  The two kinds of input of a form whose behaviour the configuration gives (\<open>ui/UIBean.js\<close>):
  inputs with a search for suggestions, which runs on a timer after the last key, and date
  inputs, whose value is read some time after they were left. The events of the user and of the
  timers come in any order.
\<close>

section \<open>Inputs with suggestions\<close>

text \<open>
  The functions of \<open>field.custom\<close>: the search, called with a bean or without one, its results
  with their labels (or the exception it raises), the setter and the display. An element of \<open>ci_pending\<close> is a timer that runs:
  the search filter it belongs to and the term. \<open>ci_filter\<close> is \<open>fieldConfig.searchFilter\<close>, and
  \<open>ci_found\<close> is \<open>autocomplete.searchResult\<close>.
\<close>

record custom_config =
  cu_field :: string
  cu_search :: "string \<Rightarrow> obj option \<Rightarrow> (jsval \<times> string) list result"
  cu_set :: "jsval \<Rightarrow> obj \<Rightarrow> obj"
  cu_display :: "obj \<Rightarrow> jsval"

record custom_input =
  ci_bean :: obj
  ci_text :: string
  ci_open :: bool
  ci_found :: "(jsval \<times> string) list option"
  ci_filter :: "nat option"
  ci_next :: nat
  ci_pending :: "(nat \<times> string) list"
  ci_changed :: bool
  ci_selected :: bool

text \<open>\<open>input.val(v)\<close>: a missing value empties the input.\<close>

definition input_text :: "(jsnum \<Rightarrow> string) \<Rightarrow> jsval \<Rightarrow> string" where
  "input_text nt v = (if nullish v then [] else js_text nt v)"

definition new_input :: "(jsnum \<Rightarrow> string) \<Rightarrow> custom_config \<Rightarrow> obj \<Rightarrow> custom_input" where
  "new_input nt cfg b =
     \<lparr>ci_bean = b, ci_text = input_text nt (cu_display cfg b), ci_open = False, ci_found = None, ci_filter = None,
      ci_next = 0, ci_pending = [], ci_changed = False, ci_selected = False\<rparr>"

definition clearTimer :: "nat \<Rightarrow> (nat \<times> string) list \<Rightarrow> (nat \<times> string) list" where
  "clearTimer k ts = filter (\<lambda>(j, _). j \<noteq> k) ts"

text \<open>\<open>SearchFilter.search\<close> and \<open>delaySearch\<close>.\<close>

definition searchLater :: "nat \<Rightarrow> string \<Rightarrow> custom_input \<Rightarrow> custom_input" where
  "searchLater k term s =
     (let s = s\<lparr>ci_pending := clearTimer k (ci_pending s)\<rparr>
      in if term = [] then s\<lparr>ci_open := False\<rparr> else s\<lparr>ci_pending := ci_pending s @ [(k, term)]\<rparr>)"

definition delaySearch :: "custom_config \<Rightarrow> string \<Rightarrow> (custom_input, unit) prog" where
  "delaySearch cfg term =
     seq (reads ci_bean) (\<lambda>b. seq (lift_result (cu_search cfg term (Some b))) (\<lambda>found.
       update (\<lambda>s. s\<lparr>ci_found := Some found, ci_open := True\<rparr>)))"

definition onChangeCustomInput :: "string \<Rightarrow> (custom_input, unit) prog" where
  "onChangeCustomInput val =
     andthen (update (\<lambda>s. s\<lparr>ci_text := val\<rparr>))
     (andthen (update (\<lambda>s. if ci_filter s = None then s\<lparr>ci_filter := Some (ci_next s), ci_next := Suc (ci_next s)\<rparr> else s))
     (andthen (update (\<lambda>s. case ci_filter s of None \<Rightarrow> s | Some k \<Rightarrow> searchLater k val s))
       (update (\<lambda>s. s\<lparr>ci_changed := True\<rparr>))))"

definition timer_fires :: "custom_config \<Rightarrow> nat \<Rightarrow> (custom_input, unit) prog" where
  "timer_fires cfg k =
     seq (reads (\<lambda>s. map_of (ci_pending s) k)) (\<lambda>t. case t of
         None \<Rightarrow> ret ()
       | Some term \<Rightarrow> andthen (update (\<lambda>s. s\<lparr>ci_pending := clearTimer k (ci_pending s)\<rparr>)) (delaySearch cfg term))"

definition onSelectCustomInput :: "(jsnum \<Rightarrow> string) \<Rightarrow> custom_config \<Rightarrow> nat \<Rightarrow> (custom_input, unit) prog" where
  "onSelectCustomInput nt cfg i =
     seq (reads ci_found) (\<lambda>r. case r of
         None \<Rightarrow> throw (TypeError (show_nat i))
       | Some xs \<Rightarrow>
           if i < length xs
           then update (\<lambda>s. let b = cu_set cfg (fst (xs ! i)) (ci_bean s)
             in s\<lparr>ci_bean := b, ci_text := input_text nt (cu_display cfg b), ci_open := False, ci_selected := True\<rparr>)
           else throw (TypeError ''value''))"

text \<open>A text that starts with \<open>$@\<close> takes the first result of a search for the rest.\<close>

definition onBlurCustomInput :: "(jsnum \<Rightarrow> string) \<Rightarrow> custom_config \<Rightarrow> (custom_input, unit) prog" where
  "onBlurCustomInput nt cfg =
     seq (reads (\<lambda>s. s)) (\<lambda>s.
     andthen
       (if prefix ''$@'' (ci_text s) then
          seq (lift_result (cu_search cfg (drop 2 (ci_text s)) None)) (\<lambda>found. case found of
             [] \<Rightarrow> throw (TypeError ''value'')
           | (v, _) # _ \<Rightarrow> update (\<lambda>s. let b = cu_set cfg v (ci_bean s)
               in s\<lparr>ci_bean := b, ci_text := input_text nt (cu_display cfg b)\<rparr>))
        else whenever (ci_changed s \<and> \<not> ci_selected s)
          (update (\<lambda>s. s\<lparr>ci_bean := obj_put (cu_field cfg) JNull (ci_bean s), ci_text := []\<rparr>)))
       (update (\<lambda>s. s\<lparr>ci_selected := False, ci_changed := False, ci_filter := None, ci_open := False\<rparr>)))"

datatype input_event = Keyup string | TimeUp nat | Mousedown nat | Blur

fun input_step :: "(jsnum \<Rightarrow> string) \<Rightarrow> custom_config \<Rightarrow> input_event \<Rightarrow> (custom_input, unit) prog" where
  "input_step nt cfg (Keyup val) = onChangeCustomInput val"
| "input_step nt cfg (TimeUp k) = timer_fires cfg k"
| "input_step nt cfg (Mousedown i) = onSelectCustomInput nt cfg i"
| "input_step nt cfg Blur = onBlurCustomInput nt cfg"

text \<open>The state after a list of events; an exception ends only its event.\<close>

definition input_run :: "(jsnum \<Rightarrow> string) \<Rightarrow> custom_config \<Rightarrow> input_event list \<Rightarrow> custom_input \<Rightarrow> custom_input" where
  "input_run nt cfg es s = foldl (\<lambda>s e. snd (input_step nt cfg e s)) s es"

section \<open>Date inputs\<close>

record date_input =
  dt_text :: string
  dt_bean :: obj
  dt_pending :: nat

definition onFocusDatePickerInput :: "(date_input, unit) prog" where
  "onFocusDatePickerInput = ret ()"

definition onBlurDatePickerInput :: "(date_input, unit) prog" where
  "onBlurDatePickerInput = update (\<lambda>d. d\<lparr>dt_pending := Suc (dt_pending d)\<rparr>)"

text \<open>The timer reads the input when it fires; \<open>setDate\<close> is \<open>fieldConfig.datepicker.setDate\<close>.\<close>

definition date_timer_fires :: "(string \<Rightarrow> obj \<Rightarrow> obj) \<Rightarrow> (date_input, unit) prog" where
  "date_timer_fires setDate =
     update (\<lambda>d. if dt_pending d = 0 then d
       else d\<lparr>dt_bean := setDate (dt_text d) (dt_bean d), dt_pending := dt_pending d - 1\<rparr>)"

section \<open>The timers\<close>

text \<open>Each filter has one timer at most, and filters are numbered in the order they were made.\<close>

definition timers_ok :: "custom_input \<Rightarrow> bool" where
  "timers_ok s \<longleftrightarrow> distinct (map fst (ci_pending s)) \<and> list_all (\<lambda>(k, t). k < ci_next s) (ci_pending s) \<and>
     pred_option (\<lambda>k. k < ci_next s) (ci_filter s)"

lemma clearTimer_facts:
  "set (map fst (clearTimer k ts)) = set (map fst ts) - {k}"
  "distinct (map fst ts) \<Longrightarrow> distinct (map fst (clearTimer k ts))"
  "list_all P ts \<Longrightarrow> list_all P (clearTimer k ts)"
  by (induction ts) (auto simp: clearTimer_def)

lemma map_of_clearTimer: "map_of (clearTimer k ts) j = (if j = k then None else map_of ts j)"
  by (induction ts) (auto simp: clearTimer_def)

lemma timers_search: "timers_ok s \<Longrightarrow> k < ci_next s \<Longrightarrow> timers_ok (searchLater k t s)"
  using clearTimer_facts(1) [of k "ci_pending s"]
  by (auto simp: timers_ok_def searchLater_def Let_def clearTimer_facts(2,3))

lemma keyup_state:
  "ci_filter s = None \<Longrightarrow> snd (onChangeCustomInput val s) =
     (searchLater (ci_next s) val (s\<lparr>ci_text := val, ci_filter := Some (ci_next s), ci_next := Suc (ci_next s)\<rparr>))\<lparr>ci_changed := True\<rparr>"
  "ci_filter s = Some k \<Longrightarrow> snd (onChangeCustomInput val s) = (searchLater k val (s\<lparr>ci_text := val\<rparr>))\<lparr>ci_changed := True\<rparr>"
  by (simp_all add: onChangeCustomInput_def prog_defs)

lemma timers_keyup:
  assumes "timers_ok s"
  shows "timers_ok (snd (onChangeCustomInput val s))"
proof (cases "ci_filter s")
  case None
  let ?s = "s\<lparr>ci_text := val, ci_filter := Some (ci_next s), ci_next := Suc (ci_next s)\<rparr>"
  have "timers_ok ?s" using assms by (auto simp: timers_ok_def list_all_iff)
  then have "timers_ok (searchLater (ci_next s) val ?s)" by (rule timers_search) simp
  then show ?thesis unfolding keyup_state(1) [OF None] by (simp add: timers_ok_def)
next
  case (Some k)
  let ?s = "s\<lparr>ci_text := val\<rparr>"
  have "timers_ok ?s" "k < ci_next ?s" using assms Some by (auto simp: timers_ok_def)
  then have "timers_ok (searchLater k val ?s)" by (rule timers_search)
  then show ?thesis unfolding keyup_state(2) [OF Some] by (simp add: timers_ok_def)
qed

lemma timers_step: "timers_ok s \<Longrightarrow> timers_ok (snd (input_step nt cfg e s))"
proof (cases e)
  case (TimeUp k)
  then show "timers_ok s \<Longrightarrow> ?thesis"
    by (auto simp: timer_fires_def prog_defs timers_ok_def delaySearch_def clearTimer_facts(2,3) split: option.split sum.split)
next
  case (Mousedown i)
  then show "timers_ok s \<Longrightarrow> ?thesis"
    by (auto simp: onSelectCustomInput_def prog_defs timers_ok_def Let_def split: option.splits)
next
  case Blur
  then show "timers_ok s \<Longrightarrow> ?thesis"
    by (auto simp: onBlurCustomInput_def prog_defs timers_ok_def Let_def split: list.splits option.splits sum.splits)
qed (simp add: timers_keyup)

lemma timers_run: "timers_ok s \<Longrightarrow> timers_ok (input_run nt cfg es s)"
  unfolding input_run_def by (induction es arbitrary: s) (auto intro: timers_step)

lemma timers_new: "timers_ok (new_input nt cfg b)"
  by (simp add: timers_ok_def new_input_def)

section \<open>Properties\<close>

text \<open>What typing leaves: the filter of the first key, with a timer for the last text only.\<close>

definition typing :: "nat \<Rightarrow> string \<Rightarrow> custom_input \<Rightarrow> bool" where
  "typing k t s \<longleftrightarrow> ci_filter s = Some k \<and> ci_text s = t \<and> ci_changed s \<and>
     map_of (ci_pending s) k = (if t = [] then None else Some t)"

lemma typing_search:
  assumes "timers_ok s" "ci_filter s = Some k" "ci_text s = t"
  shows "typing k t ((searchLater k t s)\<lparr>ci_changed := True\<rparr>)"
  using assms by (auto simp: typing_def searchLater_def Let_def map_of_clearTimer map_add_def)

lemma typing_keyup: "timers_ok s \<Longrightarrow> ci_filter s = Some k \<Longrightarrow> typing k t (snd (onChangeCustomInput t s))"
  using typing_search [of "s\<lparr>ci_text := t\<rparr>" k t] by (simp add: keyup_state(2) timers_ok_def)

lemma typing_first:
  assumes "timers_ok s" "ci_filter s = None"
  shows "typing (ci_next s) t (snd (onChangeCustomInput t s))"
proof -
  let ?s = "s\<lparr>ci_text := t, ci_filter := Some (ci_next s), ci_next := Suc (ci_next s)\<rparr>"
  have "timers_ok ?s" using assms(1) by (auto simp: timers_ok_def list_all_iff)
  then show ?thesis using typing_search [of ?s "ci_next s" t] by (simp add: keyup_state(1) [OF assms(2)])
qed

lemma typing_run:
  "timers_ok s \<Longrightarrow> ci_filter s = Some k \<Longrightarrow> ts \<noteq> [] \<Longrightarrow> typing k (last ts) (input_run nt cfg (map Keyup ts) s)"
proof (induction ts arbitrary: s)
  case (Cons t ts)
  let ?s = "snd (onChangeCustomInput t s)"
  have t: "typing k t ?s" using typing_keyup Cons(2,3) by blast
  show ?case
  proof (cases "ts = []")
    case True
    with t show ?thesis by (simp add: input_run_def)
  next
    case False
    moreover have "timers_ok ?s" using Cons(2) by (rule timers_keyup)
    moreover have "ci_filter ?s = Some k" using t by (simp add: typing_def)
    ultimately show ?thesis using Cons(1) [of ?s] by (simp add: input_run_def)
  qed
qed simp

lemma input_run_append: "input_run nt cfg (es @ es') s = input_run nt cfg es' (input_run nt cfg es s)"
  by (simp add: input_run_def)

text \<open>
  C18: Typing. After any events that left the input, however many keys follow before a pause, one
  timer runs for them, with the last text: when it fires, that text and the current bean are
  searched and the suggestions are shown, unless the search raises; an emptied input has no timer
  and shows none.\<close>
theorem typing_searches_last_text:
  assumes "s = input_run nt cfg es (new_input nt cfg b)" and "ci_filter s = None" and "ts \<noteq> []"
  shows "let k = ci_next s; s' = input_run nt cfg (map Keyup ts) s; s'' = input_run nt cfg [TimeUp k] s'
    in distinct (map fst (ci_pending s')) \<and>
       (if last ts = [] then map_of (ci_pending s') k = None \<and> s'' = s'
        else map_of (ci_pending s') k = Some (last ts) \<and>
          map_of (ci_pending s'') k = None \<and>
          (case cu_search cfg (last ts) (Some (ci_bean s')) of
             Inr found \<Rightarrow> ci_found s'' = Some found \<and> ci_open s''
           | Inl e \<Rightarrow> ci_found s'' = ci_found s' \<and> ci_open s'' = ci_open s'))"
proof -
  let ?k = "ci_next s" and ?s' = "input_run nt cfg (map Keyup ts) s"
  have ok: "timers_ok s" unfolding assms(1) by (intro timers_run timers_new)
  obtain t us where ts: "ts = t # us" using assms(3) by (cases ts) auto
  let ?s1 = "snd (onChangeCustomInput t s)"
  have first: "typing ?k t ?s1" by (rule typing_first [OF ok assms(2)])
  have "typing ?k (last ts) ?s'"
  proof (cases "us = []")
    case True
    with first show ?thesis by (simp add: ts input_run_def)
  next
    case False
    have "ci_filter ?s1 = Some ?k" using first by (simp add: typing_def)
    from typing_run [OF timers_keyup [OF ok] this False] False show ?thesis by (simp add: ts input_run_def)
  qed
  moreover have "timers_ok ?s'" by (rule timers_run [OF ok])
  ultimately show ?thesis
    by (simp add: Let_def timers_ok_def typing_def input_run_def [of _ _ "[TimeUp ?k]"] timer_fires_def prog_defs delaySearch_def
        map_of_clearTimer split: sum.split)
qed

definition demo_input :: custom_config where
  "demo_input = \<lparr>cu_field = ''customField'', cu_search = (\<lambda>term b. Inr [(JStr ''custom 1'', ''Custom(1)'')]),
     cu_set = obj_put ''nestedObject'', cu_display = (\<lambda>b. get_prop b ''nestedObject'')\<rparr>"

theorem typing_searches_last_text_witness:
  "ci_open (input_run (\<lambda>_. []) demo_input [Keyup ''a'', Keyup ''ab'', TimeUp 0] (new_input (\<lambda>_. []) demo_input []))"
proof -
  let ?s = "new_input (\<lambda>_. []) demo_input []"
  have "?s = input_run (\<lambda>_. []) demo_input [] ?s" "ci_filter ?s = None" "ci_next ?s = 0" "[''a'', ''ab''] \<noteq> []"
    by (simp_all add: input_run_def new_input_def)
  with typing_searches_last_text [of ?s "\<lambda>_. []" demo_input "[]" "[]" "[''a'', ''ab'']"]
  have "ci_open (input_run (\<lambda>_. []) demo_input [TimeUp 0] (input_run (\<lambda>_. []) demo_input (map Keyup [''a'', ''ab'']) ?s))"
    by (simp add: Let_def demo_input_def del: list.map)
  then show ?thesis by (simp add: input_run_def)
qed

text \<open>The value a text after \<open>$@\<close> stands for: the first result of the search, if there is one.\<close>

definition first_found :: "custom_config \<Rightarrow> custom_input \<Rightarrow> jsval option" where
  "first_found cfg s =
     (case cu_search cfg (drop 2 (ci_text s)) None of
        Inl _ \<Rightarrow> None
      | Inr [] \<Rightarrow> None
      | Inr (x # _) \<Rightarrow> Some (fst x))"

definition tidy :: "custom_input \<Rightarrow> custom_input" where
  "tidy s = s\<lparr>ci_selected := False, ci_changed := False, ci_filter := None, ci_open := False\<rparr>"

lemma blur_state:
  "prefix ''$@'' (ci_text s) \<Longrightarrow> first_found cfg s = None \<Longrightarrow>
     \<not> is_ok (fst (onBlurCustomInput nt cfg s)) \<and> input_run nt cfg [Blur] s = s"
  "prefix ''$@'' (ci_text s) \<Longrightarrow> first_found cfg s = Some v \<Longrightarrow>
     input_run nt cfg [Blur] s = tidy (s\<lparr>ci_bean := cu_set cfg v (ci_bean s),
       ci_text := input_text nt (cu_display cfg (cu_set cfg v (ci_bean s)))\<rparr>)"
  "\<not> prefix ''$@'' (ci_text s) \<Longrightarrow>
     input_run nt cfg [Blur] s = tidy
       (if ci_changed s \<and> \<not> ci_selected s then s\<lparr>ci_bean := obj_put (cu_field cfg) JNull (ci_bean s), ci_text := []\<rparr> else s)"
  by (auto simp: input_run_def onBlurCustomInput_def prog_defs first_found_def tidy_def Let_def
      split: sum.splits list.splits)

lemma tidy_simps [simp]:
  "ci_filter (tidy s) = None" "\<not> ci_changed (tidy s)" "\<not> ci_selected (tidy s)" "\<not> ci_open (tidy s)"
  "ci_pending (tidy s) = ci_pending s" "ci_bean (tidy s) = ci_bean s" "ci_text (tidy s) = ci_text s"
  by (simp_all add: tidy_def)

lemma time_up_opens:
  "map_of (ci_pending s) k = Some t \<Longrightarrow> is_ok (cu_search cfg t (Some (ci_bean s))) \<Longrightarrow> ci_open (input_run nt cfg [TimeUp k] s)"
  by (auto simp: input_run_def timer_fires_def prog_defs delaySearch_def is_ok_iff)

text \<open>
  C19: Leaving an input, in any state. A text that starts with \<open>$@\<close> sets the first value that a search
  for the rest of it finds, and the input shows the display of the field; when the search raises or finds
  nothing, the handler raises and changes nothing. Of the other texts, one that was typed and for
  which nothing was picked empties the input and sets the property of the field's name to \<open>null\<close>;
  otherwise the text and the bean stay as they are (a pick has set its value already). Where the
  display of the field reads other properties, as in the demo of nested objects, the emptied input
  hides a value that the bean keeps. A timer that runs while the input is left opens the
  suggestions again, if its search returns.\<close>
theorem leaving_custom_input:
  "let s' = input_run nt cfg [Blur] s; special = prefix ''$@'' (ci_text s)
   in (if special \<and> first_found cfg s = None
       then \<not> is_ok (fst (onBlurCustomInput nt cfg s)) \<and> s' = s
       else ci_filter s' = None \<and> \<not> ci_changed s' \<and> \<not> ci_selected s' \<and> \<not> ci_open s' \<and> ci_pending s' = ci_pending s \<and>
         (if special
          then ci_bean s' = cu_set cfg (the (first_found cfg s)) (ci_bean s) \<and>
            ci_text s' = input_text nt (cu_display cfg (ci_bean s'))
          else if ci_changed s \<and> \<not> ci_selected s
          then ci_text s' = [] \<and> ci_bean s' = obj_put (cu_field cfg) JNull (ci_bean s) \<and>
            ((\<forall>o1. cu_display cfg (obj_put (cu_field cfg) JNull o1) = cu_display cfg o1) \<longrightarrow>
               cu_display cfg (ci_bean s') = cu_display cfg (ci_bean s))
          else ci_text s' = ci_text s \<and> ci_bean s' = ci_bean s)) \<and>
      (\<forall>k t. map_of (ci_pending s) k = Some t \<longrightarrow> is_ok (cu_search cfg t (Some (ci_bean s'))) \<longrightarrow>
         ci_open (input_run nt cfg [TimeUp k] s'))"
  by (cases "prefix ''$@'' (ci_text s)"; cases "first_found cfg s")
     (auto simp: Let_def blur_state intro: time_up_opens)

theorem leaving_custom_input_witness:
  "let s = input_run (\<lambda>_. []) demo_input [Keyup ''a''] (new_input (\<lambda>_. []) demo_input [(''nestedObject'', JStr ''old'')]);
       s' = input_run (\<lambda>_. []) demo_input [Blur] s;
       u = input_run (\<lambda>_. []) demo_input [Blur] (s\<lparr>ci_text := ''$@cust''\<rparr>)
   in ci_text s' = [] \<and> get_prop (ci_bean s') ''nestedObject'' = JStr ''old'' \<and>
      get_prop (ci_bean u) ''nestedObject'' = JStr ''custom 1''"
proof -
  let ?s0 = "new_input (\<lambda>_. []) demo_input [(''nestedObject'', JStr ''old'')]"
  let ?s = "input_run (\<lambda>_. []) demo_input [Keyup ''a''] ?s0"
  let ?u = "?s\<lparr>ci_text := ''$@cust''\<rparr>"
  have s: "ci_text ?s = ''a''" "ci_changed ?s" "\<not> ci_selected ?s" "ci_bean ?s = [(''nestedObject'', JStr ''old'')]"
    by (simp_all add: input_run_def new_input_def onChangeCustomInput_def searchLater_def Let_def prog_defs)
  have u: "first_found demo_input ?u = Some (JStr ''custom 1'')"
    by (simp add: first_found_def demo_input_def)
  have "\<forall>o1. cu_display demo_input (obj_put (cu_field demo_input) JNull o1) = cu_display demo_input o1"
    by (simp add: demo_input_def)
  with leaving_custom_input [of "\<lambda>_. []" demo_input ?s] leaving_custom_input [of "\<lambda>_. []" demo_input ?u] s u
  show ?thesis by (simp add: Let_def demo_input_def get_prop_def)
qed

end
