(* ===== verification/FormPage.thy ===== *)
theory FormPage
  imports UIBeanValidation CustomInput
begin

text \<open>
  What the template of a form (\<open>ui/UIBean.jtpl\<close>) writes on the page: the kind of input of each
  field, the inputs with their names and texts, the options of a selection and its chosen one, the
  errors, and the table of the view mode. The theory ends with the law that ties the page to the
  handler of the inputs: what is typed into an input is what the form shows there afterwards.

  The template writes texts into the page without escaping them: the value of an input between double
  quotes, that of a text area between its tags. What the browser makes of such a text is a parameter
  (\<open>html\<close>) with the documented behaviour of HTML (\<open>html_reader\<close>): a text without quotes, ampersands,
  less signs and control characters stands for itself, and a quote ends a value.
\<close>

section \<open>Texts on the page\<close>

record html =
  h_attr :: "string \<Rightarrow> string"
  h_area :: "string \<Rightarrow> string"

definition plain_char :: "char \<Rightarrow> bool" where
  "plain_char c \<longleftrightarrow> 32 \<le> (of_char c :: nat) \<and> c \<noteq> CHR 0x22 \<and> c \<noteq> CHR 0x26 \<and> c \<noteq> CHR 0x3C"

definition html_reader :: "html \<Rightarrow> bool" where
  "html_reader pg \<longleftrightarrow> (\<forall>t. list_all plain_char t \<longrightarrow> h_attr pg t = t \<and> h_area pg t = t) \<and>
     (\<forall>t u. CHR 0x22 \<notin> set t \<longrightarrow> h_attr pg (t @ CHR 0x22 # u) = h_attr pg t)"

text \<open>The texts as the template writes them.\<close>

definition raw :: html where
  "raw = \<lparr>h_attr = \<lambda>t. t, h_area = \<lambda>t. t\<rparr>"

lemma raw_simps [simp]: "h_attr raw t = t" "h_area raw t = t"
  by (simp_all add: raw_def)

section \<open>Fields\<close>

record form_field = field_config +
  ff_label :: string
  ff_textarea :: bool
  ff_getDate :: "(obj \<Rightarrow> jsval) option"
  ff_custom :: "custom_config option"

datatype input_kind = SelectInput | RepeatedInput | TextareaInput | DateInput | SuggestInput | TextInput

definition input_kind :: "form_field \<Rightarrow> input_kind" where
  "input_kind f =
     (if fc_options f \<noteq> None then SelectInput
      else if fc_multiple f \<noteq> None then RepeatedInput
      else if ff_textarea f then TextareaInput
      else if ff_getDate f \<noteq> None then DateInput
      else if ff_custom f \<noteq> None then SuggestInput
      else TextInput)"

section \<open>Selections\<close>

text \<open>
  \<open>v == w\<close> for an option's value \<open>w\<close>. Two objects are never the same one: the options are made anew
  when the selection is drawn.
\<close>

definition loose_equal :: "(jsnum \<Rightarrow> string) \<Rightarrow> jsval \<Rightarrow> jsval \<Rightarrow> bool" where
  "loose_equal nt v w =
     (case w of
        JUndef \<Rightarrow> nullish v
      | JNull \<Rightarrow> nullish v
      | JStr s \<Rightarrow> equals_string nt v s
      | JBool b \<Rightarrow> \<not> nullish v \<and> js_to_number v = Fin (if b then 1 else 0)
      | JNum n \<Rightarrow> \<not> nullish v \<and> n \<noteq> NaN \<and> js_to_number v = n
      | JArr ws \<Rightarrow> (case v of
            JStr s \<Rightarrow> s = js_text nt w
          | JBool _ \<Rightarrow> js_to_number v = js_to_number w
          | JNum n \<Rightarrow> n \<noteq> NaN \<and> js_to_number w = n
          | _ \<Rightarrow> False)
      | JObj m \<Rightarrow> v = JStr (js_text nt w))"

text \<open>An option with its value, its label and whether it is selected; a missing value of the field falls back to the default.\<close>

definition select_value :: "field_config \<Rightarrow> obj \<Rightarrow> jsval" where
  "select_value f b = (if nullish (get_prop b (fc_field f)) then fc_default f else get_prop b (fc_field f))"

definition draw_options :: "html \<Rightarrow> (jsnum \<Rightarrow> string) \<Rightarrow> field_config \<Rightarrow> obj \<Rightarrow> (string \<times> string \<times> bool) list" where
  "draw_options pg nt f b =
     (case fc_options f of
        Some opts \<Rightarrow> (case opts (Some b) of
            Some os \<Rightarrow> map (\<lambda>p. (h_attr pg (input_text nt (opt_value p)), opt_label p, loose_equal nt (select_value f b) (opt_value p))) os
          | None \<Rightarrow> [])
      | None \<Rightarrow> [])"

text \<open>The page shows the last selected option, or the first one when none is.\<close>

definition chosen :: "(string \<times> string \<times> bool) list \<Rightarrow> string" where
  "chosen os =
     (case rev (filter (\<lambda>(v, l, sel). sel) os) of
        (v, _, _) # _ \<Rightarrow> v
      | [] \<Rightarrow> (case os of (v, _, _) # _ \<Rightarrow> v | [] \<Rightarrow> []))"

section \<open>The edit mode\<close>

definition item_name :: "string \<Rightarrow> nat \<Rightarrow> string" where
  "item_name name i = name @ ''@'' @ show_nat i"

text \<open>The entries a loop to the length of a value visits: of an array, or the characters of a text.\<close>

definition item_texts :: "(jsnum \<Rightarrow> string) \<Rightarrow> jsval \<Rightarrow> string list" where
  "item_texts nt v =
     (case v of JArr vs \<Rightarrow> map (input_text nt) vs | JStr s \<Rightarrow> map (\<lambda>c. [c]) s | _ \<Rightarrow> [])"

definition repeated_inputs :: "html \<Rightarrow> (jsnum \<Rightarrow> string) \<Rightarrow> string \<Rightarrow> jsval \<Rightarrow> (string \<times> string) list" where
  "repeated_inputs pg nt name v =
     (let ts = item_texts nt (if nullish v then JArr [JStr []] else v)
      in map (\<lambda>(i, t). (item_name name i, h_attr pg t)) (enumerate 0 ts))"

text \<open>The inputs of a field, each with its name and its text.\<close>

definition field_inputs :: "html \<Rightarrow> (jsnum \<Rightarrow> string) \<Rightarrow> obj \<Rightarrow> form_field \<Rightarrow> (string \<times> string) list" where
  "field_inputs pg nt b f =
     (let name = fc_field f; v = get_prop b name in
      case input_kind f of
        SelectInput \<Rightarrow> [(name, chosen (draw_options pg nt (field_config.truncate f) b))]
      | RepeatedInput \<Rightarrow> repeated_inputs pg nt name v
      | TextareaInput \<Rightarrow> [(name, h_area pg (input_text nt v))]
      | DateInput \<Rightarrow> [(name, h_attr pg (input_text nt (case ff_getDate f of Some g \<Rightarrow> g b | None \<Rightarrow> JUndef)))]
      | SuggestInput \<Rightarrow> [(name, h_attr pg (input_text nt (case ff_custom f of Some c \<Rightarrow> cu_display c b | None \<Rightarrow> JUndef)))]
      | TextInput \<Rightarrow> [(name, h_attr pg (input_text nt v))])"

record drawn_row =
  dr_label :: string
  dr_inputs :: "(string \<times> string) list"
  dr_error :: "js_error option"

definition draw_row :: "html \<Rightarrow> (jsnum \<Rightarrow> string) \<Rightarrow> (string \<times> js_error) list option \<Rightarrow> obj \<Rightarrow> form_field \<Rightarrow> drawn_row" where
  "draw_row pg nt errors b f =
     \<lparr>dr_label = (if fc_required f then ''*'' else []) @ ff_label f @ '':'',
      dr_inputs = field_inputs pg nt b f,
      dr_error = (case errors of None \<Rightarrow> None | Some es \<Rightarrow> map_of es (fc_field f))\<rparr>"

definition draw_editable :: "html \<Rightarrow> (jsnum \<Rightarrow> string) \<Rightarrow> form_field list \<Rightarrow> (string \<times> js_error) list option \<Rightarrow> obj \<Rightarrow> drawn_row list" where
  "draw_editable pg nt fs errors b = map (draw_row pg nt errors b) fs"

text \<open>The inputs whose changes \<open>onChangeInput\<close> handles: all but those for dates and suggestions.\<close>

definition changeable :: "form_field \<Rightarrow> bool" where
  "changeable f = (input_kind f \<noteq> DateInput \<and> input_kind f \<noteq> SuggestInput)"

definition change_inputs :: "html \<Rightarrow> (jsnum \<Rightarrow> string) \<Rightarrow> form_field list \<Rightarrow> obj \<Rightarrow> (string \<times> string) list" where
  "change_inputs pg nt fs b = concat (map (field_inputs pg nt b) (filter changeable fs))"

section \<open>The view mode\<close>

definition draw_view :: "(jsnum \<Rightarrow> string) \<Rightarrow> form_field list \<Rightarrow> obj \<Rightarrow> (string \<times> string) list" where
  "draw_view nt fs b =
     map (\<lambda>f. (ff_label f @ '':'',
       input_text nt (case ff_custom f of Some c \<Rightarrow> cu_display c b | None \<Rightarrow> get_prop b (fc_field f)))) fs"

text \<open>
  The buttons below a block: in edit mode restoring, deleting in an array form, and the
  configured actions unless they are disabled; in view mode deleting and editing unless the
  block is read-only.
\<close>

definition edit_buttons :: "bool \<Rightarrow> (bool \<times> string list) option \<Rightarrow> string list" where
  "edit_buttons deletable edit =
     [''Restore''] @ (if deletable then [''Delete''] else []) @ [''OK''] @
     (case edit of None \<Rightarrow> [] | Some (disable, actions) \<Rightarrow> if disable then [] else actions)"

definition view_buttons :: "bool \<Rightarrow> bool \<Rightarrow> string list option \<Rightarrow> bool \<Rightarrow> string list" where
  "view_buttons deletable read_only view disableViewAction =
     (if read_only then [] else (if deletable then [''Delete''] else []) @ [''Edit'']) @
     (case view of None \<Rightarrow> [] | Some actions \<Rightarrow> if disableViewAction then [] else actions)"

text \<open>The tabs: one per block with whether it is the selected one, and a button to add one to an array.\<close>

definition tab_label :: "form_config \<Rightarrow> (string \<times> string) list \<Rightarrow> string \<Rightarrow> string" where
  "tab_label cfg labels name =
     (if cf_type cfg = Some ''array'' then
        (case map_of labels (before_last CHR ''_'' name) of None \<Rightarrow> ''undefined'' | Some l \<Rightarrow> l) @ '' '' @
        (case parse_int_prefix (after_last CHR ''_'' name) of None \<Rightarrow> ''NaN'' | Some i \<Rightarrow> show_int (i + 1))
      else (case map_of labels name of None \<Rightarrow> [] | Some l \<Rightarrow> l))"

definition draw_tabs :: "form_config \<Rightarrow> (string \<times> string) list \<Rightarrow> ui_bean \<Rightarrow> (string \<times> bool) list \<times> bool" where
  "draw_tabs cfg labels s =
     (if cf_type cfg = None \<or> cf_type cfg = Some ''single'' then ([], False)
      else (map (\<lambda>(n, st). (tab_label cfg labels n, select st)) (beanStates s), cf_type cfg = Some ''array''))"

section \<open>Names of inputs\<close>

lemma at_sign [simp]: "CHR ''@'' \<notin> set (show_nat i)"
  by (rule show_nat_no_char) simp

lemma digits_of_nat [simp]: "takeWhile is_digit (show_nat i) = show_nat i" "dropWhile is_space (show_nat i) = show_nat i"
proof -
  show "takeWhile is_digit (show_nat i) = show_nat i" by (auto simp: takeWhile_eq_all_conv dest: show_nat_digits)
  obtain c cs where c: "show_nat i = c # cs" using show_nat_nonempty by (cases "show_nat i") auto
  then have "is_digit c" using show_nat_digits [of c i] by simp
  with c show "dropWhile is_space (show_nat i) = show_nat i" by (auto simp: is_digit_def is_space_def)
qed

lemma parse_int_prefix_nat [simp]: "parse_int_prefix (show_nat i) = Some (int i)"
proof -
  obtain c cs where c: "show_nat i = c # cs" using show_nat_nonempty by (cases "show_nat i") auto
  then have "is_digit c" using show_nat_digits [of c i] by simp
  then have "c \<noteq> CHR ''-''" "c \<noteq> CHR ''+''" by (auto simp: is_digit_def)
  with c have "is_minus (show_nat i) = False"
    "(case show_nat i of c # r \<Rightarrow> if c = CHR ''-'' \<or> c = CHR ''+'' then r else show_nat i | [] \<Rightarrow> []) = show_nat i"
    by (simp_all add: is_minus_def)
  then show ?thesis by (simp add: parse_int_prefix_def)
qed

lemma split_item:
  assumes "name \<noteq> []"
  shows "split_input_name (item_name name i) = (name, Some (int i))"
proof -
  have rest: "c \<noteq> CHR ''@''" if "c \<in> set (show_nat i)" for c using at_sign that by blast
  then have "dropWhile (\<lambda>d. d \<noteq> CHR ''@'') (rev (show_nat i) @ CHR ''@'' # rev name) = CHR ''@'' # rev name"
    "takeWhile (\<lambda>d. d \<noteq> CHR ''@'') (rev (show_nat i) @ CHR ''@'' # rev name) = rev (show_nat i)"
    using rest by (subst dropWhile_append2; simp) (subst takeWhile_append2; simp add: rest)
  then have "before_last CHR ''@'' (item_name name i) = name" "after_last CHR ''@'' (item_name name i) = show_nat i"
    by (simp_all add: before_last_def after_last_def item_name_def)
  moreover have "CHR ''@'' \<in> set (drop 1 (item_name name i))"
    using assms by (cases name) (simp_all add: item_name_def)
  ultimately show ?thesis by (simp add: split_input_name_def)
qed

lemma split_plain: "CHR ''@'' \<notin> set name \<Longrightarrow> split_input_name name = (name, Some (-1))"
  by (auto simp: split_input_name_def dest: in_set_dropD)

lemma item_name_inject [simp]: "item_name name i = item_name name j \<longleftrightarrow> i = j"
  by (simp add: item_name_def)

section \<open>Typing into an input\<close>

text \<open>
  Forms whose inputs can be told apart: names are distinct, not empty and free of the sign that
  separates an index; a repeated field is no selection, and a selection offers fixed texts; names and
  offered texts are plain.
\<close>

definition field_page_ok :: "form_field \<Rightarrow> bool" where
  "field_page_ok f \<longleftrightarrow> fc_field f \<noteq> [] \<and> CHR ''@'' \<notin> set (fc_field f) \<and> list_all plain_char (fc_field f) \<and> fc_multiple f \<noteq> Some False \<and>
     (case fc_options f of None \<Rightarrow> True
      | Some opts \<Rightarrow> fc_multiple f = None \<and> (\<exists>os. (\<forall>b. opts b = Some os) \<and> list_all (\<lambda>p. \<exists>t. opt_value p = JStr t \<and> list_all plain_char t) os))"

definition page_ok :: "form_field list \<Rightarrow> bool" where
  "page_ok fs \<longleftrightarrow> distinct (map fc_field fs) \<and> list_all field_page_ok fs"

lemma truncate_fields [simp]:
  "fc_field (field_config.truncate f) = fc_field f" "fc_options (field_config.truncate f) = fc_options f"
  "fc_multiple (field_config.truncate f) = fc_multiple f" "fc_default (field_config.truncate f) = fc_default f"
  "fc_required (field_config.truncate f) = fc_required f" "fc_validator (field_config.truncate f) = fc_validator f"
  by (simp_all add: field_config.truncate_def)

lemma find_truncated:
  "distinct (map fc_field fs) \<Longrightarrow> f \<in> set fs \<Longrightarrow>
   getBeanFieldConfig (map field_config.truncate fs) (fc_field f) = Some (field_config.truncate f)"
  by (induction fs) (auto simp: getBeanFieldConfig_def image_iff)

lemma input_names:
  assumes "field_page_ok f" "changeable f" "m \<in> fst ` set (field_inputs raw nt b f)"
  shows "fst (split_input_name m) = fc_field f"
  using assms split_item split_plain
  by (auto simp: field_inputs_def Let_def field_page_ok_def changeable_def repeated_inputs_def
      in_set_enumerate_eq split: input_kind.splits)

text \<open>The value a change stores in the field of the input.\<close>

definition written :: "field_config \<Rightarrow> obj \<Rightarrow> string \<Rightarrow> string \<Rightarrow> jsval" where
  "written f b n val =
     (if fc_multiple f = Some True then index_set (get_prop b (fc_field f)) (snd (split_input_name n)) (JStr val) else JStr val)"

lemma kept_bean: "heap (snd (keep_origin name b0 s)) = heap s"
  by (simp add: keep_origin_def set_state_def update_def)

lemma change_input_run:
  assumes "map_of (beanStates s) name = Some st" "getBeanConfig cfg name = Some gs"
    and "getBeanFieldConfig gs (fst (split_input_name n)) = Some f"
    and "fc_field f = fst (split_input_name n)"
    and "fc_multiple f = Some True \<longrightarrow> \<not> nullish (get_prop (heap s (bs_bean st)) (fc_field f))"
  shows "\<exists>s'. onChangeInput nt cfg name n val s = (Inr (), s') \<and>
    heap s' = (heap s)(bs_bean st := obj_put (fc_field f) (written f (heap s (bs_bean st)) n val) (heap s (bs_bean st)))"
proof -
  obtain k i where ki: "split_input_name n = (k, i)" by (cases "split_input_name n")
  have keep: "\<exists>s'. (andthen (whenever d (keep_origin name b0)) (set_bean a b')) s = (Inr (), s') \<and> heap s' = (heap s)(a := b')"
    for d b0 a b'
    by (simp add: keep_origin_def set_state_def set_bean_def prog_defs)
  show ?thesis
    using assms keep
    by (auto simp: onChangeInput_def get_state_def get_config_def ki written_def Let_def seq_def reads_def ret_def
        split: option.splits)
qed

lemma write_shows:
  assumes "field_page_ok f" "changeable f" "n \<in> fst ` set (field_inputs raw nt b f)"
    and "fc_multiple f \<noteq> None \<longrightarrow> is_array (get_prop b (fc_field f))"
    and "fc_options f \<noteq> None \<longrightarrow> val \<in> fst ` set (draw_options raw nt (field_config.truncate f) b)"
  shows "field_inputs raw nt (obj_put (fc_field f) (written (field_config.truncate f) b n val) b) f
    = map (\<lambda>(m, t). (m, if m = n then val else t)) (field_inputs raw nt b f)"
proof (cases "input_kind f")
  case SelectInput
  then obtain opts os where os: "fc_options f = Some opts" "\<And>b. opts b = Some os" "list_all (\<lambda>p. is_text (opt_value p)) os"
      "fc_multiple f = None"
    using assms(1) by (fastforce simp: field_page_ok_def input_kind_def list_all_iff split: if_splits option.splits)
  let ?b = "obj_put (fc_field f) (JStr val) b"
  let ?os = "draw_options raw nt (field_config.truncate f) ?b"
  have n: "n = fc_field f" using assms(3) SelectInput by (simp add: field_inputs_def)
  have vals: "map fst ?os = map fst (draw_options raw nt (field_config.truncate f) b)"
    using os(1,2) by (simp add: draw_options_def)
  have sel: "sel \<longleftrightarrow> v = val" if "(v, l, sel) \<in> set ?os" for v l sel
    using that os by (auto simp: draw_options_def select_value_def loose_equal_def list_all_iff is_text_iff input_text_def equals_string_def)
  have "val \<in> fst ` set ?os" using assms(5) os(1) vals by (metis list.set_map option.distinct(1))
  then have ex: "filter (\<lambda>(v, l, sel). sel) ?os \<noteq> []" using sel by (fastforce simp: filter_empty_conv)
  then obtain v l s r where hd: "rev (filter (\<lambda>(v, l, sel). sel) ?os) = (v, l, s) # r"
    by (cases "rev (filter (\<lambda>(v, l, sel). sel) ?os)") auto
  then have "(v, l, s) \<in> set (filter (\<lambda>(v, l, sel). sel) ?os)" by (metis list.set_intros(1) set_rev)
  then have "v = val" using sel by auto
  then have "chosen ?os = val" using hd by (simp add: chosen_def)
  then show ?thesis using SelectInput os(4) n by (simp add: field_inputs_def written_def)
next
  case RepeatedInput
  then have rep: "fc_multiple f = Some True" "fc_field f \<noteq> []"
    using assms(1) by (auto simp: field_page_ok_def input_kind_def split: if_splits)
  then obtain vs where vs: "get_prop b (fc_field f) = JArr vs" using assms(4) by (cases "get_prop b (fc_field f)") auto
  let ?ins = "\<lambda>vs. map (\<lambda>(i, t). (item_name (fc_field f) i, t)) (enumerate 0 (map (input_text nt) vs))"
  have ins: "get_prop b' (fc_field f) = JArr ws \<Longrightarrow> field_inputs raw nt b' f = ?ins ws" for b' ws
    using RepeatedInput by (simp add: field_inputs_def repeated_inputs_def item_texts_def)
  obtain i where i: "i < length vs" "n = item_name (fc_field f) i"
    using assms(3) unfolding ins [OF vs] by (auto simp: in_set_enumerate_eq)
  have "written (field_config.truncate f) b n val = JArr (vs[i := JStr val])"
    using rep vs i by (simp add: written_def split_item index_set_def)
  then have "field_inputs raw nt (obj_put (fc_field f) (written (field_config.truncate f) b n val) b) f = ?ins (vs[i := JStr val])"
    by (intro ins) simp
  also have "\<dots> = map (\<lambda>(m, t). (m, if m = n then val else t)) (?ins vs)"
    by (rule nth_equalityI) (auto simp: nth_enumerate_eq i(2) nth_list_update input_text_def i(1))
  finally show ?thesis unfolding ins [OF vs] .
next
  case TextareaInput
  then show ?thesis using assms(3) by (auto simp: field_inputs_def Let_def written_def input_kind_def input_text_def split: if_splits)
next
  case TextInput
  then show ?thesis using assms(3) by (auto simp: field_inputs_def Let_def written_def input_kind_def input_text_def split: if_splits)
qed (use assms(2) in \<open>simp_all add: changeable_def\<close>)

text \<open>Another field keeps its inputs: none of them has the name, and what they show does not depend on the field written.\<close>

lemma other_inputs:
  assumes "field_page_ok f" "changeable f" "k \<noteq> fc_field f"
  shows "field_inputs raw nt (obj_put k v b) f = field_inputs raw nt b f"
proof -
  have "get_prop (obj_put k v b) (fc_field f) = get_prop b (fc_field f)" using assms(3) by simp
  moreover from this have "draw_options raw nt (field_config.truncate f) (obj_put k v b) = draw_options raw nt (field_config.truncate f) b"
    using assms(1,3)
    by (auto simp: draw_options_def select_value_def field_page_ok_def split: option.splits)
  ultimately show ?thesis
    using assms(2) by (cases "input_kind f") (simp_all add: field_inputs_def changeable_def Let_def)
qed

lemma distinct_inputs:
  assumes "page_ok fs"
  shows "distinct (map fst (change_inputs raw nt fs b))"
  using assms
proof (induction fs)
  case (Cons f fs)
  have own: "distinct (map fst (field_inputs raw nt b f))" if "changeable f"
    using that
    by (auto simp: field_inputs_def Let_def repeated_inputs_def changeable_def comp_def case_prod_unfold distinct_map inj_on_def
        in_set_enumerate_eq split: input_kind.split)
  have "fst (split_input_name m) = fc_field f" if "changeable f" "m \<in> fst ` set (field_inputs raw nt b f)" for m
    using Cons.prems input_names that by (simp add: page_ok_def)
  moreover have "fst (split_input_name m) \<noteq> fc_field f" if m: "m \<in> fst ` set (change_inputs raw nt fs b)" for m
  proof -
    obtain g where g: "g \<in> set fs" "changeable g" "m \<in> fst ` set (field_inputs raw nt b g)"
      using m by (auto simp: change_inputs_def)
    then have "fst (split_input_name m) = fc_field g"
      using Cons.prems input_names by (auto simp: page_ok_def list_all_iff)
    with g(1) Cons.prems show ?thesis by (auto simp: page_ok_def image_iff)
  qed
  ultimately have "fst ` set (field_inputs raw nt b f) \<inter> fst ` set (change_inputs raw nt fs b) = {}" if "changeable f"
    using that by blast
  moreover have "page_ok fs" using Cons.prems by (simp add: page_ok_def)
  ultimately show ?case using Cons.IH own by (simp add: change_inputs_def)
qed (simp add: change_inputs_def)

text \<open>Typing, for the texts as the template writes them.\<close>

lemma typed_text_raw:
  assumes "page_ok fs" "getBeanConfig cfg name = Some (map field_config.truncate fs)"
    and "map_of (beanStates s) name = Some st" and b: "b = heap s (bs_bean st)"
    and "\<And>f. f \<in> set fs \<Longrightarrow> fc_multiple f \<noteq> None \<Longrightarrow> is_array (get_prop b (fc_field f))"
    and "n \<in> fst ` set (change_inputs raw nt fs b)"
    and "\<And>f. f \<in> set fs \<Longrightarrow> fc_field f = n \<Longrightarrow> fc_options f \<noteq> None \<Longrightarrow> val \<in> fst ` set (draw_options raw nt (field_config.truncate f) b)"
  shows "distinct (map fst (change_inputs raw nt fs b)) \<and>
    (\<exists>s'. onChangeInput nt cfg name n val s = (Inr (), s') \<and>
       change_inputs raw nt fs (heap s' (bs_bean st)) = map (\<lambda>(m, t). (m, if m = n then val else t)) (change_inputs raw nt fs b) \<and>
       (\<forall>a. a \<noteq> bs_bean st \<longrightarrow> heap s' a = heap s a))"
proof -
  obtain f where f: "f \<in> set fs" "changeable f" "n \<in> fst ` set (field_inputs raw nt b f)"
    using assms(6) by (auto simp: change_inputs_def)
  have ok: "field_page_ok g" if "g \<in> set fs" for g using assms(1) that by (simp add: page_ok_def list_all_iff)
  have field: "fst (split_input_name n) = fc_field f" by (rule input_names [OF ok f(2,3)]) (rule f(1))
  have dist: "distinct (map fc_field fs)" using assms(1) by (simp add: page_ok_def)
  let ?f = "field_config.truncate f"
  let ?b = "obj_put (fc_field f) (written ?f b n val) b"
  have "fc_multiple ?f = Some True \<longrightarrow> \<not> nullish (get_prop b (fc_field ?f))"
    using assms(5) [OF f(1)] by (cases "get_prop b (fc_field f)") auto
  with change_input_run [OF assms(3,2), of n ?f nt val] find_truncated [OF dist f(1)] field b
  obtain s' where s': "onChangeInput nt cfg name n val s = (Inr (), s')" "heap s' = (heap s)(bs_bean st := ?b)"
    by auto
  have option_n: "val \<in> fst ` set (draw_options raw nt ?f b)" if "fc_options f \<noteq> None"
    using assms(7) [OF f(1)] that f(2,3) by (simp add: field_inputs_def input_kind_def)
  have "field_inputs raw nt ?b g = map (\<lambda>(m, t). (m, if m = n then val else t)) (field_inputs raw nt b g)"
    if g: "g \<in> set fs" "changeable g" for g
  proof (cases "g = f")
    case True
    with write_shows [OF ok [OF f(1)] f(2,3)] assms(5) [OF f(1)] option_n show ?thesis by simp
  next
    case False
    then have ne: "fc_field f \<noteq> fc_field g" using dist f(1) g(1) by (auto simp: distinct_map inj_on_def)
    have "m \<noteq> n" if "(m, t) \<in> set (field_inputs raw nt b g)" for m t
      using input_names [OF ok [OF g(1)] g(2), of m nt b] that field ne by force
    then have "map (\<lambda>(m, t). (m, if m = n then val else t)) (field_inputs raw nt b g) = field_inputs raw nt b g"
      by (auto intro!: map_idI)
    with other_inputs [OF ok [OF g(1)] g(2) ne] show ?thesis by simp
  qed
  then have "change_inputs raw nt fs ?b = map (\<lambda>(m, t). (m, if m = n then val else t)) (change_inputs raw nt fs b)"
    unfolding change_inputs_def map_concat map_map by (intro arg_cong [where f = concat] map_cong) simp_all
  with s' distinct_inputs [OF assms(1)] show ?thesis by auto
qed

text \<open>On plain texts the browser shows what the template wrote.\<close>

lemma plain_options:
  assumes "html_reader pg" "field_page_ok f"
  shows "draw_options pg nt (field_config.truncate f) b = draw_options raw nt (field_config.truncate f) b"
proof (cases "fc_options f")
  case (Some opts)
  with assms(2) obtain os where os: "\<And>b. opts b = Some os" "list_all (\<lambda>p. \<exists>t. opt_value p = JStr t \<and> list_all plain_char t) os"
    by (auto simp: field_page_ok_def)
  have "h_attr pg (input_text nt (opt_value p)) = input_text nt (opt_value p)" if p: "p \<in> set os" for p
  proof -
    obtain t where "opt_value p = JStr t" "list_all plain_char t" using os(2) p by (auto simp: list_all_iff)
    with assms(1) show ?thesis by (simp add: html_reader_def input_text_def)
  qed
  with Some os(1) show ?thesis by (simp add: draw_options_def)
qed (simp add: draw_options_def)

lemma plain_inputs:
  assumes "html_reader pg" "field_page_ok f" "changeable f" "list_all (\<lambda>(m, t). list_all plain_char t) (field_inputs raw nt b f)"
  shows "field_inputs pg nt b f = field_inputs raw nt b f"
proof -
  have plain: "h_attr pg t = t" "h_area pg t = t" if "list_all plain_char t" for t
    using assms(1) that by (simp_all add: html_reader_def)
  have "draw_options pg nt (field_config.truncate f) b = draw_options raw nt (field_config.truncate f) b"
    by (rule plain_options [OF assms(1,2)])
  then show ?thesis
    using assms(3,4) plain
    by (cases "input_kind f") (fastforce simp: field_inputs_def Let_def changeable_def repeated_inputs_def list_all_iff)+
qed

lemma plain_page:
  assumes "html_reader pg" "page_ok fs" "list_all (\<lambda>(m, t). list_all plain_char t) (change_inputs raw nt fs b)"
  shows "change_inputs pg nt fs b = change_inputs raw nt fs b"
proof -
  have "field_inputs pg nt b f = field_inputs raw nt b f" if "f \<in> set fs" "changeable f" for f
    using that assms by (intro plain_inputs) (auto simp: page_ok_def change_inputs_def list_all_iff)
  then show ?thesis unfolding change_inputs_def by (intro arg_cong [where f = concat] map_cong) simp_all
qed

text \<open>A quote ends the text of an input: what follows it is not shown, though the bean keeps it.\<close>

lemma quoted_text_is_cut:
  assumes "html_reader pg" "input_kind f = TextInput" "list_all plain_char u"
  shows "field_inputs pg nt (obj_put (fc_field f) (JStr (u @ CHR 0x22 # v)) b) f = [(fc_field f, u)]"
proof -
  have "CHR 0x22 \<notin> set u" using assms(3) by (auto simp: list_all_iff plain_char_def)
  with assms show ?thesis by (simp add: field_inputs_def Let_def html_reader_def input_text_def)
qed

text \<open>
  C6: Typing. In a block whose fields can be told apart, whose repeated fields hold arrays, as in
  the edit mode, and whose inputs show plain texts (without quotes, ampersands, less signs and control
  characters, which the template does not escape), every input the page draws has a name of its own, the
  change of an input to a plain text is taken without an error, and drawing the block again shows what was
  typed in that input and what was there before in all others; no other bean changes.\<close>
theorem typed_text_is_shown:
  assumes "html_reader pg" "list_all (\<lambda>(m, t). list_all plain_char t) (change_inputs raw nt fs b)" "list_all plain_char val"
    and "page_ok fs" "getBeanConfig cfg name = Some (map field_config.truncate fs)"
    and "map_of (beanStates s) name = Some st" and "b = heap s (bs_bean st)"
    and "\<And>f. f \<in> set fs \<Longrightarrow> fc_multiple f \<noteq> None \<Longrightarrow> is_array (get_prop b (fc_field f))"
    and "n \<in> fst ` set (change_inputs pg nt fs b)"
    and "\<And>f. f \<in> set fs \<Longrightarrow> fc_field f = n \<Longrightarrow> fc_options f \<noteq> None \<Longrightarrow> val \<in> fst ` set (draw_options pg nt (field_config.truncate f) b)"
  shows "distinct (map fst (change_inputs pg nt fs b)) \<and>
    (\<exists>s'. onChangeInput nt cfg name n val s = (Inr (), s') \<and>
       change_inputs pg nt fs (heap s' (bs_bean st)) = map (\<lambda>(m, t). (m, if m = n then val else t)) (change_inputs pg nt fs b) \<and>
       (\<forall>a. a \<noteq> bs_bean st \<longrightarrow> heap s' a = heap s a))"
proof -
  have before: "change_inputs pg nt fs b = change_inputs raw nt fs b" by (rule plain_page [OF assms(1,4,2)])
  have options: "draw_options pg nt (field_config.truncate f) b = draw_options raw nt (field_config.truncate f) b" if "f \<in> set fs" for f
    using assms(4) that by (intro plain_options [OF assms(1)]) (simp add: page_ok_def list_all_iff)
  obtain s' where s': "distinct (map fst (change_inputs raw nt fs b))" "onChangeInput nt cfg name n val s = (Inr (), s')"
    "change_inputs raw nt fs (heap s' (bs_bean st)) = map (\<lambda>(m, t). (m, if m = n then val else t)) (change_inputs raw nt fs b)"
    "\<forall>a. a \<noteq> bs_bean st \<longrightarrow> heap s' a = heap s a"
    using typed_text_raw [OF assms(4-8), of n nt val] assms(9,10) options before by auto
  have "list_all (\<lambda>(m, t). list_all plain_char t) (change_inputs raw nt fs (heap s' (bs_bean st)))"
    unfolding s'(3) using assms(2,3) by (fastforce simp: list_all_iff split: if_splits)
  from plain_page [OF assms(1,4) this] s' before show ?thesis by auto
qed

text \<open>A form with an input, a repeated input and a selection.\<close>

definition text_field :: "string \<Rightarrow> string \<Rightarrow> form_field" where
  "text_field name label =
     \<lparr>fc_field = name, fc_required = False, fc_multiple = None, fc_default = JUndef, fc_options = None, fc_validator = None,
      ff_label = label, ff_textarea = False, ff_getDate = None, ff_custom = None\<rparr>"

definition sample_page :: "form_field list" where
  "sample_page =
    [text_field ''name'' ''Name'', (text_field ''mail'' ''Mail'')\<lparr>fc_multiple := Some True\<rparr>,
     (text_field ''role'' ''Role'')\<lparr>fc_options := Some (\<lambda>_. Some [\<lparr>opt_label = ''A'', opt_value = JStr ''a''\<rparr>])\<rparr>]"

definition sample_entry :: obj where
  "sample_entry = [(''name'', JStr ''x''), (''mail'', JArr [JStr ''u'', JStr ''v''])]"

text \<open>A browser for the samples: it reads a value up to a quote.\<close>

definition sample_html :: html where
  "sample_html = \<lparr>h_attr = takeWhile (\<lambda>c. c \<noteq> CHR 0x22), h_area = \<lambda>t. t\<rparr>"

lemma sample_reader: "html_reader sample_html"
proof -
  have "takeWhile (\<lambda>c. c \<noteq> CHR 0x22) t = t" if "list_all plain_char t" for t
    using that by (induction t) (simp_all add: plain_char_def)
  moreover have "takeWhile (\<lambda>c. c \<noteq> CHR 0x22) (t @ CHR 0x22 # u) = takeWhile (\<lambda>c. c \<noteq> CHR 0x22) t" if "CHR 0x22 \<notin> set t" for t u
    using that by (induction t) auto
  ultimately show ?thesis by (simp add: html_reader_def sample_html_def)
qed

theorem typed_text_is_shown_witness:
  "let cfg = \<lparr>cf_type = None, cf_beans = [(''user'', map field_config.truncate sample_page)]\<rparr>;
       s = (empty_form (\<lambda>_. sample_entry) 1)\<lparr>beanStates := [(''user'', new_state 0 True True)]\<rparr>
   in change_inputs sample_html (\<lambda>_. []) sample_page sample_entry
        = [(''name'', ''x''), (''mail@0'', ''u''), (''mail@1'', ''v''), (''role'', ''a'')] \<and>
      change_inputs sample_html (\<lambda>_. []) sample_page (heap (snd (onChangeInput (\<lambda>_. []) cfg ''user'' ''mail@1'' ''w'' s)) 0)
        = [(''name'', ''x''), (''mail@0'', ''u''), (''mail@1'', ''w''), (''role'', ''a'')]"
proof -
  let ?cfg = "\<lparr>cf_type = None, cf_beans = [(''user'', map field_config.truncate sample_page)]\<rparr>"
  let ?s = "(empty_form (\<lambda>_. sample_entry) 1)\<lparr>beanStates := [(''user'', new_state 0 True True)]\<rparr>"
  have chars: "list_all plain_char ''name''" "list_all plain_char ''mail''" "list_all plain_char ''role''"
    "list_all plain_char ''a''" "list_all plain_char ''w''" by code_simp+
  have ok: "page_ok sample_page"
    using chars by (simp add: page_ok_def field_page_ok_def sample_page_def text_field_def)
  have ins: "change_inputs sample_html (\<lambda>_. []) sample_page sample_entry
      = [(''name'', ''x''), (''mail@0'', ''u''), (''mail@1'', ''v''), (''role'', ''a'')]"
    by code_simp
  have plain: "list_all (\<lambda>(m, t). list_all plain_char t) (change_inputs raw (\<lambda>_. []) sample_page sample_entry)" by code_simp
  have cfg: "getBeanConfig ?cfg ''user'' = Some (map field_config.truncate sample_page)" by (simp add: getBeanConfig_def)
  have st: "map_of (beanStates ?s) ''user'' = Some (new_state 0 True True)" by simp
  have b: "sample_entry = heap ?s (bs_bean (new_state 0 True True))" by (simp add: empty_form_def new_state_def)
  have arrays: "is_array (get_prop sample_entry (fc_field f))" if "f \<in> set sample_page" "fc_multiple f \<noteq> None" for f
    using that by (auto simp: sample_page_def text_field_def sample_entry_def get_prop_def)
  have options: "''w'' \<in> fst ` set (draw_options sample_html (\<lambda>_. []) (field_config.truncate f) sample_entry)"
    if "f \<in> set sample_page" "fc_field f = ''mail@1''" for f
    using that by (auto simp: sample_page_def text_field_def)
  have "''mail@1'' \<in> fst ` set (change_inputs sample_html (\<lambda>_. []) sample_page sample_entry)" unfolding ins by simp
  from typed_text_is_shown [OF sample_reader plain chars(5) ok cfg st b arrays this options]
  obtain s' where s': "onChangeInput (\<lambda>_. []) ?cfg ''user'' ''mail@1'' ''w'' ?s = (Inr (), s')"
    "change_inputs sample_html (\<lambda>_. []) sample_page (heap s' (bs_bean (new_state 0 True True)))
      = map (\<lambda>(m, t). (m, if m = ''mail@1'' then ''w'' else t)) (change_inputs sample_html (\<lambda>_. []) sample_page sample_entry)"
    by blast
  have "bs_bean (new_state 0 True True) = 0" by (simp add: new_state_def)
  with s'(2) ins have "change_inputs sample_html (\<lambda>_. []) sample_page (heap s' 0)
      = [(''name'', ''x''), (''mail@0'', ''u''), (''mail@1'', ''w''), (''role'', ''a'')]"
    by simp
  then show ?thesis unfolding Let_def s'(1) using ins by simp
qed

end
