(* ===== verification/FormTypes.thy ===== *)
theory FormTypes
  imports FormPage
begin

text \<open>
  The types of a form's fields. A field holds texts, or numbers once its numeric validator has read
  them, and a repeated field holds an array of them or nothing yet. The events a user can cause are
  those of what the page draws: the theory shows that they never raise and keep all beans typed,
  and that a block that leaves the edit mode holds numbers in its numeric fields.
\<close>

section \<open>Types\<close>

datatype entry_type = TextType | IntegerType | NumberType

definition entry_type :: "field_config \<Rightarrow> entry_type" where
  "entry_type f =
     (case fc_validator f of
        None \<Rightarrow> TextType
      | Some v \<Rightarrow> if v_name v = ''integer'' then IntegerType else if v_name v = ''number'' then NumberType else TextType)"

text \<open>Infinite numbers count as numbers: the text of a very large one is read as infinite. NaN does not.\<close>

fun is_number :: "entry_type \<Rightarrow> jsval \<Rightarrow> bool" where
  "is_number IntegerType (JNum n) = (case n of Fin q \<Rightarrow> of_int \<lfloor>q\<rfloor> = q | _ \<Rightarrow> n \<noteq> NaN)"
| "is_number NumberType (JNum n) = (n \<noteq> NaN)"
| "is_number _ _ = False"

definition has_type :: "entry_type \<Rightarrow> jsval \<Rightarrow> bool" where
  "has_type t v = (is_text v \<or> is_number t v)"

definition value_typed :: "field_config \<Rightarrow> jsval \<Rightarrow> bool" where
  "value_typed f v =
     (nullish v \<or>
      (if fc_multiple f = Some True then (case v of JArr vs \<Rightarrow> list_all (has_type (entry_type f)) vs | _ \<Rightarrow> False)
       else has_type (entry_type f) v))"

definition bean_typed :: "field_config list \<Rightarrow> obj \<Rightarrow> bool" where
  "bean_typed fs b \<longleftrightarrow> obj_wf b \<and> list_all (\<lambda>f. value_typed f (get_prop b (fc_field f))) fs"

text \<open>In edit mode the repeated fields hold arrays, since drawing fills those without a value.\<close>

definition filled :: "field_config list \<Rightarrow> obj \<Rightarrow> bool" where
  "filled fs b \<longleftrightarrow> list_all (\<lambda>f. fc_multiple f = Some True \<longrightarrow> \<not> nullish (get_prop b (fc_field f))) fs"

text \<open>Configurations: names that can be told apart, known validators, and defaults and options of the type.\<close>

definition known_names :: "string list" where
  "known_names = [''empty'', ''integer'', ''number'', ''email'']"

definition field_typed :: "field_config \<Rightarrow> bool" where
  "field_typed f \<longleftrightarrow> fc_field f \<noteq> [] \<and> CHR ''@'' \<notin> set (fc_field f) \<and> fc_multiple f \<noteq> Some False \<and>
     (fc_multiple f = Some True \<longrightarrow> fc_options f = None) \<and> offers_options f \<and>
     (case fc_validator f of None \<Rightarrow> True | Some v \<Rightarrow> v_name v \<in> set known_names) \<and>
     value_typed f (fc_default f) \<and>
     (case fc_options f of None \<Rightarrow> True
      | Some opts \<Rightarrow> (case opts None of Some (p # _) \<Rightarrow> value_typed f (opt_value p) | _ \<Rightarrow> True))"

definition fields_typed :: "field_config list \<Rightarrow> bool" where
  "fields_typed fs \<longleftrightarrow> distinct (map fc_field fs) \<and> list_all field_typed fs"

definition state_typed :: "field_config list \<Rightarrow> (nat \<Rightarrow> obj) \<Rightarrow> nat \<Rightarrow> bean_state \<Rightarrow> bool" where
  "state_typed fs h n st \<longleftrightarrow> bs_bean st < n \<and> bean_typed fs (h (bs_bean st)) \<and> pred_option (bean_typed fs) (origin st)"

definition typed_states :: "form_config \<Rightarrow> (nat \<Rightarrow> obj) \<Rightarrow> nat \<Rightarrow> (string \<times> bean_state) list \<Rightarrow> bool" where
  "typed_states cfg h n m \<longleftrightarrow>
     list_all (\<lambda>(k, st). \<exists>fs. getBeanConfig cfg k = Some fs \<and> fields_typed fs \<and> state_typed fs h n st) m"

text \<open>
  The blocks of a form have different names and different beans, all typed; an array form is in
  step with its array. A drawn form is also filled.
\<close>

definition typed_form :: "form_config \<Rightarrow> ui_bean \<Rightarrow> bool" where
  "typed_form cfg s \<longleftrightarrow> beanStates s \<noteq> [] \<and> distinct (obj_keys (beanStates s)) \<and>
     distinct (map (\<lambda>(k, st). bs_bean st) (beanStates s)) \<and> typed_states cfg (heap s) (fresh s) (beanStates s) \<and>
     (cf_type cfg = Some ''array'' \<longrightarrow> in_step s \<and> (\<exists>fs. map_of (cf_beans cfg) (beanName s) = Some fs \<and> fields_typed fs))"

definition filled_block :: "form_config \<Rightarrow> ui_bean \<Rightarrow> string \<Rightarrow> bool" where
  "filled_block cfg s k \<longleftrightarrow>
     (case (map_of (beanStates s) k, getBeanConfig cfg k) of
        (Some st, Some fs) \<Rightarrow> editMode st \<longrightarrow> filled fs (heap s (bs_bean st))
      | _ \<Rightarrow> True)"

definition drawn_form :: "form_config \<Rightarrow> ui_bean \<Rightarrow> bool" where
  "drawn_form cfg s \<longleftrightarrow> typed_form cfg s \<and> list_all (filled_block cfg s) (obj_keys (beanStates s))"

section \<open>The events of a user\<close>

text \<open>The names of the inputs of a block, as the page draws them.\<close>

definition input_names :: "field_config list \<Rightarrow> obj \<Rightarrow> string list" where
  "input_names fs b =
     concat (map (\<lambda>f. if fc_options f = None \<and> fc_multiple f \<noteq> None
       then map (item_name (fc_field f)) [0..<(case get_prop b (fc_field f) of JArr vs \<Rightarrow> length vs | _ \<Rightarrow> 0)]
       else [fc_field f]) fs)"

datatype form_event =
    ToggleClick string
  | AddClick
  | DeleteClick string
  | RestoreClick string
  | EditClick string
  | OkClick string
  | ChangeText string string string
  | AddInputClick string string

fun event_prog :: "(jsnum \<Rightarrow> string) \<Rightarrow> form_config \<Rightarrow> form_event \<Rightarrow> (ui_bean, unit) prog" where
  "event_prog nt cfg (ToggleClick name) = onToggleBean cfg name"
| "event_prog nt cfg AddClick = onAddBean cfg"
| "event_prog nt cfg (DeleteClick name) = onDeleteBean cfg name"
| "event_prog nt cfg (RestoreClick name) = restoreBeanState cfg name"
| "event_prog nt cfg (EditClick name) = onEditMode cfg name"
| "event_prog nt cfg (OkClick name) = onViewMode nt cfg name"
| "event_prog nt cfg (ChangeText name input val) = onChangeInput nt cfg name input val"
| "event_prog nt cfg (AddInputClick name field) = onAddInput name field"

text \<open>Whether the page has what the event is caused by.\<close>

definition in_edit_mode :: "ui_bean \<Rightarrow> string \<Rightarrow> bool" where
  "in_edit_mode s name = (case map_of (beanStates s) name of None \<Rightarrow> False | Some st \<Rightarrow> editMode st)"

fun possible :: "form_config \<Rightarrow> ui_bean \<Rightarrow> form_event \<Rightarrow> bool" where
  "possible cfg s (ToggleClick name) =
     (cf_type cfg \<noteq> None \<and> cf_type cfg \<noteq> Some ''single'' \<and> name \<in> set (obj_keys (beanStates s)))"
| "possible cfg s AddClick = (cf_type cfg = Some ''array'')"
| "possible cfg s (DeleteClick name) = (cf_type cfg = Some ''array'' \<and> name \<in> set (obj_keys (beanStates s)))"
| "possible cfg s (RestoreClick name) = in_edit_mode s name"
| "possible cfg s (EditClick name) =
     (case map_of (beanStates s) name of None \<Rightarrow> False | Some st \<Rightarrow> \<not> editMode st \<and> \<not> readOnly st)"
| "possible cfg s (OkClick name) = in_edit_mode s name"
| "possible cfg s (ChangeText name input val) = (in_edit_mode s name \<and>
     (case (map_of (beanStates s) name, getBeanConfig cfg name) of
        (Some st, Some fs) \<Rightarrow> input \<in> set (input_names fs (heap s (bs_bean st))) | _ \<Rightarrow> False))"
| "possible cfg s (AddInputClick name field) = (in_edit_mode s name \<and>
     (case getBeanConfig cfg name of
        Some fs \<Rightarrow> field \<in> fc_field ` set (filter (\<lambda>f. fc_options f = None \<and> fc_multiple f \<noteq> None) fs)
      | None \<Rightarrow> False))"

text \<open>The events of a list are caused in turn; one that the page offers no way to cause does not happen.\<close>

fun user_events :: "(jsnum \<Rightarrow> string) \<Rightarrow> form_config \<Rightarrow> form_event list \<Rightarrow> (ui_bean, unit) prog" where
  "user_events nt cfg [] = ret ()"
| "user_events nt cfg (e # es) =
     seq (reads (\<lambda>s. possible cfg s e)) (\<lambda>p. andthen (whenever p (event_prog nt cfg e)) (user_events nt cfg es))"

section \<open>Beans\<close>

lemma has_type_copy: "has_type t v \<Longrightarrow> deep_copy v = v \<and> \<not> nullish v"
  by (cases v) (auto simp: has_type_def)

lemma value_typed_copy: "value_typed f v \<Longrightarrow> deep_copy v = v"
proof (cases v)
  case (JArr vs)
  assume "value_typed f v"
  then have ty: "list_all (has_type (entry_type f)) vs"
    by (auto simp: value_typed_def JArr has_type_def split: if_splits)
  then have "map deep_copy vs = vs" "\<forall>v \<in> set vs. v \<noteq> JUndef"
    by (auto simp: list_all_iff has_type_copy intro!: map_idI) (use has_type_copy nullish.simps(1) in blast)
  then show ?thesis by (cases "rev vs") (auto simp: JArr rev_swap)
qed (auto simp: value_typed_def has_type_def split: if_splits)

lemma get_prop_copy: "obj_wf b \<Longrightarrow> get_prop (copy_obj b) k = deep_copy (get_prop b k)"
proof (induction b)
  case (Cons p b)
  obtain k' v where p: "p = (k', v)" by (cases p)
  have "deep_copy v = JUndef \<longleftrightarrow> v = JUndef" by (cases v) auto
  moreover have "k \<notin> set (obj_keys b) \<Longrightarrow> map_of (filter (\<lambda>(k, v). v \<noteq> JUndef) (map (\<lambda>(k, v). (k, deep_copy v)) b)) k = None"
    by (force simp: map_of_eq_None_iff obj_keys_def)
  ultimately show ?case using Cons
    by (auto simp: p copy_obj_def get_prop_def obj_wf_def obj_keys_def)
qed (simp add: copy_obj_def get_prop_def)

lemma obj_wf_copy: "obj_wf b \<Longrightarrow> obj_wf (copy_obj b)"
  unfolding obj_wf_def obj_keys_def copy_obj_def
  by (rule distinct_map_filter) (simp add: case_prod_beta o_def)

lemma bean_typed_copy: "bean_typed fs b \<Longrightarrow> bean_typed fs (copy_obj b)"
  by (auto simp: bean_typed_def list_all_iff obj_wf_copy get_prop_copy value_typed_copy)

lemma bean_typed_put:
  assumes "bean_typed fs b" "fields_typed fs" "f \<in> set fs" "value_typed f v"
  shows "bean_typed fs (obj_put (fc_field f) v b)"
  using assms by (auto simp: bean_typed_def fields_typed_def list_all_iff distinct_map inj_on_def)

lemma bean_typed_empty: "bean_typed fs []"
  by (simp add: bean_typed_def list_all_iff get_prop_def value_typed_def)

lemma fill_typed:
  assumes "f \<in> set fs" "fields_typed fs" "bean_typed fs b"
  shows "bean_typed fs (fill_repeated b f)"
    and "fc_multiple f = Some True \<Longrightarrow> \<not> nullish (get_prop (fill_repeated b f) (fc_field f))"
    and "\<not> nullish (get_prop b k) \<Longrightarrow> \<not> nullish (get_prop (fill_repeated b f) k)"
proof -
  have "field_typed f" using assms(1,2) by (simp add: fields_typed_def list_all_iff)
  then have rep: "fc_options f = None \<and> fc_multiple f \<noteq> None \<longleftrightarrow> fc_multiple f = Some True"
    by (auto simp: field_typed_def)
  have "value_typed f (JArr [JStr []])" if "fc_multiple f = Some True" using that by (simp add: value_typed_def has_type_def)
  then show "bean_typed fs (fill_repeated b f)"
    using assms bean_typed_put [OF assms(3,2,1)] rep by (auto simp: fill_repeated_def)
  show "fc_multiple f = Some True \<Longrightarrow> \<not> nullish (get_prop (fill_repeated b f) (fc_field f))"
    "\<not> nullish (get_prop b k) \<Longrightarrow> \<not> nullish (get_prop (fill_repeated b f) k)"
    using rep by (auto simp: fill_repeated_def)
qed

lemma fill_all_typed:
  "set gs \<subseteq> set fs \<Longrightarrow> fields_typed fs \<Longrightarrow> bean_typed fs b \<Longrightarrow>
   bean_typed fs (foldl fill_repeated b gs) \<and> filled gs (foldl fill_repeated b gs) \<and>
   (\<forall>k. \<not> nullish (get_prop b k) \<longrightarrow> \<not> nullish (get_prop (foldl fill_repeated b gs) k))"
proof (induction gs arbitrary: b)
  case (Cons f gs)
  then have f: "f \<in> set fs" by simp
  note fill = fill_typed [OF f Cons.prems(2,3)]
  have "set gs \<subseteq> set fs" using Cons.prems(1) by simp
  from Cons.IH [OF this Cons.prems(2) fill(1)] fill(2,3) show ?case
    by (auto simp: filled_def)
qed (simp add: filled_def)

lemma offers_typed: "fields_typed fs \<Longrightarrow> list_all offers_options fs"
  by (auto simp: fields_typed_def field_typed_def list_all_iff)

lemma default_typed:
  assumes "f \<in> set fs" "fields_typed fs" "bean_typed fs b"
  shows "bean_typed fs (default_field b f)"
proof -
  have "field_typed f" using assms(1,2) by (simp add: fields_typed_def list_all_iff)
  then show ?thesis
    using assms bean_typed_put [OF assms(3,2,1)]
    by (auto simp: default_field_def field_typed_def split: option.split list.split)
qed

lemma defaults_typed:
  "set gs \<subseteq> set fs \<Longrightarrow> fields_typed fs \<Longrightarrow> bean_typed fs b \<Longrightarrow> bean_typed fs (foldl default_field b gs)"
  by (induction gs arbitrary: b) (auto intro: default_typed)

section \<open>Drawing\<close>

lemma typed_state:
  assumes "typed_form cfg s" "map_of (beanStates s) k = Some st"
  obtains fs where "getBeanConfig cfg k = Some fs" "fields_typed fs" "state_typed fs (heap s) (fresh s) st"
  using assms map_of_SomeD [OF assms(2)] by (auto simp: typed_form_def typed_states_def list_all_iff)

lemma other_bean:
  assumes "typed_form cfg s" "map_of (beanStates s) k = Some st" "map_of (beanStates s) k' = Some st'" "k \<noteq> k'"
  shows "bs_bean st \<noteq> bs_bean st'"
proof
  assume eq: "bs_bean st = bs_bean st'"
  have "distinct (map (\<lambda>(k, st). bs_bean st) (beanStates s))" using assms(1) by (simp add: typed_form_def)
  then have "inj_on (\<lambda>(k, st). bs_bean st) (set (beanStates s))" by (simp add: distinct_map)
  from inj_onD [OF this, of "(k, st)" "(k', st')"] eq assms(2-4) show False
    by (auto dest: map_of_SomeD)
qed

lemma typed_heap:
  assumes "typed_form cfg s" "map_of (beanStates s) k = Some st" "getBeanConfig cfg k = Some fs" "bean_typed fs b"
  shows "typed_form cfg (s\<lparr>heap := (heap s)(bs_bean st := b)\<rparr>)"
proof -
  have "state_typed gs ((heap s)(bs_bean st := b)) (fresh s) st'"
    if "(k', st') \<in> set (beanStates s)" "getBeanConfig cfg k' = Some gs" "state_typed gs (heap s) (fresh s) st'" for k' st' gs
  proof (cases "k' = k")
    case True
    have "map_of (beanStates s) k' = Some st'" using that(1) assms(1) by (simp add: typed_form_def obj_keys_def)
    with True assms that show ?thesis by (auto simp: state_typed_def)
  next
    case False
    have "map_of (beanStates s) k' = Some st'" using that(1) assms(1) by (simp add: typed_form_def obj_keys_def)
    with other_bean [OF assms(1) this assms(2) False] that(3) show ?thesis by (simp add: state_typed_def)
  qed
  moreover have "in_step (s\<lparr>heap := h\<rparr>) = in_step s" for h by (simp add: in_step_def)
  ultimately show ?thesis using assms(1) by (fastforce simp: typed_form_def typed_states_def list_all_iff)
qed

lemma known_state: "k \<in> set (obj_keys (beanStates s)) \<Longrightarrow> \<exists>st. map_of (beanStates s) k = Some st"
  using map_of_None_keys by fastforce

lemma render_block_typed:
  assumes "k \<in> set names"
  shows "sure (\<lambda>s. (typed_form cfg s \<and> obj_keys (beanStates s) = names) \<and> (\<forall>y \<in> ys. filled_block cfg s y)) (render_block cfg k)
    (\<lambda>_ s. (typed_form cfg s \<and> obj_keys (beanStates s) = names) \<and> (\<forall>y \<in> insert k ys. filled_block cfg s y))"
proof (rule sureI, elim conjE)
  fix s :: ui_bean
  assume ty: "typed_form cfg s" and names: "obj_keys (beanStates s) = names" and ys: "\<forall>y \<in> ys. filled_block cfg s y"
  obtain st where st: "map_of (beanStates s) k = Some st" using known_state assms names by blast
  obtain fs where fs: "getBeanConfig cfg k = Some fs" "fields_typed fs" "state_typed fs (heap s) (fresh s) st"
    using typed_state [OF ty st] by blast
  let ?b = "foldl fill_repeated (heap s (bs_bean st)) fs"
  have b: "bean_typed fs ?b" "filled fs ?b" using fill_all_typed [of fs fs "heap s (bs_bean st)"] fs(2,3) by (auto simp: state_typed_def)
  let ?s = "if editMode st then s\<lparr>heap := (heap s)(bs_bean st := ?b)\<rparr> else s"
  have run: "render_block cfg k s = (Inr (), ?s)"
    using st fs(1) draw_fields_all [OF offers_typed [OF fs(2)]]
    by (simp add: render_block_def get_config_def get_state_def set_bean_def prog_defs)
  have "typed_form cfg ?s" using ty typed_heap [OF ty st fs(1) b(1)] by simp
  moreover have "obj_keys (beanStates ?s) = names" using names by simp
  moreover have "filled_block cfg ?s k" using st fs(1) b(2) by (simp add: filled_block_def)
  moreover have "filled_block cfg ?s y" if "y \<in> ys" "y \<noteq> k" for y
    using that ys other_bean [OF ty st _ that(2) [symmetric]]
    by (auto simp: filled_block_def split: option.splits)
  ultimately have "typed_form cfg ?s" "obj_keys (beanStates ?s) = names" "\<forall>y \<in> insert k ys. filled_block cfg ?s y"
    by blast+
  then show "\<exists>a s'. render_block cfg k s = (Inr a, s') \<and>
      (typed_form cfg s' \<and> obj_keys (beanStates s') = names) \<and> (\<forall>y \<in> insert k ys. filled_block cfg s' y)"
    unfolding run by blast
qed

lemma render_typed: "sure (typed_form cfg) (render cfg) (\<lambda>_. drawn_form cfg)"
proof (rule sureI)
  fix s :: ui_bean
  assume ty: "typed_form cfg s"
  let ?names = "obj_keys (beanStates s)"
  have config: "\<exists>fs. get_config cfg k t = (Inr fs, t)" if "k \<in> set ?names" for k and t :: ui_bean
    using known_state [OF that] typed_state [OF ty] by (metis get_config_def option.simps(5) ret_def)
  have "sure (\<lambda>t. t = s) (for_each ?names (\<lambda>k. seq (get_config cfg k) (\<lambda>_. ret ()))) (\<lambda>_ t. t = s)"
    by (rule sure_for_each, rule sureI) (use config [of _ s] in \<open>fastforce simp: seq_def ret_def\<close>)
  then have tabs: "render_tabs cfg s = (Inr (), s)"
    by (auto simp: render_tabs_def sure_def seq_def reads_def ret_def)
  have "sure (\<lambda>s. (typed_form cfg s \<and> obj_keys (beanStates s) = ?names) \<and> (\<forall>y \<in> {}. filled_block cfg s y))
      (for_each ?names (render_block cfg))
      (\<lambda>_ s. (typed_form cfg s \<and> obj_keys (beanStates s) = ?names) \<and> (\<forall>y \<in> {} \<union> set ?names. filled_block cfg s y))"
    by (rule sure_for_each_all) (rule render_block_typed)
  from sureD [OF this, of s] ty obtain s' where "for_each ?names (render_block cfg) s = (Inr (), s')" "drawn_form cfg s'"
    by (auto simp: drawn_form_def list_all_iff)
  then show "\<exists>a s'. render cfg s = (Inr a, s') \<and> drawn_form cfg s'"
    by (simp add: render_def andthen_def seq_def tabs reads_def)
qed

section \<open>States\<close>

text \<open>Updates of the states that keep the beans they are bound to, with typed copies to restore.\<close>

lemma typed_update:
  assumes "typed_form cfg s" "bindings s' = bindings s" "heap s' = heap s" "fresh s' = fresh s"
    and "\<And>k st fs. map_of (beanStates s') k = Some st \<Longrightarrow> getBeanConfig cfg k = Some fs \<Longrightarrow> pred_option (bean_typed fs) (origin st)"
  shows "typed_form cfg s'"
proof -
  let ?f = "\<lambda>(k, st). (k, bs_bean st)"
  have eq: "map ?f (beanStates s') = map ?f (beanStates s)" using assms(2) by (simp add: bindings_def)
  have keys: "obj_keys (beanStates s') = obj_keys (beanStates s)"
    using arg_cong [OF eq, of "map fst"] by (simp add: obj_keys_def o_def case_prod_beta)
  have beans: "map (\<lambda>(k, st). bs_bean st) (beanStates s') = map (\<lambda>(k, st). bs_bean st) (beanStates s)"
    using arg_cong [OF eq, of "map snd"] by (simp add: o_def case_prod_unfold)
  have "\<exists>fs. getBeanConfig cfg k = Some fs \<and> fields_typed fs \<and> state_typed fs (heap s') (fresh s') st"
    if st: "(k, st) \<in> set (beanStates s')" for k st
  proof -
    have "?f (k, st) \<in> set (map ?f (beanStates s'))" using st by (metis image_eqI list.set_map)
    then obtain st0 where st0: "(k, st0) \<in> set (beanStates s)" "bs_bean st0 = bs_bean st"
      unfolding eq by auto
    then obtain fs where fs: "getBeanConfig cfg k = Some fs" "fields_typed fs" "state_typed fs (heap s) (fresh s) st0"
      using assms(1) by (auto simp: typed_form_def typed_states_def list_all_iff)
    have "map_of (beanStates s') k = Some st" using st assms(1) keys by (simp add: typed_form_def obj_keys_def)
    then have "pred_option (bean_typed fs) (origin st)" using assms(5) fs(1) by blast
    with fs st0(2) assms(3,4) show ?thesis by (auto simp: state_typed_def)
  qed
  moreover have "beanStates s' \<noteq> []" using eq assms(1) by (auto simp: typed_form_def)
  moreover have "in_step s' = in_step s" "beanName s' = beanName s"
    using in_step_bindings [OF assms(2)] assms(2) by (simp_all add: bindings_def)
  ultimately show ?thesis
    using assms(1) keys beans by (auto simp: typed_form_def typed_states_def list_all_iff)
qed

text \<open>What a step of a handler keeps: a typed form in which the block is bound to the bean.\<close>

definition typed_at :: "form_config \<Rightarrow> string \<Rightarrow> nat \<Rightarrow> ui_bean \<Rightarrow> bool" where
  "typed_at cfg name a s \<longleftrightarrow> typed_form cfg s \<and> (\<exists>st. map_of (beanStates s) name = Some st \<and> bs_bean st = a)"

lemma origin_typed: "typed_form cfg s \<Longrightarrow> map_of (beanStates s) k = Some st \<Longrightarrow> getBeanConfig cfg k = Some fs \<Longrightarrow>
   pred_option (bean_typed fs) (origin st)"
  using typed_state by (metis option.inject state_typed_def)

lemma map_states_typed:
  assumes "typed_form cfg s" "\<And>k st. bs_bean (f k st) = bs_bean st" "\<And>k st. origin (f k st) = origin st"
  shows "typed_form cfg (s\<lparr>beanStates := map (\<lambda>(k, st). (k, f k st)) (beanStates s)\<rparr>)"
proof (rule typed_update [OF assms(1)])
  show "bindings (s\<lparr>beanStates := map (\<lambda>(k, st). (k, f k st)) (beanStates s)\<rparr>) = bindings s"
    using assms(2) by (simp add: bindings_def case_prod_beta o_def)
  fix k st fs
  assume st: "map_of (beanStates (s\<lparr>beanStates := map (\<lambda>(k, st). (k, f k st)) (beanStates s)\<rparr>)) k = Some st"
    and fs: "getBeanConfig cfg k = Some fs"
  have "map_of (map (\<lambda>(k, st). (k, f k st)) m) k = map_option (f k) (map_of m k)" for m by (induction m) auto
  with st obtain st0 where "map_of (beanStates s) k = Some st0" "st = f k st0" by auto
  with origin_typed [OF assms(1) _ fs] assms(3) show "pred_option (bean_typed fs) (origin st)" by simp
qed simp_all

lemma obj_upd_map_states: "obj_upd name f m = map (\<lambda>(k, st). (k, (if k = name then f else (\<lambda>st. st)) st)) m"
  by (auto simp: obj_upd_def)

lemma set_state_typed [sure_rules]:
  assumes "\<And>st. bs_bean (f st) = bs_bean st" "\<And>st. origin (f st) = origin st"
  shows "sure (typed_at cfg name a) (set_state n f) (\<lambda>_. typed_at cfg name a)"
  unfolding set_state_def
proof (rule sure_update)
  fix s
  assume s: "typed_at cfg name a s"
  have "typed_form cfg (s\<lparr>beanStates := obj_upd n f (beanStates s)\<rparr>)"
    unfolding obj_upd_map_states by (rule map_states_typed) (use s assms in \<open>auto simp: typed_at_def\<close>)
  with s show "typed_at cfg name a (s\<lparr>beanStates := obj_upd n f (beanStates s)\<rparr>)"
    by (auto simp: typed_at_def map_of_obj_upd assms)
qed

lemma get_state_sure:
  "sure (\<lambda>s. P s \<and> name \<in> set (obj_keys (beanStates s))) (get_state name) (\<lambda>st s. P s \<and> map_of (beanStates s) name = Some st)"
  by (rule sureI) (use known_state in \<open>fastforce simp: get_state_def\<close>)

lemma set_bean_typed:
  assumes "getBeanConfig cfg name = Some fs" "bean_typed fs b"
  shows "sure (typed_at cfg name a) (set_bean a b) (\<lambda>_. typed_at cfg name a)"
  unfolding set_bean_def
  by (rule sure_update) (use assms typed_heap in \<open>auto simp: typed_at_def\<close>)

lemma render_at: "sure (typed_at cfg name a) (render cfg) (\<lambda>_. drawn_form cfg)"
  by (rule sure_weaken [OF render_typed]) (simp_all add: typed_at_def)

lemma state_then_render:
  assumes "\<And>st. bs_bean (f st) = bs_bean st" "\<And>st. origin (f st) = origin st"
  shows "sure (\<lambda>s. typed_at cfg name a s \<and> X s) (andthen (set_state n f) (render cfg)) (\<lambda>_. drawn_form cfg)"
  by (rule sure_andthen [OF sure_weaken [OF set_state_typed [OF assms]] render_at]) auto

lemma at_bean_typed:
  "typed_at cfg name a s \<Longrightarrow> getBeanConfig cfg name = Some fs \<Longrightarrow> bean_typed fs (heap s a) \<and> fields_typed fs"
  by (auto simp: typed_at_def state_typed_def elim!: typed_state)

lemma typed_config: "typed_at cfg name a s \<Longrightarrow> \<exists>fs. getBeanConfig cfg name = Some fs \<and> fields_typed fs"
  by (auto simp: typed_at_def elim!: typed_state)

text \<open>Handlers start at a block that exists; the rest works on its bean.\<close>

lemma sure_at_state:
  assumes "\<And>st. sure (\<lambda>s. typed_at cfg name (bs_bean st) s \<and> map_of (beanStates s) name = Some st) (f st) Q"
  shows "sure (\<lambda>s. typed_form cfg s \<and> name \<in> set (obj_keys (beanStates s))) (seq (get_state name) f) Q"
  by (rule sure_seq [OF get_state_sure]) (rule sure_weaken [OF assms], auto simp: typed_at_def)

section \<open>The list of blocks\<close>

lemma toggle_typed:
  assumes "typed_form cfg s"
  shows "toggleBean name s = (Inr (), s\<lparr>beanStates := toggled name (beanStates s)\<rparr>)"
    and "typed_form cfg (s\<lparr>beanStates := toggled name (beanStates s)\<rparr>)"
proof -
  have ne: "beanStates s \<noteq> []" using assms by (simp add: typed_form_def)
  show "toggleBean name s = (Inr (), s\<lparr>beanStates := toggled name (beanStates s)\<rparr>)" by (rule toggleBean_run [OF ne])
  let ?n = "if map_of (beanStates s) name \<noteq> None then name else fst (hd (beanStates s))"
  let ?g = "\<lambda>k st. (if k = ?n then (\<lambda>b. b\<lparr>select := True\<rparr>) else (\<lambda>b. b)) (st\<lparr>select := False\<rparr>)"
  have "toggled name (beanStates s) = map (\<lambda>(k, st). (k, ?g k st)) (beanStates s)"
    unfolding toggled_def obj_upd_def by (auto simp: case_prod_beta)
  moreover have "typed_form cfg (s\<lparr>beanStates := map (\<lambda>(k, st). (k, ?g k st)) (beanStates s)\<rparr>)"
    by (rule map_states_typed [OF assms]) auto
  ultimately show "typed_form cfg (s\<lparr>beanStates := toggled name (beanStates s)\<rparr>)" by simp
qed

lemma toggle_sure: "sure (typed_form cfg) (toggleBean name) (\<lambda>_. typed_form cfg)"
  by (rule sureI) (simp add: toggle_typed)

lemma onToggleBean_sure:
  "sure (\<lambda>s. typed_form cfg s \<and> name \<in> set (obj_keys (beanStates s))) (onToggleBean cfg name) (\<lambda>_. drawn_form cfg)"
  unfolding onToggleBean_def
proof (rule sure_andthen)
  show "sure (\<lambda>s. typed_form cfg s \<and> name \<in> set (obj_keys (beanStates s))) (toggleBean name)
      (\<lambda>_ s. typed_form cfg s \<and> name \<in> set (obj_keys (beanStates s)))"
    by (rule sureI) (auto simp: toggle_typed)
  show "sure (\<lambda>s. typed_form cfg s \<and> name \<in> set (obj_keys (beanStates s)))
      (seq (get_state name) (\<lambda>_. andthen (set_state name (\<lambda>b. b\<lparr>select := True\<rparr>)) (render cfg))) (\<lambda>_. drawn_form cfg)"
    by (rule sure_at_state, rule state_then_render) simp_all
qed

lemma onEditMode_sure:
  "sure (\<lambda>s. typed_form cfg s \<and> name \<in> set (obj_keys (beanStates s))) (onEditMode cfg name) (\<lambda>_. drawn_form cfg)"
  unfolding onEditMode_def
  by (rule sure_at_state, rule state_then_render) simp_all

lemma restore_sure:
  "sure (\<lambda>s. typed_form cfg s \<and> name \<in> set (obj_keys (beanStates s))) (restoreBeanState cfg name) (\<lambda>_. drawn_form cfg)"
  unfolding restoreBeanState_def
proof (rule sure_at_state, rule sure_andthen)
  fix st
  show "sure (\<lambda>s. typed_at cfg name (bs_bean st) s \<and> map_of (beanStates s) name = Some st)
      (case origin st of None \<Rightarrow> ret () | Some b \<Rightarrow> set_bean (bs_bean st) (copy_obj b)) (\<lambda>_. typed_at cfg name (bs_bean st))"
  proof (cases "origin st")
    case (Some b)
    have "bean_typed fs (copy_obj b)" if "typed_form cfg s" "map_of (beanStates s) name = Some st" "getBeanConfig cfg name = Some fs" for s fs
      using origin_typed [OF that] Some by (simp add: bean_typed_copy)
    then have "typed_form cfg (s\<lparr>heap := (heap s)(bs_bean st := copy_obj b)\<rparr>)"
      if "typed_form cfg s" "map_of (beanStates s) name = Some st" for s
      using that typed_heap [OF that] by (metis typed_state)
    with Some show ?thesis
      by (auto simp: typed_at_def set_bean_def intro!: sure_update)
  qed (auto intro: sure_rules)
qed (rule render_at)

section \<open>Leaving the edit mode\<close>

lemma trim_items_typed:
  "list_all (has_type t) vs \<Longrightarrow> \<exists>ws. trim_items vs = Inr ws \<and> list_all (has_type t) ws"
proof (induction vs)
  case (Cons v vs)
  then obtain ws where ws: "trim_items vs = Inr ws" "list_all (has_type t) ws" by auto
  have "\<not> nullish v" "has_type t (case v of JStr s \<Rightarrow> JStr (trim s) | _ \<Rightarrow> v)"
    using Cons.prems has_type_copy [of t v] by (auto simp: has_type_def split: jsval.split)
  with ws show ?case by (auto simp: Let_def)
qed simp

lemma trim_field_sure:
  assumes "getBeanConfig cfg name = Some fs" "f \<in> set fs"
  shows "sure (typed_at cfg name a) (trim_field a f) (\<lambda>_. typed_at cfg name a)"
proof (rule sureI)
  fix s
  assume s: "typed_at cfg name a s"
  let ?v = "get_prop (heap s a) (fc_field f)"
  have b: "bean_typed fs (heap s a)" "fields_typed fs" using at_bean_typed [OF s assms(1)] by auto
  then have v: "value_typed f ?v" using assms(2) by (simp add: bean_typed_def list_all_iff)
  show "\<exists>r s'. trim_field a f s = (Inr r, s') \<and> typed_at cfg name a s'"
  proof (cases ?v)
    case (JArr vs)
    with v have m: "fc_multiple f = Some True" "list_all (has_type (entry_type f)) vs"
      by (auto simp: value_typed_def has_type_def split: if_splits)
    obtain ws where ws: "trim_items vs = Inr ws" "list_all (has_type (entry_type f)) ws"
      using trim_items_typed [OF m(2)] by blast
    have "bean_typed fs (obj_put (fc_field f) (JArr ws) (heap s a))"
      by (rule bean_typed_put [OF b assms(2)]) (simp add: value_typed_def m(1) ws(2))
    from sureD [OF set_bean_typed [OF assms(1) this] s] JArr ws(1) show ?thesis
      by (simp add: trim_field_def seq_def reads_def lift_result_def)
  qed (use s in \<open>simp_all add: trim_field_def seq_def reads_def ret_def\<close>)
qed

text \<open>What a validator returns for a typed value is a typed value, and a number where one is wanted.\<close>

definition checked :: "field_config \<Rightarrow> jsval \<Rightarrow> bool" where
  "checked f v = (entry_type f = TextType \<or>
     (case v of JArr vs \<Rightarrow> list_all (is_number (entry_type f)) vs | _ \<Rightarrow> is_number (entry_type f) v))"

lemma parse_int_integral: "is_number IntegerType (JNum (parse_int s))"
  using to_double_integral [of "int_val s"] by (auto simp: parse_int_def)

lemma numeric_checked:
  assumes "validate_integer vc v = Inr w" "has_type IntegerType v" shows "is_number IntegerType w"
  using assms parse_int_integral
  by (cases v) (auto simp: validate_integer_def has_type_def Let_def check_bounds_ok split: if_splits)

lemma number_checked:
  assumes "validate_number vc v = Inr w" "has_type NumberType v" shows "is_number NumberType w"
proof -
  have "is_number NumberType v" if "\<not> is_text v" using assms(2) that by (simp add: has_type_def)
  then show ?thesis
    using assms(1)
    by (cases v) (auto simp: validate_number_def Let_def check_bounds_ok in_bounds_def split: if_splits)
qed

lemma check_typed:
  assumes "fc_validator f = Some vc" "lookup_validator nt (v_name vc) = Some check" "has_type (entry_type f) v" "check vc v = Inr w"
  shows "has_type (entry_type f) w \<and> (entry_type f \<noteq> TextType \<longrightarrow> is_number (entry_type f) w)"
proof -
  consider "v_name vc = ''integer''" | "v_name vc = ''number''" | "v_name vc = ''empty''" | "v_name vc = ''email''"
    using assms(2) by (auto simp: lookup_validator_def split: if_splits)
  then show ?thesis
  proof cases
    case 1
    with assms numeric_checked show ?thesis by (auto simp: entry_type_def lookup_validator_def has_type_def)
  next
    case 2
    with assms number_checked show ?thesis by (auto simp: entry_type_def lookup_validator_def has_type_def)
  next
    case 3
    with assms show ?thesis by (auto simp: entry_type_def lookup_validator_def validate_empty_def split: if_splits)
  next
    case 4
    with assms show ?thesis by (auto simp: entry_type_def lookup_validator_def validate_email_def split: if_splits)
  qed
qed

lemma check_nullish:
  assumes "fc_validator f = Some vc" "lookup_validator nt (v_name vc) = Some check" "nullish v" "check vc v = Inr w"
  shows "nullish w \<and> entry_type f = TextType"
  using assms
  by (auto simp: lookup_validator_def entry_type_def validate_integer_def validate_number_def validate_empty_def
      validate_email_def Let_def split: if_splits)

lemma validate_items_typed:
  assumes "fc_validator f = Some vc" "lookup_validator nt (v_name vc) = Some check"
  shows "list_all (has_type (entry_type f)) vs \<Longrightarrow>
     list_all (has_type (entry_type f)) (fst (validate_items (check vc) vs)) \<and>
     (snd (validate_items (check vc) vs) = None \<longrightarrow> entry_type f \<noteq> TextType \<longrightarrow>
       list_all (is_number (entry_type f)) (fst (validate_items (check vc) vs)))"
proof (induction vs)
  case (Cons v vs)
  then show ?case
    using check_typed [OF assms, of v] by (auto split: sum.split prod.splits)
qed simp

lemma validate_field_typed:
  assumes "f \<in> set fs" "fields_typed fs" "bean_typed fs b"
  shows "\<exists>b' e. validate_field nt f b = Inr (b', e) \<and> bean_typed fs b' \<and>
    (e = None \<longrightarrow> checked f (get_prop b' (fc_field f))) \<and> (\<forall>k. k \<noteq> fc_field f \<longrightarrow> get_prop b' k = get_prop b k)"
proof (cases "fc_required f \<and> is_empty (get_prop b (fc_field f)) \<or> fc_validator f = None")
  case True
  then show ?thesis using assms(3)
    by (auto simp: validate_field_def Let_def checked_def entry_type_def)
next
  case False
  let ?v = "get_prop b (fc_field f)"
  from False obtain vc where vc: "fc_validator f = Some vc" "\<not> (fc_required f \<and> is_empty ?v)" by auto
  have "field_typed f" using assms(1,2) by (simp add: fields_typed_def list_all_iff)
  then obtain check where check: "lookup_validator nt (v_name vc) = Some check"
    using vc(1) by (auto simp: field_typed_def known_names_def lookup_validator_def)
  have v: "value_typed f ?v" using assms(1,3) by (simp add: bean_typed_def list_all_iff)
  have put: "bean_typed fs (obj_put (fc_field f) w b)" if "value_typed f w" for w
    by (rule bean_typed_put [OF assms(3,2,1) that])
  show ?thesis
  proof (cases "is_array ?v")
    case True
    then obtain vs where vs: "?v = JArr vs" by (cases ?v) auto
    with v have m: "fc_multiple f = Some True" "list_all (has_type (entry_type f)) vs"
      by (auto simp: value_typed_def has_type_def split: if_splits)
    obtain ws e where ws: "validate_items (check vc) vs = (ws, e)" by (cases "validate_items (check vc) vs")
    with validate_items_typed [OF vc(1) check m(2)] have "value_typed f (JArr ws)" "e = None \<longrightarrow> checked f (JArr ws)"
      by (auto simp: value_typed_def m(1) checked_def)
    with put vc check vs ws assms(3) show ?thesis by (simp add: validate_field_def Let_def)
  next
    case False
    then have run: "validate_field nt f b = (case check vc ?v of Inl e \<Rightarrow> Inr (b, Some e) | Inr w \<Rightarrow> Inr (obj_put (fc_field f) w b, None))"
      using vc check by (auto simp: validate_field_def Let_def split: jsval.split)
    show ?thesis
    proof (cases "check vc ?v")
      case (Inl e)
      with run assms(3) show ?thesis by simp
    next
      case (Inr w)
      have "value_typed f w \<and> checked f w"
      proof (cases "nullish ?v")
        case True
        with check_nullish [OF vc(1) check True Inr] show ?thesis by (simp add: value_typed_def checked_def)
      next
        case nn: False
        with v False have m: "fc_multiple f \<noteq> Some True" "has_type (entry_type f) ?v"
          by (auto simp: value_typed_def split: if_splits jsval.splits)
        from check_typed [OF vc(1) check m(2) Inr] m(1) show ?thesis
          by (auto simp: value_typed_def checked_def has_type_def split: jsval.split)
      qed
      with put run Inr show ?thesis by simp
    qed
  qed
qed

text \<open>The fields that were checked without an error, and what the rest of the validation leaves of them.\<close>

definition all_checked :: "field_config list \<Rightarrow> nat \<Rightarrow> ui_bean \<Rightarrow> bool" where
  "all_checked fs a s \<longleftrightarrow> list_all (\<lambda>f. checked f (get_prop (heap s a) (fc_field f))) fs"

lemma set_state_heap: "leaves (\<lambda>s. get_prop (heap s a) k) (set_state n f)"
  unfolding set_state_def by (rule leaves_update) simp

lemma validate_fields_sure:
  assumes "getBeanConfig cfg name = Some fs"
  shows "set gs \<subseteq> set fs \<Longrightarrow> distinct (map fc_field gs) \<Longrightarrow> typed_at cfg name a s \<Longrightarrow>
    \<exists>err s'. validate_fields nt name a gs s = (Inr err, s') \<and> typed_at cfg name a s' \<and> (\<not> err \<longrightarrow> all_checked gs a s') \<and>
      (\<forall>k. k \<notin> fc_field ` set gs \<longrightarrow> get_prop (heap s' a) k = get_prop (heap s a) k)"
proof (induction gs arbitrary: s)
  case (Cons f gs)
  have b: "bean_typed fs (heap s a)" "fields_typed fs" using at_bean_typed [OF Cons.prems(3) assms] by auto
  have f: "f \<in> set fs" using Cons.prems(1) by simp
  obtain b' e where run: "validate_field nt f (heap s a) = Inr (b', e)" "bean_typed fs b'"
    "e = None \<Longrightarrow> checked f (get_prop b' (fc_field f))" "\<And>k. k \<noteq> fc_field f \<Longrightarrow> get_prop b' k = get_prop (heap s a) k"
    using validate_field_typed [OF f b(2,1), of nt] by blast
  let ?set = "case e of None \<Rightarrow> ret () | Some e \<Rightarrow> set_state name (\<lambda>st. st\<lparr>fieldErrors := map_option (obj_put (fc_field f) e) (fieldErrors st)\<rparr>)"
  have set: "sure (typed_at cfg name a) ?set (\<lambda>_. typed_at cfg name a)"
    by (cases e) (auto intro!: sure_rules)
  have s1: "typed_at cfg name a (s\<lparr>heap := (heap s)(a := b')\<rparr>)"
    using sureD [OF set_bean_typed [OF assms run(2)] Cons.prems(3)] by (simp add: set_bean_def update_def)
  obtain s2 where s2: "?set (s\<lparr>heap := (heap s)(a := b')\<rparr>) = (Inr (), s2)" "typed_at cfg name a s2"
    using sureD [OF set s1] by auto
  have "leaves (\<lambda>s. get_prop (heap s a) k) ?set" for k
    by (cases e) (simp_all add: set_state_heap leaves_ret)
  from leavesD [OF this, where s = "s\<lparr>heap := (heap s)(a := b')\<rparr>"] s2(1) have h2: "get_prop (heap s2 a) k = get_prop b' k" for k by simp
  obtain err s' where rest: "validate_fields nt name a gs s2 = (Inr err, s')" "typed_at cfg name a s'" "\<not> err \<longrightarrow> all_checked gs a s'"
    "\<And>k. k \<notin> fc_field ` set gs \<Longrightarrow> get_prop (heap s' a) k = get_prop (heap s2 a) k"
    using Cons.IH [OF _ _ s2(2)] Cons.prems by auto
  have own: "get_prop (heap s' a) (fc_field f) = get_prop b' (fc_field f)" using rest(4) h2 Cons.prems(2) by simp
  have "validate_fields nt name a (f # gs) s = (Inr (e \<noteq> None \<or> err), s')"
    using s2(1) rest(1) by (simp add: seq_def reads_def lift_result_def run(1) andthen_def set_bean_def update_def ret_def)
  moreover have "\<not> (e \<noteq> None \<or> err) \<longrightarrow> all_checked (f # gs) a s'"
    using rest(3) own run(3) by (simp add: all_checked_def)
  moreover have "get_prop (heap s' a) k = get_prop (heap s a) k" if "k \<notin> fc_field ` set (f # gs)" for k
    using rest(4) h2 run(4) that by simp
  ultimately show ?case using rest(2) by blast
qed (auto simp: ret_def all_checked_def)

text \<open>Drawing does not change the beans of blocks in view mode.\<close>

definition closed_at :: "form_config \<Rightarrow> string \<Rightarrow> nat \<Rightarrow> obj \<Rightarrow> ui_bean \<Rightarrow> bool" where
  "closed_at cfg name a b s \<longleftrightarrow> typed_form cfg s \<and> heap s a = b \<and> (\<exists>st. map_of (beanStates s) name = Some st \<and> bs_bean st = a \<and> \<not> editMode st)"

lemma render_closed:
  assumes "closed_at cfg name a b s" shows "closed_at cfg name a b (snd (render cfg s))"
proof -
  obtain ns where ns: "snd (render cfg s) = snd (for_each ns (render_block cfg) s)" using render_snd by blast
  have step: "closed_at cfg name a b (snd (render_block cfg n s))" if s: "closed_at cfg name a b s" for n s
  proof (cases "getBeanConfig cfg n = None \<or> map_of (beanStates s) n = None")
    case True
    with s show ?thesis by (auto simp: render_block_run split: option.split)
  next
    case False
    then obtain gs st where gs: "getBeanConfig cfg n = Some gs" and st: "map_of (beanStates s) n = Some st" by auto
    have ty: "typed_form cfg s" using s by (simp add: closed_at_def)
    obtain st0 where st0: "map_of (beanStates s) name = Some st0" "bs_bean st0 = a" "\<not> editMode st0"
      using s by (auto simp: closed_at_def)
    have fs: "fields_typed gs" "bean_typed gs (heap s (bs_bean st))" using typed_state [OF ty st] gs by (auto simp: state_typed_def)
    have draw: "draw_fields (heap s (bs_bean st)) gs = (foldl fill_repeated (heap s (bs_bean st)) gs, True)"
      by (rule draw_fields_all) (rule offers_typed [OF fs(1)])
    have "typed_form cfg (s\<lparr>heap := (heap s)(bs_bean st := foldl fill_repeated (heap s (bs_bean st)) gs)\<rparr>)"
      using typed_heap [OF ty st gs] fill_all_typed [of gs gs] fs by auto
    moreover have "editMode st \<Longrightarrow> bs_bean st \<noteq> a"
      using other_bean [OF ty st st0(1)] st st0 by (cases "n = name") auto
    ultimately show ?thesis using s st gs
      by (auto simp: render_block_run draw closed_at_def)
  qed
  show ?thesis unfolding ns
    by (rule for_each_invariant [where I = "closed_at cfg name a b"]) (use step assms in blast)+
qed

lemma onViewMode_sure:
  assumes "typed_form cfg s" "map_of (beanStates s) name = Some st" "getBeanConfig cfg name = Some fs"
  shows "\<exists>s' st'. onViewMode nt cfg name s = (Inr (), s') \<and> drawn_form cfg s' \<and> map_of (beanStates s') name = Some st' \<and>
    (editMode st \<longrightarrow> \<not> editMode st' \<longrightarrow> all_checked fs (bs_bean st') s')"
proof -
  let ?a = "bs_bean st"
  have at: "typed_at cfg name ?a s" using assms(1,2) by (auto simp: typed_at_def)
  have fs: "fields_typed fs" using at_bean_typed [OF at assms(3)] by simp
  have "sure (typed_at cfg name ?a) (for_each fs (trim_field ?a)) (\<lambda>_. typed_at cfg name ?a)"
    by (rule sure_for_each) (rule trim_field_sure [OF assms(3)])
  then obtain s1 where s1: "for_each fs (trim_field ?a) s = (Inr (), s1)" "typed_at cfg name ?a s1"
    using at by (auto simp: sure_def)
  have same1: "beanStates s1 = beanStates s" using leavesD [OF leaves_trim_states, of fs ?a s] s1(1) by simp
  have st1: "map_of (beanStates s1) name = Some st" by (simp add: same1 assms(2))
  let ?s2 = "s1\<lparr>beanStates := obj_upd name (\<lambda>st. st\<lparr>fieldErrors := Some []\<rparr>) (beanStates s1)\<rparr>"
  have s2: "typed_at cfg name ?a ?s2"
    using sureD [OF set_state_typed [of "\<lambda>st. st\<lparr>fieldErrors := Some []\<rparr>" cfg name ?a name] s1(2)] by (simp add: set_state_def update_def)
  obtain err s3 where s3: "validate_fields nt name ?a fs ?s2 = (Inr err, s3)" "typed_at cfg name ?a s3" "\<not> err \<longrightarrow> all_checked fs ?a s3"
    using validate_fields_sure [OF assms(3) subset_refl _ s2, of nt] fs by (auto simp: fields_typed_def)
  have val: "validateBeanState nt fs name s1 = (Inr (\<not> err), s3)"
    using st1 s3(1) by (simp add: validateBeanState_def get_state_def seq_def andthen_def set_state_def update_def ret_def)
  let ?s4 = "if err then s3 else s3\<lparr>beanStates := obj_upd name (\<lambda>b. b\<lparr>editMode := False\<rparr>) (beanStates s3)\<rparr>"
  have s4: "typed_at cfg name ?a ?s4"
    using sureD [OF set_state_typed [of "\<lambda>b. b\<lparr>editMode := False\<rparr>" cfg name ?a name] s3(2)] s3(2) by (simp add: set_state_def update_def)
  have run: "onViewMode nt cfg name s = render cfg ?s4"
    using assms(2,3) s1(1) val by (simp add: onViewMode_def get_state_def get_config_def seq_def andthen_def ret_def whenever_def
        set_state_def update_def)
  obtain s' where s': "render cfg ?s4 = (Inr (), s')" "drawn_form cfg s'" using sureD [OF render_at s4] by auto
  have states: "beanStates s' = beanStates ?s4" using leavesD [OF leaves_render_states, of cfg ?s4] s'(1) by simp
  obtain st3 where st3: "map_of (beanStates s3) name = Some st3" "bs_bean st3 = ?a" using s3(2) by (auto simp: typed_at_def)
  define st' where "st' = (if err then st3 else st3\<lparr>editMode := False\<rparr>)"
  have st': "map_of (beanStates s') name = Some st'" using st3(1) by (simp add: states st'_def map_of_obj_upd)
  have edit3: "editMode st3 = editMode st"
  proof -
    have "leaves (\<lambda>s. map_option editMode (map_of (beanStates s) name)) (validate_fields nt name ?a gs)" for gs
      by (induction gs) (auto intro!: frame_rules leaves_update simp: set_bean_def set_state_def map_of_obj_upd option.map_comp o_def)
    from leavesD [OF this, of fs ?s2] s3(1) st1 st3(1) show ?thesis by (simp add: map_of_obj_upd)
  qed
  have "all_checked fs (bs_bean st') s'" if "editMode st" "\<not> editMode st'"
  proof -
    have ok: "\<not> err" using that edit3 by (auto simp: st'_def)
    have "closed_at cfg name ?a (heap ?s4 ?a) ?s4"
      using s4 st3 ok by (auto simp: closed_at_def typed_at_def map_of_obj_upd)
    then have "closed_at cfg name ?a (heap ?s4 ?a) s'" using render_closed s'(1) by (metis snd_conv)
    then have "heap s' ?a = heap s3 ?a" using ok by (simp add: closed_at_def)
    with s3(3) ok st3(2) show ?thesis by (simp add: all_checked_def st'_def)
  qed
  with run s' st' show ?thesis by auto
qed

section \<open>Typing\<close>

lemma drawn_write:
  assumes "drawn_form cfg s" "map_of (beanStates s) name = Some st" "getBeanConfig cfg name = Some fs"
    and "bean_typed fs b" "filled fs b"
  shows "\<exists>s'. andthen (whenever d (keep_origin name (heap s (bs_bean st)))) (set_bean (bs_bean st) b) s = (Inr (), s') \<and> drawn_form cfg s'"
proof -
  let ?old = "heap s (bs_bean st)" and ?a = "bs_bean st"
  let ?keep = "\<lambda>st. if origin st = None then st\<lparr>origin := Some (copy_obj ?old)\<rparr> else st"
  let ?m = "if d then obj_upd name ?keep (beanStates s) else beanStates s"
  let ?s = "s\<lparr>beanStates := ?m, heap := (heap s)(?a := b)\<rparr>"
  have ty: "typed_form cfg s" using assms(1) by (simp add: drawn_form_def)
  have old: "bean_typed fs ?old" using typed_state [OF ty assms(2)] assms(3) by (auto simp: state_typed_def)
  have run: "andthen (whenever d (keep_origin name ?old)) (set_bean ?a b) s = (Inr (), ?s)"
    by (simp add: keep_origin_def set_state_def set_bean_def prog_defs)
  have at: "\<exists>st0. map_of (beanStates s) k = Some st0 \<and> bs_bean st' = bs_bean st0 \<and> editMode st' = editMode st0 \<and>
      (origin st' = origin st0 \<or> k = name \<and> origin st' = Some (copy_obj ?old))" if "map_of ?m k = Some st'" for k st'
    using that by (auto simp: map_of_obj_upd split: if_splits)
  have "typed_form cfg (s\<lparr>beanStates := ?m\<rparr>)"
  proof (rule typed_update [OF ty])
    show "bindings (s\<lparr>beanStates := ?m\<rparr>) = bindings s" by (auto simp: bindings_def obj_upd_def)
    fix k st' fs'
    assume "map_of (beanStates (s\<lparr>beanStates := ?m\<rparr>)) k = Some st'" "getBeanConfig cfg k = Some fs'"
    with at [of k st'] origin_typed [OF ty] assms(3) bean_typed_copy [OF old] show "pred_option (bean_typed fs') (origin st')"
      by auto
  qed simp_all
  moreover obtain st1 where st1: "map_of ?m name = Some st1" "bs_bean st1 = ?a" using assms(2) by (cases d) (auto simp: map_of_obj_upd)
  ultimately have ty': "typed_form cfg ?s" using typed_heap [of cfg "s\<lparr>beanStates := ?m\<rparr>" name st1 fs b] assms(3,4) by simp
  have "filled_block cfg ?s k" if k: "k \<in> set (obj_keys (beanStates ?s))" for k
  proof (cases "k = name")
    case True
    with st1 assms(3,5) show ?thesis by (simp add: filled_block_def)
  next
    case False
    from k obtain st' where st': "map_of ?m k = Some st'" using known_state [of k ?s] by auto
    then obtain st0 where st0: "map_of (beanStates s) k = Some st0" "bs_bean st' = bs_bean st0" "editMode st' = editMode st0"
      using at by blast
    have "k \<in> set (obj_keys (beanStates s))" using k by (simp split: if_splits)
    then have "filled_block cfg s k" using assms(1) by (simp add: drawn_form_def list_all_iff)
    with st0 st' other_bean [OF ty st0(1) assms(2) False] show ?thesis by (simp add: filled_block_def split: option.splits)
  qed
  with ty' show ?thesis unfolding run by (auto simp: drawn_form_def list_all_iff)
qed

lemma drawn_block:
  assumes "drawn_form cfg s" "map_of (beanStates s) name = Some st" "editMode st" "getBeanConfig cfg name = Some fs"
  shows "bean_typed fs (heap s (bs_bean st))" "filled fs (heap s (bs_bean st))" "fields_typed fs"
proof -
  have ty: "typed_form cfg s" using assms(1) by (simp add: drawn_form_def)
  show "bean_typed fs (heap s (bs_bean st))" "fields_typed fs" using typed_state [OF ty assms(2)] assms(4) by (auto simp: state_typed_def)
  have "name \<in> set (obj_keys (beanStates s))" using assms(2) by (auto simp: obj_keys_def dest!: map_of_SomeD intro: rev_image_eqI)
  then show "filled fs (heap s (bs_bean st))" using assms by (auto simp: drawn_form_def list_all_iff filled_block_def)
qed

lemma filled_put: "filled fs b \<Longrightarrow> \<not> nullish w \<Longrightarrow> filled fs (obj_put k w b)"
  by (auto simp: filled_def list_all_iff)

lemma typed_field:
  assumes "fields_typed fs" "f \<in> set fs"
  shows "field_typed f" "getBeanFieldConfig fs (fc_field f) = Some f"
proof -
  show "field_typed f" using assms by (simp add: fields_typed_def list_all_iff)
  have "distinct (map fc_field fs)" using assms(1) by (simp add: fields_typed_def)
  with assms(2) show "getBeanFieldConfig fs (fc_field f) = Some f"
    by (induction fs) (auto simp: getBeanFieldConfig_def image_iff)
qed

lemma onChangeInput_sure:
  assumes "drawn_form cfg s" "map_of (beanStates s) name = Some st" "editMode st" "getBeanConfig cfg name = Some fs"
    and "input \<in> set (input_names fs (heap s (bs_bean st)))"
  shows "\<exists>s'. onChangeInput nt cfg name input val s = (Inr (), s') \<and> drawn_form cfg s'"
proof -
  let ?b = "heap s (bs_bean st)"
  note blk = drawn_block [OF assms(1-4)]
  obtain f where f: "f \<in> set fs" and inp: "input \<in> set (if fc_options f = None \<and> fc_multiple f \<noteq> None
       then map (item_name (fc_field f)) [0..<(case get_prop ?b (fc_field f) of JArr vs \<Rightarrow> length vs | _ \<Rightarrow> 0)] else [fc_field f])"
    using assms(5) by (auto simp: input_names_def)
  note fld = typed_field [OF blk(3) f]
  let ?v = "get_prop ?b (fc_field f)"
  have v: "value_typed f ?v" using blk(1) f by (simp add: bean_typed_def list_all_iff)
  let ?store = "\<lambda>d w. andthen (whenever d (keep_origin name ?b)) (set_bean (bs_bean st) (obj_put (fc_field f) w ?b))"
  have stores: "\<exists>s'. ?store d w s = (Inr (), s') \<and> drawn_form cfg s'" if "value_typed f w" "\<not> nullish w" for d w
    by (rule drawn_write [OF assms(1,2,4) bean_typed_put [OF blk(1,3) f that(1)] filled_put [OF blk(2) that(2)]])
  show ?thesis
  proof (cases "fc_multiple f = Some True")
    case True
    then have "\<not> nullish ?v" using blk(2) f by (simp add: filled_def list_all_iff)
    with v True obtain vs where vs: "?v = JArr vs" "list_all (has_type (entry_type f)) vs"
      by (auto simp: value_typed_def split: jsval.splits)
    from inp True fld(1) vs obtain i where i: "i < length vs" "input = item_name (fc_field f) i"
      by (auto simp: field_typed_def)
    have sp: "split_input_name input = (fc_field f, Some (int i))" unfolding i(2) by (rule split_item) (use fld(1) in \<open>simp add: field_typed_def\<close>)
    have "list_all (has_type (entry_type f)) (vs[i := JStr val])"
      using vs(2) i(1) by (auto simp: list_all_length nth_list_update has_type_def)
    then have "value_typed f (JArr (vs[i := JStr val]))" by (simp add: value_typed_def True)
    from stores [OF this] vs sp fld(2) True i(1) assms(2,4) show ?thesis
      by (simp add: onChangeInput_def get_state_def get_config_def seq_def reads_def ret_def index_set_def Let_def)
  next
    case False
    with inp fld(1) have "input = fc_field f" by (auto simp: field_typed_def split: if_splits)
    then have sp: "split_input_name input = (fc_field f, Some (-1))" using split_plain fld(1) by (simp add: field_typed_def)
    have "value_typed f (JStr val)" using False by (simp add: value_typed_def has_type_def)
    from stores [OF this] sp fld(2) False assms(2,4) show ?thesis
      by (simp add: onChangeInput_def get_state_def get_config_def seq_def reads_def ret_def Let_def)
  qed
qed

lemma onAddInput_sure:
  assumes "drawn_form cfg s" "map_of (beanStates s) name = Some st" "editMode st" "getBeanConfig cfg name = Some fs"
    and "f \<in> set fs" "fc_options f = None" "fc_multiple f \<noteq> None"
  shows "\<exists>s'. onAddInput name (fc_field f) s = (Inr (), s') \<and> drawn_form cfg s'"
proof -
  let ?b = "heap s (bs_bean st)"
  note blk = drawn_block [OF assms(1-4)]
  note fld = typed_field [OF blk(3) assms(5)]
  have m: "fc_multiple f = Some True" using assms(7) fld(1) by (auto simp: field_typed_def)
  have "value_typed f (get_prop ?b (fc_field f))" "\<not> nullish (get_prop ?b (fc_field f))"
    using blk(1,2) assms(5) m by (auto simp: bean_typed_def filled_def list_all_iff)
  then obtain vs where vs: "get_prop ?b (fc_field f) = JArr vs" "list_all (has_type (entry_type f)) vs"
    using m by (auto simp: value_typed_def split: jsval.splits)
  have new: "value_typed f (JArr (vs @ [JStr []]))" using vs(2) by (simp add: value_typed_def m has_type_def)
  have "onAddInput name (fc_field f) s
      = andthen (whenever True (keep_origin name ?b)) (set_bean (bs_bean st) (obj_put (fc_field f) (JArr (vs @ [JStr []])) ?b)) s"
    using assms(2) vs(1) by (simp add: onAddInput_def get_state_def seq_def reads_def whenever_def)
  with drawn_write [OF assms(1,2,4) bean_typed_put [OF blk(1,3) assms(5) new] filled_put [OF blk(2)]] show ?thesis by simp
qed

section \<open>Array forms\<close>

lemma toggle_then_render:
  "typed_form cfg s \<Longrightarrow> \<exists>s'. andthen (toggleBean name) (render cfg) s = (Inr (), s') \<and> drawn_form cfg s'"
  using sureD [OF sure_andthen [OF toggle_sure render_typed]] by fastforce

lemma array_config: "cf_type cfg = Some ''array'' \<Longrightarrow> getBeanConfig cfg (indexed_name n i) = map_of (cf_beans cfg) n"
  by (simp add: getBeanConfig_def)

lemma array_states:
  assumes "typed_form cfg s" "cf_type cfg = Some ''array''"
  obtains xs fs where "beanArray s = Some xs" "obj_keys (beanStates s) = map (indexed_name (beanName s)) [0..<length xs]"
    "map_of (cf_beans cfg) (beanName s) = Some fs" "fields_typed fs"
    "\<And>k st. (k, st) \<in> set (beanStates s) \<Longrightarrow> state_typed fs (heap s) (fresh s) st"
proof -
  have step: "in_step s" using assms by (simp add: typed_form_def)
  then obtain xs where xs: "beanArray s = Some xs" by (auto simp: in_step_def)
  obtain fs where fs: "map_of (cf_beans cfg) (beanName s) = Some fs" "fields_typed fs" using assms by (auto simp: typed_form_def)
  note keys = in_step_keys(1) [OF step xs]
  have "state_typed fs (heap s) (fresh s) st" if st: "(k, st) \<in> set (beanStates s)" for k st
  proof -
    have "k \<in> set (obj_keys (beanStates s))" using st by (force simp: obj_keys_def)
    then obtain i where "k = indexed_name (beanName s) i" unfolding keys by auto
    with st assms fs(1) show ?thesis
      by (auto simp: typed_form_def typed_states_def list_all_iff array_config)
  qed
  with that xs keys fs show thesis by blast
qed

lemma state_typed_alloc:
  "state_typed fs h n st \<Longrightarrow> state_typed fs (h(n := [])) (Suc n) st"
  "state_typed fs (h(n := [])) (Suc n) (new_state n e sel)"
  by (auto simp: state_typed_def new_state_def bean_typed_empty)

lemma onAddBean_sure:
  assumes "typed_form cfg s" "cf_type cfg = Some ''array''"
  shows "\<exists>s'. onAddBean cfg s = (Inr (), s') \<and> drawn_form cfg s'"
proof -
  obtain xs fs where a: "beanArray s = Some xs" "obj_keys (beanStates s) = map (indexed_name (beanName s)) [0..<length xs]"
    "map_of (cf_beans cfg) (beanName s) = Some fs" "fields_typed fs"
    "\<And>k st. (k, st) \<in> set (beanStates s) \<Longrightarrow> state_typed fs (heap s) (fresh s) st"
    using array_states [OF assms] by metis
  let ?name = "indexed_name (beanName s) (length xs)"
  let ?s = "s\<lparr>heap := (heap s)(fresh s := []), fresh := Suc (fresh s), beanArray := Some (xs @ [fresh s]),
        beanStates := obj_put ?name (new_state (fresh s) True False) (beanStates s)\<rparr>"
  have run: "onAddBean cfg s = andthen (toggleBean ?name) (render cfg) ?s"
    using a(1) by (simp add: onAddBean_def get_array_def alloc_def seq_def reads_def andthen_def update_def Let_def)
  have new: "?name \<notin> set (obj_keys (beanStates s))" by (auto simp: a(2))
  have states: "beanStates ?s = beanStates s @ [(?name, new_state (fresh s) True False)]" by (simp add: obj_put_fresh [OF new])
  have dist: "distinct (map (\<lambda>(k, st). bs_bean st) (beanStates ?s))"
  proof -
    have "bs_bean st < fresh s" if "(k, st) \<in> set (beanStates s)" for k st using a(5) [OF that] by (simp add: state_typed_def)
    then have "fresh s \<notin> set (map (\<lambda>(k, st). bs_bean st) (beanStates s))" by fastforce
    then show ?thesis unfolding states using assms(1) by (simp add: typed_form_def new_state_def)
  qed
  have step: "in_step ?s"
  proof -
    have "map (\<lambda>(k, b). (k, bs_bean b)) (beanStates s) = zip (map (indexed_name (beanName s)) [0..<length xs]) xs"
      using assms a(1) by (simp add: typed_form_def in_step_def)
    then show ?thesis unfolding in_step_def states by (simp add: new_state_def)
  qed
  have "\<exists>fs. getBeanConfig cfg k = Some fs \<and> fields_typed fs \<and> state_typed fs (heap ?s) (fresh ?s) st"
    if st: "(k, st) \<in> set (beanStates ?s)" for k st
  proof (cases "(k, st) \<in> set (beanStates s)")
    case True
    then have "k \<in> set (obj_keys (beanStates s))" by (force simp: obj_keys_def)
    then obtain i where "k = indexed_name (beanName s) i" unfolding a(2) by auto
    with a(3,4) a(5) [OF True] assms(2) show ?thesis by (simp add: array_config state_typed_alloc)
  next
    case False
    with st states a(3,4) assms(2) show ?thesis by (simp add: array_config state_typed_alloc)
  qed
  then have "typed_form cfg ?s"
    using assms dist step a(3,4) distinct_obj_put
    by (auto simp: typed_form_def typed_states_def list_all_iff)
  with toggle_then_render show ?thesis unfolding run by blast
qed

lemma onDeleteBean_sure:
  assumes "typed_form cfg s" "cf_type cfg = Some ''array''"
  shows "\<exists>s'. onDeleteBean cfg name s = (Inr (), s') \<and> drawn_form cfg s'"
proof -
  obtain xs fs where a: "beanArray s = Some xs" "obj_keys (beanStates s) = map (indexed_name (beanName s)) [0..<length xs]"
    "map_of (cf_beans cfg) (beanName s) = Some fs" "fields_typed fs"
    "\<And>k st. (k, st) \<in> set (beanStates s) \<Longrightarrow> state_typed fs (heap s) (fresh s) st"
    using array_states [OF assms] by metis
  let ?n = "beanName s"
  let ?left = "map snd (filter (\<lambda>(k, b). k \<noteq> name) (beanStates s))"
  have numbered: "typed_form cfg (s'\<lparr>beanArray := Some (map bs_bean bs), beanStates := renumber ?n bs\<rparr>)"
    if bs: "bs \<noteq> []" "distinct (map bs_bean bs)" "\<And>st. st \<in> set bs \<Longrightarrow> state_typed fs (heap s') (fresh s') st"
      and n: "beanName s' = ?n" for bs and s' :: ui_bean
  proof -
    have "map (\<lambda>(k, st). bs_bean st) (renumber ?n bs) = map bs_bean bs"
      using renumber_states [of ?n bs] by (metis (no_types, lifting) case_prod_unfold list.map_comp comp_def map_eq_conv)
    moreover have "\<exists>i. k = indexed_name ?n i \<and> st \<in> set bs" if "(k, st) \<in> set (renumber ?n bs)" for k st
      using that by (auto simp: renumber_def in_set_enumerate_eq)
    ultimately show ?thesis
      using bs(1,2) bs(3) a(3,4) assms(2) n in_step_renumber [OF bs(1) refl n [symmetric]]
      by (fastforce simp: typed_form_def typed_states_def list_all_iff array_config obj_keys_renumber distinct_indexed)
  qed
  let ?s0 = "s\<lparr>heap := (heap s)(fresh s := []), fresh := Suc (fresh s)\<rparr>"
  let ?s = "if ?left = [] then ?s0\<lparr>beanArray := Some [fresh s], beanStates := renumber ?n [new_state (fresh s) True False]\<rparr>
      else s\<lparr>beanArray := Some (map bs_bean ?left), beanStates := renumber ?n ?left\<rparr>"
  have run: "onDeleteBean cfg name s = andthen (toggleBean ''null'') (render cfg) ?s"
    using a(1) by (simp add: onDeleteBean_def get_array_def alloc_def seq_def reads_def andthen_def update_def Let_def)
  have "typed_form cfg ?s"
  proof (cases "?left = []")
    case True
    then show ?thesis
      using numbered [of "[new_state (fresh s) True False]" ?s0] state_typed_alloc(2)
      by (simp add: new_state_def)
  next
    case False
    have "distinct (map (bs_bean \<circ> snd) (filter (\<lambda>(k, b). k \<noteq> name) (beanStates s)))"
      by (rule distinct_map_filter) (use assms(1) in \<open>simp add: typed_form_def case_prod_unfold o_def\<close>)
    then have "distinct (map bs_bean ?left)" by simp
    moreover have "state_typed fs (heap s) (fresh s) st" if "st \<in> set ?left" for st
      using that a(5) by auto
    ultimately show ?thesis using numbered [OF False, of s] False by simp
  qed
  with toggle_then_render show ?thesis unfolding run by blast
qed

section \<open>Properties\<close>

lemma possible_sure:
  assumes "drawn_form cfg s" "possible cfg s e"
  shows "\<exists>s'. event_prog nt cfg e s = (Inr (), s') \<and> drawn_form cfg s'"
proof -
  have ty: "typed_form cfg s" using assms(1) by (simp add: drawn_form_def)
  have key: "name \<in> set (obj_keys (beanStates s))" if "map_of (beanStates s) name = Some st" for name st
    using that map_of_None_keys [of "beanStates s" name] by simp
  show ?thesis
  proof (cases e)
    case (ToggleClick name)
    with assms(2) ty sureD [OF onToggleBean_sure] show ?thesis by fastforce
  next
    case AddClick
    with assms(2) onAddBean_sure [OF ty] show ?thesis by simp
  next
    case (DeleteClick name)
    with assms(2) onDeleteBean_sure [OF ty] show ?thesis by simp
  next
    case (RestoreClick name)
    with assms(2) key have "name \<in> set (obj_keys (beanStates s))" by (auto simp: in_edit_mode_def split: option.splits)
    with RestoreClick ty sureD [OF restore_sure] show ?thesis by fastforce
  next
    case (EditClick name)
    with assms(2) key have "name \<in> set (obj_keys (beanStates s))" by (auto split: option.splits)
    with EditClick ty sureD [OF onEditMode_sure] show ?thesis by fastforce
  next
    case (OkClick name)
    with assms(2) obtain st where st: "map_of (beanStates s) name = Some st" by (auto simp: in_edit_mode_def split: option.splits)
    obtain fs where "getBeanConfig cfg name = Some fs" using typed_state [OF ty st] by blast
    from onViewMode_sure [OF ty st this, of nt] OkClick show ?thesis by auto
  next
    case (ChangeText name inp val)
    with assms(2) onChangeInput_sure [OF assms(1)] show ?thesis by (auto simp: in_edit_mode_def split: option.splits)
  next
    case (AddInputClick name field)
    with assms(2) onAddInput_sure [OF assms(1)] show ?thesis by (fastforce simp: in_edit_mode_def split: option.splits)
  qed
qed

lemma user_events_sure: "drawn_form cfg s \<Longrightarrow> \<exists>s'. user_events nt cfg es s = (Inr (), s') \<and> drawn_form cfg s'"
proof (induction es arbitrary: s)
  case (Cons e es)
  show ?case
  proof (cases "possible cfg s e")
    case True
    from possible_sure [OF Cons.prems this, of nt] obtain s1 where "event_prog nt cfg e s = (Inr (), s1)" "drawn_form cfg s1" by blast
    with Cons.IH [of s1] True show ?thesis by (simp add: seq_def reads_def andthen_def whenever_def)
  next
    case False
    with Cons show ?thesis by (simp add: seq_def reads_def andthen_def whenever_def ret_def)
  qed
qed (simp add: ret_def)

text \<open>Binding typed beans makes a typed form, which is drawn when it is shown first.\<close>

lemma bind_typed:
  assumes "cf_type cfg \<noteq> Some ''array''" "getBeanConfig cfg name = Some fs" "fields_typed fs" "bean_typed fs (h a)" "a < n"
  shows "\<exists>s. bind_bean cfg name a d (empty_form h n) = (Inr (), s) \<and> typed_form cfg s"
proof -
  let ?b = "if d then foldl default_field (h a) fs else h a"
  let ?s = "(empty_form (h(a := ?b)) n)\<lparr>beanStates := [(name, new_state a False True)]\<rparr>"
  have run: "bind_bean cfg name a d (empty_form h n) = (Inr (), ?s)"
    using assms(2) by (simp add: bind_bean_def get_config_def setDefaultFieldValue_def set_bean_def empty_form_def prog_defs)
  have "bean_typed fs ?b" using defaults_typed [of fs fs] assms(3,4) by simp
  then have "typed_form cfg ?s"
    using assms by (auto simp: typed_form_def typed_states_def state_typed_def new_state_def empty_form_def obj_keys_def)
  with run show ?thesis by blast
qed

lemma bind_array_typed:
  assumes "cf_type cfg = Some ''array''" "map_of (cf_beans cfg) name = Some fs" "fields_typed fs" "distinct xs"
    and "\<And>a. a \<in> set xs \<Longrightarrow> a < n \<and> bean_typed fs (h a)"
  shows "typed_form cfg (snd (bind_array cfg name xs (empty_form h n)))"
proof -
  let ?ys = "if xs = [] then [n] else xs"
  let ?s0 = "if xs = [] then (empty_form h n)\<lparr>heap := h(n := []), fresh := Suc n\<rparr> else empty_form h n"
  let ?m = "map (\<lambda>i. (indexed_name name i, new_state (?ys ! i) False False)) [0..<length ?ys]"
  let ?s = "?s0\<lparr>beanArray := Some ?ys, beanName := name, beanStates := ?m\<rparr>"
  have run: "snd (bind_array cfg name xs (empty_form h n)) = ?s\<lparr>beanStates := toggled (indexed_name name (length ?ys)) (beanStates ?s)\<rparr>"
    unfolding bind_array_run [OF assms(1)] by simp
  have keys: "obj_keys ?m = map (indexed_name name) [0..<length ?ys]" by (simp add: obj_keys_def o_def)
  have beans: "map (\<lambda>(k, st). bs_bean st) ?m = ?ys" by (rule nth_equalityI) (simp_all add: new_state_def)
  have "in_step ?s"
    unfolding in_step_def by (rule exI [of _ ?ys]) (auto intro!: nth_equalityI simp: new_state_def)
  moreover have "state_typed fs (heap ?s) (fresh ?s) (new_state (?ys ! i) False False)" if "i < length ?ys" for i
    using assms(5) nth_mem [OF that] by (cases "xs = []") (auto simp: state_typed_def new_state_def empty_form_def bean_typed_empty)
  ultimately have "typed_form cfg ?s"
    unfolding typed_form_def using assms(1-4) keys beans
    by (auto simp: typed_states_def list_all_iff array_config distinct_indexed simp del: map_map)
  from toggle_typed(2) [OF this, of "indexed_name name (length ?ys)"] show ?thesis unfolding run .
qed

inductive bound_typed :: "form_config \<Rightarrow> ui_bean \<Rightarrow> bool" for cfg :: form_config where
  bound_bean: "cf_type cfg \<noteq> Some ''array'' \<Longrightarrow> getBeanConfig cfg name = Some fs \<Longrightarrow> fields_typed fs \<Longrightarrow>
     bean_typed fs (h a) \<Longrightarrow> a < n \<Longrightarrow> bound_typed cfg (snd (bind_bean cfg name a d (empty_form h n)))"
| bound_array: "cf_type cfg = Some ''array'' \<Longrightarrow> map_of (cf_beans cfg) name = Some fs \<Longrightarrow> fields_typed fs \<Longrightarrow> distinct xs \<Longrightarrow>
     (\<And>a. a \<in> set xs \<Longrightarrow> a < n \<and> bean_typed fs (h a)) \<Longrightarrow> bound_typed cfg (snd (bind_array cfg name xs (empty_form h n)))"

lemma bound_typed_form: "bound_typed cfg s \<Longrightarrow> typed_form cfg s"
proof (induction rule: bound_typed.induct)
  case (bound_bean name fs h a n d)
  from bind_typed [where h = h, OF this, of d] show ?case by auto
next
  case (bound_array name fs xs n h)
  then show ?case by (intro bind_array_typed)
qed

text \<open>
  C4: Types. A form that is bound to typed beans, one or an array of them, and drawn goes through
  any events its page offers without an error, and all beans stay typed; and whenever a click on OK
  leaves the edit mode, the fields with a numeric validator hold numbers, whole ones where an
  integer is wanted.\<close>
theorem typed_forms_do_not_raise:
  assumes "bound_typed cfg s0"
  shows "\<exists>s. andthen (render cfg) (user_events nt cfg es) s0 = (Inr (), s) \<and>
     list_all (\<lambda>(k, st). \<exists>fs. getBeanConfig cfg k = Some fs \<and> bean_typed fs (heap s (bs_bean st)) \<and>
       (editMode st \<longrightarrow> (\<exists>s' st'. onViewMode nt cfg k s = (Inr (), s') \<and> map_of (beanStates s') k = Some st' \<and>
          (\<not> editMode st' \<longrightarrow> all_checked fs (bs_bean st') s')))) (beanStates s)"
proof -
  obtain s1 where s1: "render cfg s0 = (Inr (), s1)" "drawn_form cfg s1"
    using sureD [OF render_typed bound_typed_form [OF assms]] by auto
  obtain s where s: "user_events nt cfg es s1 = (Inr (), s)" "drawn_form cfg s" using user_events_sure [OF s1(2)] by blast
  have ty: "typed_form cfg s" using s(2) by (simp add: drawn_form_def)
  have "\<exists>fs. getBeanConfig cfg k = Some fs \<and> bean_typed fs (heap s (bs_bean st)) \<and>
       (editMode st \<longrightarrow> (\<exists>s' st'. onViewMode nt cfg k s = (Inr (), s') \<and> map_of (beanStates s') k = Some st' \<and>
          (\<not> editMode st' \<longrightarrow> all_checked fs (bs_bean st') s')))"
    if "(k, st) \<in> set (beanStates s)" for k st
  proof -
    have st: "map_of (beanStates s) k = Some st" using that ty by (simp add: typed_form_def obj_keys_def)
    obtain fs where fs: "getBeanConfig cfg k = Some fs" "state_typed fs (heap s) (fresh s) st" using typed_state [OF ty st] by metis
    then show ?thesis using onViewMode_sure [OF ty st fs(1), of nt] by (auto simp: state_typed_def)
  qed
  with s s1 show ?thesis by (auto simp: andthen_def seq_def list_all_iff)
qed

theorem typed_forms_do_not_raise_witness:
  "let cfg = sample_form None; s0 = snd (bind_bean cfg ''user'' 0 True (empty_form (\<lambda>_. []) 1)) in
   is_ok (fst (andthen (render cfg) (user_events (\<lambda>_. []) cfg
     [EditClick ''user'', ChangeText ''user'' ''age'' ''42'', AddInputClick ''user'' ''mail'', ChangeText ''user'' ''mail@1'' ''x'',
      OkClick ''user'', RestoreClick ''user'']) s0))"
proof -
  have cfg: "cf_type (sample_form None) \<noteq> Some ''array''" by (simp add: sample_form_def)
  have ty: "fields_typed sample_fields"
    by (auto simp: fields_typed_def sample_fields_def plain_field_def field_typed_def offers_options_def known_names_def
        value_typed_def has_type_def)
  have "bound_typed (sample_form None) (snd (bind_bean (sample_form None) ''user'' 0 True (empty_form (\<lambda>_. []) 1)))"
    by (rule bound_bean [OF cfg sample_form_config ty]) (simp_all add: bean_typed_empty)
  from typed_forms_do_not_raise [OF this, of "\<lambda>_. []" "[EditClick ''user'', ChangeText ''user'' ''age'' ''42'',
      AddInputClick ''user'' ''mail'', ChangeText ''user'' ''mail@1'' ''x'', OkClick ''user'', RestoreClick ''user'']"]
  show ?thesis by (auto simp: Let_def)
qed

end
