(* ===== verification/SharedArrays.thy ===== *)
theory SharedArrays
  imports FormTypes
begin

text \<open>
  The form view over references. In the theories before, a bean holds its arrays by value. In the
  program a field holds a reference to an array, and some statements write into the array while
  others put a new array in its place. Here the handlers are written over a store of arrays, and a
  simulation shows when both models agree: as long as no array is reached from two fields. The
  entries of an array stay values, since no handler writes into an entry.
\<close>

section \<open>The store\<close>

datatype ref_value = Prim jsval | Ref nat

record ref_store =
  rs_beans :: "nat \<Rightarrow> (string \<times> ref_value) list"
  rs_arrays :: "nat \<Rightarrow> jsval list"
  rs_next :: nat

text \<open>A form with the store its beans live in; the heap of \<open>rf_ui\<close> is not used.\<close>

record ref_form =
  rf_ui :: ui_bean
  rf_store :: ref_store

definition deref :: "ref_store \<Rightarrow> ref_value \<Rightarrow> jsval" where
  "deref s v = (case v of Prim w \<Rightarrow> w | Ref r \<Rightarrow> JArr (rs_arrays s r))"

definition value_bean :: "ref_store \<Rightarrow> nat \<Rightarrow> obj" where
  "value_bean s a = map (\<lambda>(k, v). (k, deref s v)) (rs_beans s a)"

definition value_form :: "ref_form \<Rightarrow> ui_bean" where
  "value_form r = (rf_ui r)\<lparr>heap := value_bean (rf_store r)\<rparr>"

text \<open>What does not write into beans runs on the values.\<close>

definition on_ui :: "(ui_bean, 'a) prog \<Rightarrow> (ref_form, 'a) prog" where
  "on_ui m r = (case m (value_form r) of (x, s) \<Rightarrow> (x, r\<lparr>rf_ui := s\<lparr>heap := heap (rf_ui r)\<rparr>\<rparr>))"

definition read_bean :: "nat \<Rightarrow> (ref_form, obj) prog" where
  "read_bean a = on_ui (reads (\<lambda>s. heap s a))"

definition in_store :: "(ref_store \<Rightarrow> ref_store) \<Rightarrow> (ref_form, unit) prog" where
  "in_store f = update (\<lambda>r. r\<lparr>rf_store := f (rf_store r)\<rparr>)"

definition put_ref :: "nat \<Rightarrow> string \<Rightarrow> ref_value \<Rightarrow> ref_store \<Rightarrow> ref_store" where
  "put_ref a k v s = s\<lparr>rs_beans := (rs_beans s)(a := obj_put k v (rs_beans s a))\<rparr>"

text \<open>\<open>bean[k] = v\<close> for a new value: an array literal makes a new array.\<close>

definition assign_value :: "nat \<Rightarrow> string \<Rightarrow> jsval \<Rightarrow> ref_store \<Rightarrow> ref_store" where
  "assign_value a k v s =
     (case v of
        JArr vs \<Rightarrow> put_ref a k (Ref (rs_next s)) (s\<lparr>rs_arrays := (rs_arrays s)(rs_next s := vs), rs_next := Suc (rs_next s)\<rparr>)
      | _ \<Rightarrow> put_ref a k (Prim v) s)"

text \<open>A write into the array or object that \<open>bean[k]\<close> holds.\<close>

definition write_inside :: "nat \<Rightarrow> string \<Rightarrow> (jsval \<Rightarrow> jsval) \<Rightarrow> ref_store \<Rightarrow> ref_store" where
  "write_inside a k f s =
     (case map_of (rs_beans s a) k of
        None \<Rightarrow> s
      | Some (Prim v) \<Rightarrow> put_ref a k (Prim (f v)) s
      | Some (Ref r) \<Rightarrow> (case f (JArr (rs_arrays s r)) of
            JArr vs \<Rightarrow> s\<lparr>rs_arrays := (rs_arrays s)(r := vs)\<rparr> | _ \<Rightarrow> s))"

text \<open>All properties deleted and then copied from an object, with new arrays.\<close>

fun assign_all :: "nat \<Rightarrow> obj \<Rightarrow> ref_store \<Rightarrow> ref_store" where
  "assign_all a [] s = s"
| "assign_all a ((k, v) # m) s = assign_all a m (assign_value a k v s)"

definition replace_bean :: "nat \<Rightarrow> obj \<Rightarrow> ref_store \<Rightarrow> ref_store" where
  "replace_bean a m s = assign_all a m (s\<lparr>rs_beans := (rs_beans s)(a := [])\<rparr>)"

section \<open>The handlers\<close>

definition ref_alloc :: "(ref_form, nat) prog" where
  "ref_alloc = seq (on_ui (reads fresh)) (\<lambda>a.
     andthen (in_store (\<lambda>s. s\<lparr>rs_beans := (rs_beans s)(a := [])\<rparr>))
       (andthen (on_ui (update (\<lambda>s. s\<lparr>fresh := Suc a\<rparr>))) (ret a)))"

fun ref_draw :: "nat \<Rightarrow> field_config list \<Rightarrow> (ref_form, unit) prog" where
  "ref_draw a [] = ret ()"
| "ref_draw a (f # fs) = seq (read_bean a) (\<lambda>b.
     if drawable b f then
       andthen (whenever (fc_options f = None \<and> fc_multiple f \<noteq> None \<and> nullish (get_prop b (fc_field f)))
                 (in_store (assign_value a (fc_field f) (JArr [JStr []]))))
         (ref_draw a fs)
     else throw (TypeError ''length''))"

definition ref_render_block :: "form_config \<Rightarrow> string \<Rightarrow> (ref_form, unit) prog" where
  "ref_render_block cfg name =
     seq (on_ui (get_config cfg name)) (\<lambda>fs. seq (on_ui (get_state name)) (\<lambda>st.
       whenever (editMode st) (ref_draw (bs_bean st) fs)))"

definition ref_render :: "form_config \<Rightarrow> (ref_form, unit) prog" where
  "ref_render cfg =
     andthen (on_ui (render_tabs cfg))
       (seq (on_ui (reads (\<lambda>s. obj_keys (beanStates s)))) (\<lambda>names. for_each names (ref_render_block cfg)))"

definition ref_onToggleBean :: "form_config \<Rightarrow> string \<Rightarrow> (ref_form, unit) prog" where
  "ref_onToggleBean cfg name =
     andthen (on_ui (toggleBean name))
       (seq (on_ui (get_state name)) (\<lambda>_.
          andthen (on_ui (set_state name (\<lambda>b. b\<lparr>select := True\<rparr>))) (ref_render cfg)))"

definition ref_onAddBean :: "form_config \<Rightarrow> (ref_form, unit) prog" where
  "ref_onAddBean cfg =
     seq (on_ui get_array) (\<lambda>xs. seq ref_alloc (\<lambda>a. seq (on_ui (reads beanName)) (\<lambda>n.
       let name = indexed_name n (length xs) in
       andthen (on_ui (update (\<lambda>s. s\<lparr>beanArray := Some (xs @ [a]),
           beanStates := obj_put name (new_state a True False) (beanStates s)\<rparr>)))
         (andthen (on_ui (toggleBean name)) (ref_render cfg)))))"

definition ref_onDeleteBean :: "form_config \<Rightarrow> string \<Rightarrow> (ref_form, unit) prog" where
  "ref_onDeleteBean cfg name =
     seq (on_ui get_array) (\<lambda>_. seq (on_ui (reads beanName)) (\<lambda>n. seq (on_ui (reads beanStates)) (\<lambda>m.
       let left = map snd (filter (\<lambda>(k, b). k \<noteq> name) m) in
       andthen
         (if left = [] then
            seq ref_alloc (\<lambda>a. on_ui (update (\<lambda>s. s\<lparr>beanArray := Some [a], beanStates := renumber n [new_state a True False]\<rparr>)))
          else on_ui (update (\<lambda>s. s\<lparr>beanArray := Some (map bs_bean left), beanStates := renumber n left\<rparr>)))
         (andthen (on_ui (toggleBean ''null'')) (ref_render cfg)))))"

definition ref_onEditMode :: "form_config \<Rightarrow> string \<Rightarrow> (ref_form, unit) prog" where
  "ref_onEditMode cfg name =
     seq (on_ui (get_state name)) (\<lambda>_. andthen (on_ui (set_state name (\<lambda>b. b\<lparr>editMode := True\<rparr>))) (ref_render cfg))"

definition ref_onChangeInput ::
  "(jsnum \<Rightarrow> string) \<Rightarrow> form_config \<Rightarrow> string \<Rightarrow> string \<Rightarrow> string \<Rightarrow> (ref_form, unit) prog" where
  "ref_onChangeInput nt cfg name inp val =
     seq (on_ui (get_state name)) (\<lambda>st. seq (on_ui (get_config cfg name)) (\<lambda>fs. seq (read_bean (bs_bean st)) (\<lambda>b.
       let (fieldName, idx) = split_input_name inp; v = get_prop b fieldName in
       case getBeanFieldConfig fs fieldName of
         None \<Rightarrow> throw (TypeError ''multiple'')
       | Some field \<Rightarrow>
           if fc_multiple field = Some True then
             if nullish v then throw (TypeError fieldName)
             else andthen (whenever (\<not> equals_string nt (index_get v idx) val) (on_ui (keep_origin name b)))
                    (in_store (write_inside (bs_bean st) fieldName (\<lambda>v. index_set v idx (JStr val))))
           else andthen (whenever (\<not> equals_string nt v val) (on_ui (keep_origin name b)))
                  (in_store (assign_value (bs_bean st) fieldName (JStr val))))))"

text \<open>\<open>push\<close> on the array of the field.\<close>

fun push_empty :: "jsval \<Rightarrow> jsval" where
  "push_empty (JArr vs) = JArr (vs @ [JStr []])"
| "push_empty v = v"

definition ref_onAddInput :: "string \<Rightarrow> string \<Rightarrow> (ref_form, unit) prog" where
  "ref_onAddInput name fieldName =
     seq (on_ui (get_state name)) (\<lambda>st. seq (read_bean (bs_bean st)) (\<lambda>b.
       andthen (on_ui (keep_origin name b))
         (if is_array (get_prop b fieldName) then in_store (write_inside (bs_bean st) fieldName push_empty)
          else throw (TypeError ''push''))))"

definition ref_restoreBeanState :: "form_config \<Rightarrow> string \<Rightarrow> (ref_form, unit) prog" where
  "ref_restoreBeanState cfg name =
     seq (on_ui (get_state name)) (\<lambda>st.
       andthen (case origin st of None \<Rightarrow> ret () | Some b \<Rightarrow> in_store (replace_bean (bs_bean st) (copy_obj b)))
         (ref_render cfg))"

text \<open>Validation writes the checked entries back into the array; trimming puts a new array in its place.\<close>

definition ref_validate_field ::
  "(jsnum \<Rightarrow> string) \<Rightarrow> nat \<Rightarrow> field_config \<Rightarrow> (ref_form, js_error option) prog" where
  "ref_validate_field nt a f =
     seq (read_bean a) (\<lambda>b. let v = get_prop b (fc_field f) in
       if fc_required f \<and> is_empty v then ret (Some (ThrownString ''This field cannot be empty''))
       else case fc_validator f of
         None \<Rightarrow> ret None
       | Some vc \<Rightarrow> (case lookup_validator nt (v_name vc) of
             None \<Rightarrow> throw (ErrorObject ''Unknown validator [object Object]'')
           | Some check \<Rightarrow>
               if is_array v then
                 andthen (in_store (write_inside a (fc_field f)
                     (\<lambda>v. case v of JArr vs \<Rightarrow> JArr (fst (validate_items (check vc) vs)) | _ \<Rightarrow> v)))
                   (ret (case v of JArr vs \<Rightarrow> snd (validate_items (check vc) vs) | _ \<Rightarrow> None))
               else (case check vc v of
                   Inl e \<Rightarrow> ret (Some e)
                 | Inr w \<Rightarrow> andthen (in_store (assign_value a (fc_field f) w)) (ret None))))"

fun ref_validate_fields ::
  "(jsnum \<Rightarrow> string) \<Rightarrow> string \<Rightarrow> nat \<Rightarrow> field_config list \<Rightarrow> (ref_form, bool) prog" where
  "ref_validate_fields nt name a [] = ret False"
| "ref_validate_fields nt name a (f # fs) =
     seq (ref_validate_field nt a f) (\<lambda>err.
       andthen
         (case err of None \<Rightarrow> ret () | Some e \<Rightarrow>
            on_ui (set_state name (\<lambda>st. st\<lparr>fieldErrors := map_option (obj_put (fc_field f) e) (fieldErrors st)\<rparr>)))
         (seq (ref_validate_fields nt name a fs) (\<lambda>rest. ret (err \<noteq> None \<or> rest))))"

definition ref_trim_field :: "nat \<Rightarrow> field_config \<Rightarrow> (ref_form, unit) prog" where
  "ref_trim_field a f =
     seq (read_bean a) (\<lambda>b. case get_prop b (fc_field f) of
         JArr vs \<Rightarrow> seq (lift_result (trim_items vs)) (\<lambda>ws. in_store (assign_value a (fc_field f) (JArr ws)))
       | _ \<Rightarrow> ret ())"

definition ref_onViewMode :: "(jsnum \<Rightarrow> string) \<Rightarrow> form_config \<Rightarrow> string \<Rightarrow> (ref_form, unit) prog" where
  "ref_onViewMode nt cfg name =
     seq (on_ui (get_state name)) (\<lambda>st. seq (on_ui (get_config cfg name)) (\<lambda>fs.
       andthen (for_each fs (ref_trim_field (bs_bean st)))
         (seq (on_ui (get_state name)) (\<lambda>st.
          andthen (on_ui (set_state name (\<lambda>st. st\<lparr>fieldErrors := Some []\<rparr>)))
            (seq (ref_validate_fields nt name (bs_bean st) fs) (\<lambda>err.
               andthen (whenever (\<not> err) (on_ui (set_state name (\<lambda>b. b\<lparr>editMode := False\<rparr>)))) (ref_render cfg)))))))"

fun ref_event :: "(jsnum \<Rightarrow> string) \<Rightarrow> form_config \<Rightarrow> form_event \<Rightarrow> (ref_form, unit) prog" where
  "ref_event nt cfg (ToggleClick name) = ref_onToggleBean cfg name"
| "ref_event nt cfg AddClick = ref_onAddBean cfg"
| "ref_event nt cfg (DeleteClick name) = ref_onDeleteBean cfg name"
| "ref_event nt cfg (RestoreClick name) = ref_restoreBeanState cfg name"
| "ref_event nt cfg (EditClick name) = ref_onEditMode cfg name"
| "ref_event nt cfg (OkClick name) = ref_onViewMode nt cfg name"
| "ref_event nt cfg (ChangeText name inp val) = ref_onChangeInput nt cfg name inp val"
| "ref_event nt cfg (AddInputClick name field) = ref_onAddInput name field"

fun ref_events :: "(jsnum \<Rightarrow> string) \<Rightarrow> form_config \<Rightarrow> form_event list \<Rightarrow> (ref_form, unit) prog" where
  "ref_events nt cfg [] = ret ()"
| "ref_events nt cfg (e # es) =
     seq (on_ui (reads (\<lambda>s. possible cfg s e))) (\<lambda>p. andthen (whenever p (ref_event nt cfg e)) (ref_events nt cfg es))"

text \<open>
  Binding: the array of a default value is copied, so each bean gets an array of its own. The value of
  the first option is stored as it is: \<open>getOptions\<close> is called anew for every bean and is taken to make
  its options each time, so an array among them, which nothing else refers to, only gets its name in
  the store. Options that hand out one array again and again are outside the model.
\<close>

fun ref_defaults :: "nat \<Rightarrow> field_config list \<Rightarrow> (ref_form, unit) prog" where
  "ref_defaults a [] = ret ()"
| "ref_defaults a (f # fs) = seq (read_bean a) (\<lambda>b.
     andthen
       (if nullish (get_prop b (fc_field f)) \<and> \<not> nullish (fc_default f)
        then in_store (assign_value a (fc_field f) (fc_default f))
        else if nullish (get_prop b (fc_field f)) then
          (case fc_options f of
             None \<Rightarrow> ret ()
           | Some opts \<Rightarrow> (case opts None of
                Some (o1 # _) \<Rightarrow> in_store (assign_value a (fc_field f) (opt_value o1)) | _ \<Rightarrow> ret ()))
        else ret ())
       (ref_defaults a fs))"

definition ref_bind_bean :: "form_config \<Rightarrow> string \<Rightarrow> nat \<Rightarrow> bool \<Rightarrow> (ref_form, unit) prog" where
  "ref_bind_bean cfg name a setDefault =
     andthen (whenever setDefault (seq (on_ui (get_config cfg name)) (ref_defaults a)))
       (on_ui (update (\<lambda>s. s\<lparr>beanStates := obj_put name (new_state a False (beanStates s = [])) (beanStates s)\<rparr>)))"

definition ref_bind_array :: "form_config \<Rightarrow> string \<Rightarrow> nat list \<Rightarrow> (ref_form, unit) prog" where
  "ref_bind_array cfg name array =
     (if cf_type cfg \<noteq> Some ''array'' then throw (ErrorObject ''Expect config type is array'')
      else
        seq (if array = [] then seq ref_alloc (\<lambda>a. ret [a]) else ret array) (\<lambda>array.
        andthen (on_ui (update (\<lambda>s. s\<lparr>beanArray := Some array, beanName := name\<rparr>)))
        (andthen
           (for_each [0..<length array] (\<lambda>i.
              on_ui (update (\<lambda>s. s\<lparr>beanStates :=
                obj_put (indexed_name name i) (new_state (array ! i) False False) (beanStates s)\<rparr>))))
           (on_ui (toggleBean (indexed_name name (length array)))))))"

text \<open>The calls that bind beans before a form is shown.\<close>

datatype form_bind = BindBean string nat bool | BindArray string "nat list"

fun bind_prog :: "form_config \<Rightarrow> form_bind \<Rightarrow> (ui_bean, unit) prog" where
  "bind_prog cfg (BindBean name a setDefault) = bind_bean cfg name a setDefault"
| "bind_prog cfg (BindArray name array) = bind_array cfg name array"

fun ref_bind :: "form_config \<Rightarrow> form_bind \<Rightarrow> (ref_form, unit) prog" where
  "ref_bind cfg (BindBean name a setDefault) = ref_bind_bean cfg name a setDefault"
| "ref_bind cfg (BindArray name array) = ref_bind_array cfg name array"

section \<open>Stores without sharing\<close>

definition store_ok :: "ref_store \<Rightarrow> bool" where
  "store_ok s \<longleftrightarrow> (\<forall>a. obj_wf (rs_beans s a)) \<and>
     (\<forall>a k q. map_of (rs_beans s a) k = Some (Ref q) \<longrightarrow> q < rs_next s \<and>
        (\<forall>a' k'. map_of (rs_beans s a') k' = Some (Ref q) \<longrightarrow> a' = a \<and> k' = k))"

lemma obj_put_map: "map (\<lambda>(k, v). (k, g v)) (obj_put k v m) = obj_put k (g v) (map (\<lambda>(k, v). (k, g v)) m)"
  by (induction m) auto

lemma map_of_value: "map_of (value_bean s a) k = map_option (deref s) (map_of (rs_beans s a) k)"
proof -
  have "map_of (map (\<lambda>(k, v). (k, g v)) m) k = map_option g (map_of m k)" for g :: "ref_value \<Rightarrow> jsval" and m
    by (induction m) auto
  then show ?thesis by (simp add: value_bean_def)
qed

lemma deref_beans [simp]: "deref (s\<lparr>rs_beans := h\<rparr>) = deref s"
  by (simp add: deref_def fun_eq_iff split: ref_value.split)

lemma value_put: "value_bean (put_ref a k v s) = (value_bean s)(a := obj_put k (deref s v) (value_bean s a))"
  by (auto simp: value_bean_def put_ref_def obj_put_map fun_eq_iff)

lemma value_wf: "store_ok s \<Longrightarrow> obj_wf (value_bean s a)"
  by (simp add: store_ok_def value_bean_def obj_wf_def obj_keys_def case_prod_beta o_def)

text \<open>Arrays that no bean refers to may be written freely.\<close>

lemma value_arrays:
  assumes "\<And>a k. map_of (rs_beans s a) k \<noteq> Some (Ref q)" "\<And>a. obj_wf (rs_beans s a)"
  shows "value_bean (s\<lparr>rs_arrays := (rs_arrays s)(q := vs), rs_next := n\<rparr>) = value_bean s"
proof -
  have "v \<noteq> Ref q" if "(k, v) \<in> set (rs_beans s a)" for k v a
    using that assms(1) [of a k] assms(2) [of a] by (auto simp: obj_wf_def obj_keys_def)
  then have "deref (s\<lparr>rs_arrays := (rs_arrays s)(q := vs), rs_next := n\<rparr>) v = deref s v" if "(k, v) \<in> set (rs_beans s a)" for k v a
    using that by (force simp: deref_def split: ref_value.split)
  then show ?thesis by (auto simp: value_bean_def fun_eq_iff)
qed

lemma store_ok_put_prim: "store_ok s \<Longrightarrow> store_ok (put_ref a k (Prim v) s)"
  by (auto simp: store_ok_def put_ref_def obj_wf_put split: if_splits)

lemma assign_ok:
  assumes "store_ok s"
  shows "store_ok (assign_value a k v s)"
    and "value_bean (assign_value a k v s) = (value_bean s)(a := obj_put k v (value_bean s a))"
proof -
  have fresh: "map_of (rs_beans s a') k' \<noteq> Some (Ref (rs_next s))" for a' k'
    using assms unfolding store_ok_def by (metis less_irrefl)
  show "store_ok (assign_value a k v s)"
  proof (cases "is_array v")
    case True
    then obtain vs where v: "v = JArr vs" by (cases v) auto
    show ?thesis
      using assms fresh
      by (auto simp: v assign_value_def store_ok_def put_ref_def obj_wf_put less_Suc_eq split: if_splits)
  next
    case False
    then show ?thesis using store_ok_put_prim [OF assms] by (cases v) (auto simp: assign_value_def)
  qed
  show "value_bean (assign_value a k v s) = (value_bean s)(a := obj_put k v (value_bean s a))"
  proof (cases v)
    case (JArr vs)
    have "value_bean (s\<lparr>rs_arrays := (rs_arrays s)(rs_next s := vs), rs_next := Suc (rs_next s)\<rparr>) = value_bean s"
      by (rule value_arrays) (use fresh assms in \<open>auto simp: store_ok_def\<close>)
    then show ?thesis by (simp add: JArr assign_value_def value_put deref_def)
  qed (simp_all add: assign_value_def value_put deref_def)
qed

lemma obj_put_twice: "map_of m k = Some w \<Longrightarrow> obj_wf m \<Longrightarrow> obj_put k v m = map (\<lambda>(k', w). (k', if k' = k then v else w)) m"
proof (induction m)
  case (Cons p m)
  have "k \<notin> set (obj_keys m) \<Longrightarrow> map (\<lambda>(k', w). (k', if k' = k then v else w)) m = m"
    by (rule map_idI) (auto simp: obj_keys_def rev_image_eqI)
  with Cons show ?case by (cases p) (auto simp: obj_wf_def obj_keys_def)
qed simp

lemma write_ok:
  assumes "store_ok s" "map_of (rs_beans s a) k = Some x" "\<And>vs. is_array (f (JArr vs))"
  shows "store_ok (write_inside a k f s)"
    and "value_bean (write_inside a k f s) = (value_bean s)(a := obj_put k (f (get_prop (value_bean s a) k)) (value_bean s a))"
proof -
  show "store_ok (write_inside a k f s)"
    using assms store_ok_put_prim [OF assms(1)]
    by (auto simp: write_inside_def store_ok_def split: ref_value.split jsval.split)
  have get: "get_prop (value_bean s a) k = deref s x" using assms(2) by (simp add: get_prop_def map_of_value)
  show "value_bean (write_inside a k f s) = (value_bean s)(a := obj_put k (f (get_prop (value_bean s a) k)) (value_bean s a))"
  proof (cases x)
    case (Prim v)
    then show ?thesis using assms(2) by (simp add: write_inside_def value_put get deref_def)
  next
    case (Ref q)
    obtain vs where vs: "f (JArr (rs_arrays s q)) = JArr vs" using assms(3) [of "rs_arrays s q"] by (cases "f (JArr (rs_arrays s q))") auto
    let ?s = "s\<lparr>rs_arrays := (rs_arrays s)(q := vs)\<rparr>"
    have own: "v = Ref q \<longleftrightarrow> a' = a \<and> k' = k" if "(k', v) \<in> set (rs_beans s a')" for a' k' v
    proof -
      have "map_of (rs_beans s a') k' = Some v" using that assms(1) by (simp add: store_ok_def obj_wf_def obj_keys_def)
      with assms(1,2) Ref show ?thesis by (auto simp: store_ok_def)
    qed
    have v: "deref ?s v = (if a' = a \<and> k' = k then JArr vs else deref s v)" if "(k', v) \<in> set (rs_beans s a')" for a' k' v
      using own [OF that] by (auto simp: deref_def split: ref_value.split)
    have "value_bean ?s a' = value_bean s a'" if "a' \<noteq> a" for a'
      using v that by (auto simp: value_bean_def)
    moreover have "value_bean ?s a = obj_put k (JArr vs) (value_bean s a)"
    proof -
      have "map_of (value_bean s a) k = Some (deref s x)" using assms(2) by (simp add: map_of_value)
      from obj_put_twice [OF this value_wf [OF assms(1)]]
      show ?thesis using v by (auto simp: value_bean_def)
    qed
    ultimately have "value_bean ?s = (value_bean s)(a := obj_put k (JArr vs) (value_bean s a))" by auto
    then show ?thesis using assms(2) Ref vs by (simp add: write_inside_def get deref_def)
  qed
qed

lemma assign_all_ok:
  "store_ok s \<Longrightarrow> store_ok (assign_all a m s) \<and>
   value_bean (assign_all a m s) = (value_bean s)(a := foldl (\<lambda>b (k, v). obj_put k v b) (value_bean s a) m)"
proof (induction m arbitrary: s)
  case (Cons p m)
  obtain k v where p: "p = (k, v)" by (cases p)
  from Cons.IH [OF assign_ok(1) [OF Cons.prems], of a k v] assign_ok(2) [OF Cons.prems, of a k v] show ?case
    by (simp add: p fun_eq_iff)
qed simp

lemma put_all_same: "distinct (map fst m) \<Longrightarrow> set (map fst m) \<inter> set (obj_keys b) = {} \<Longrightarrow> foldl (\<lambda>b (k, v). obj_put k v b) b m = b @ m"
  by (induction m arbitrary: b) (auto simp: obj_put_fresh obj_keys_def)

lemma replace_ok:
  assumes "store_ok s" "obj_wf m"
  shows "store_ok (replace_bean a m s)" and "value_bean (replace_bean a m s) = (value_bean s)(a := m)"
proof -
  let ?s = "s\<lparr>rs_beans := (rs_beans s)(a := [])\<rparr>"
  have ok: "store_ok ?s" using assms(1) by (auto simp: store_ok_def split: if_splits)
  have val: "value_bean ?s = (value_bean s)(a := [])" by (auto simp: value_bean_def fun_eq_iff)
  have "foldl (\<lambda>b (k, v). obj_put k v b) [] m = m" using put_all_same [of m "[]"] assms(2) by (simp add: obj_wf_def obj_keys_def)
  with assign_all_ok [OF ok, of a m] show "store_ok (replace_bean a m s)" "value_bean (replace_bean a m s) = (value_bean s)(a := m)"
    by (simp_all add: replace_bean_def val)
qed

section \<open>Simulation\<close>

definition origins_wf :: "ui_bean \<Rightarrow> bool" where
  "origins_wf s \<longleftrightarrow> list_all (\<lambda>(k, st). pred_option obj_wf (origin st)) (beanStates s)"

lemma origins_heap [simp]: "origins_wf (s\<lparr>heap := h\<rparr>) = origins_wf s"
  by (simp add: origins_wf_def)

definition unshared :: "ref_form \<Rightarrow> bool" where
  "unshared r \<longleftrightarrow> store_ok (rf_store r) \<and> origins_wf (rf_ui r)"

text \<open>
  From the unshared forms of \<open>P\<close> the computation \<open>m\<close> over references returns or raises what \<open>m'\<close>
  does over values, reaches the same values, and stays unshared; \<open>Q\<close> holds when it returns.
\<close>

definition simulates :: "(ref_form \<Rightarrow> bool) \<Rightarrow> (ref_form, 'a) prog \<Rightarrow> (ui_bean, 'a) prog \<Rightarrow> ('a \<Rightarrow> ref_form \<Rightarrow> bool) \<Rightarrow> bool" where
  "simulates P m m' Q \<longleftrightarrow> (\<forall>r. unshared r \<longrightarrow> P r \<longrightarrow>
     (case m r of (x, r') \<Rightarrow> m' (value_form r) = (x, value_form r') \<and> unshared r' \<and> (\<forall>a. x = Inr a \<longrightarrow> Q a r')))"

named_theorems sim_rules \<open>computations over references that simulate computations over values\<close>

lemma simulatesI:
  "(\<And>r. unshared r \<Longrightarrow> P r \<Longrightarrow> \<exists>x r'. m r = (x, r') \<and> m' (value_form r) = (x, value_form r') \<and> unshared r' \<and> (\<forall>a. x = Inr a \<longrightarrow> Q a r')) \<Longrightarrow>
   simulates P m m' Q"
  by (fastforce simp: simulates_def)

lemma simulatesD:
  "simulates P m m' Q \<Longrightarrow> unshared r \<Longrightarrow> P r \<Longrightarrow>
   m' (value_form r) = (fst (m r), value_form (snd (m r))) \<and> unshared (snd (m r)) \<and> (\<forall>a. fst (m r) = Inr a \<longrightarrow> Q a (snd (m r)))"
  unfolding simulates_def by (cases "m r") fastforce

lemma sim_weaken: "simulates P m m' Q \<Longrightarrow> (\<And>r. P' r \<Longrightarrow> P r) \<Longrightarrow> (\<And>a r. Q a r \<Longrightarrow> Q' a r) \<Longrightarrow> simulates P' m m' Q'"
  unfolding simulates_def by (fastforce split: prod.splits)

lemma sim_ret [sim_rules]: "(\<And>r. P r \<Longrightarrow> Q a r) \<Longrightarrow> simulates P (ret a) (ret a) Q"
  and sim_throw [sim_rules]: "simulates P (throw e) (throw e) Q"
  by (simp_all add: simulates_def ret_def throw_def)

lemma sim_seq [sim_rules]:
  assumes "simulates P m m' R" "\<And>a. simulates (R a) (f a) (f' a) Q"
  shows "simulates P (seq m f) (seq m' f') Q"
proof (rule simulatesI)
  fix r
  assume r: "unshared r" "P r"
  obtain x r1 where m: "m r = (x, r1)" by (cases "m r")
  with simulatesD [OF assms(1) r] have m': "m' (value_form r) = (x, value_form r1)" "unshared r1" "\<And>a. x = Inr a \<Longrightarrow> R a r1" by auto
  show "\<exists>x r'. seq m f r = (x, r') \<and> seq m' f' (value_form r) = (x, value_form r') \<and> unshared r' \<and> (\<forall>a. x = Inr a \<longrightarrow> Q a r')"
  proof (cases x)
    case (Inl e)
    with m m' show ?thesis by (simp add: seq_def)
  next
    case (Inr a)
    obtain y r2 where f: "f a r1 = (y, r2)" by (cases "f a r1")
    with simulatesD [OF assms(2) m'(2) m'(3) [OF Inr]] m m'(1) Inr show ?thesis by (simp add: seq_def)
  qed
qed

lemma sim_andthen [sim_rules]:
  "simulates P m m' (\<lambda>_. R) \<Longrightarrow> simulates R n n' Q \<Longrightarrow> simulates P (andthen m n) (andthen m' n') Q"
  unfolding andthen_def by (rule sim_seq)

lemma sim_whenever [sim_rules]:
  "(b \<Longrightarrow> simulates P m m' Q) \<Longrightarrow> (\<And>r. \<not> b \<Longrightarrow> P r \<Longrightarrow> Q () r) \<Longrightarrow> simulates P (whenever b m) (whenever b m') Q"
  by (simp add: whenever_def sim_ret)

lemma sim_if [sim_rules]:
  "(b \<Longrightarrow> simulates P m m' Q) \<Longrightarrow> (\<not> b \<Longrightarrow> simulates P n n' Q) \<Longrightarrow> simulates P (if b then m else n) (if b then m' else n') Q"
  by simp

lemma sim_lift [sim_rules]: "(\<And>r a. P r \<Longrightarrow> x = Inr a \<Longrightarrow> Q a r) \<Longrightarrow> simulates P (lift_result x) (lift_result x) Q"
  by (simp add: simulates_def lift_result_def)

lemma sim_for_each:
  assumes "\<And>x. x \<in> set xs \<Longrightarrow> simulates P (f x) (f' x) (\<lambda>_. P)"
  shows "simulates P (for_each xs f) (for_each xs f') (\<lambda>_. P)"
  using assms by (induction xs) (auto intro!: sim_rules)

text \<open>What runs on the values simulates itself when it leaves the beans alone.\<close>

lemma value_form_ui: "heap s = heap (value_form r) \<Longrightarrow> value_form (r\<lparr>rf_ui := s\<lparr>heap := heap (rf_ui r)\<rparr>\<rparr>) = s"
  by (simp add: value_form_def)

lemma sim_on_ui:
  assumes "leaves heap m"
    and "\<And>r. unshared r \<Longrightarrow> P r \<Longrightarrow> origins_wf (snd (m (value_form r)))"
    and "\<And>r a s. unshared r \<Longrightarrow> P r \<Longrightarrow> m (value_form r) = (Inr a, s) \<Longrightarrow> Q a (r\<lparr>rf_ui := s\<lparr>heap := heap (rf_ui r)\<rparr>\<rparr>)"
  shows "simulates P (on_ui m) m Q"
proof (rule simulatesI)
  fix r
  assume r: "unshared r" "P r"
  obtain x s where m: "m (value_form r) = (x, s)" by (cases "m (value_form r)")
  have "heap s = heap (value_form r)" using leavesD [OF assms(1), of "value_form r"] m by simp
  moreover have "origins_wf s" using assms(2) [OF r] m by simp
  ultimately show "\<exists>x r'. on_ui m r = (x, r') \<and> m (value_form r) = (x, value_form r') \<and> unshared r' \<and> (\<forall>a. x = Inr a \<longrightarrow> Q a r')"
    using m r assms(3) [OF r] by (auto simp: on_ui_def value_form_ui unshared_def)
qed

text \<open>Computations that only read.\<close>

definition only_reads :: "(ui_bean, 'a) prog \<Rightarrow> bool" where
  "only_reads m \<longleftrightarrow> (\<forall>s. snd (m s) = s)"

lemma origins_value: "unshared r \<Longrightarrow> origins_wf (value_form r)"
  by (simp add: unshared_def origins_wf_def value_form_def)

lemma sim_reads:
  assumes "only_reads m"
    and "\<And>r a. unshared r \<Longrightarrow> P r \<Longrightarrow> fst (m (value_form r)) = Inr a \<Longrightarrow> Q a r"
  shows "simulates P (on_ui m) m Q"
proof (rule sim_on_ui)
  show "leaves heap m" using assms(1) by (simp add: leaves_def only_reads_def)
  show "origins_wf (snd (m (value_form r)))" if "unshared r" for r
    using assms(1) origins_value [OF that] by (simp add: only_reads_def)
  show "Q a (r\<lparr>rf_ui := s\<lparr>heap := heap (rf_ui r)\<rparr>\<rparr>)" if "unshared r" "P r" "m (value_form r) = (Inr a, s)" for r a s
  proof -
    have "s = value_form r" using assms(1) that(3) unfolding only_reads_def by (metis snd_conv)
    then have "r\<lparr>rf_ui := s\<lparr>heap := heap (rf_ui r)\<rparr>\<rparr> = r" by (simp add: value_form_def)
    moreover have "Q a r" using assms(2) [OF that(1,2), of a] that(3) by simp
    ultimately show ?thesis by simp
  qed
qed

lemma only_reads_facts [simp]:
  "only_reads (get_state name)" "only_reads (get_config cfg name)" "only_reads (reads g)" "only_reads get_array" "only_reads (render_tabs cfg)"
proof -
  show "only_reads (get_state name)" by (simp add: only_reads_def get_state_def split: option.split)
  show c: "only_reads (get_config cfg name)" for name by (simp add: only_reads_def get_config_def throw_def ret_def split: option.split)
  show "only_reads (reads g)" by (simp add: only_reads_def reads_def)
  show "only_reads get_array" by (simp add: only_reads_def get_array_def split: option.split)
  have "leaves (\<lambda>s. s) (render_tabs cfg)" unfolding render_tabs_def by (intro frame_rules)
  then show "only_reads (render_tabs cfg)" by (simp add: leaves_def only_reads_def)
qed

lemma sim_simple: "only_reads m \<Longrightarrow> simulates (\<lambda>_. True) (on_ui m) m (\<lambda>_ _. True)"
  by (rule sim_reads) simp_all

text \<open>Updates of the states that keep the copies to restore.\<close>

lemma sim_states:
  assumes "leaves heap m" "\<And>s. origins_wf s \<Longrightarrow> origins_wf (snd (m s))"
  shows "simulates (\<lambda>_. True) (on_ui m) m (\<lambda>_ _. True)"
  by (rule sim_on_ui) (use assms origins_value in auto)

lemma sim_set_state: "(\<And>st. origin (f st) = origin st) \<Longrightarrow> simulates (\<lambda>_. True) (on_ui (set_state name f)) (set_state name f) (\<lambda>_ _. True)"
  by (rule sim_states)
     (auto simp: set_state_def update_def leaves_def origins_wf_def obj_upd_def list_all_iff split: if_splits)

lemma sim_toggle: "simulates (\<lambda>_. True) (on_ui (toggleBean name)) (toggleBean name) (\<lambda>_ _. True)"
proof (rule sim_states)
  show "leaves heap (toggleBean name)"
    unfolding toggleBean_def set_state_def by (auto simp: leaves_def prog_defs split: list.split)
  have "origins_wf (s\<lparr>beanStates := toggled name (beanStates s)\<rparr>)" if "origins_wf s" for s
    using that by (auto simp: origins_wf_def toggled_def obj_upd_def list_all_iff split: if_splits)
  then show "origins_wf (snd (toggleBean name s))" if "origins_wf s" for s
    using that toggleBean_run [of s name] by (cases "beanStates s = []") (simp_all add: toggleBean_def prog_defs origins_wf_def)
qed

text \<open>Writes into the store.\<close>

lemma sim_store:
  assumes "\<And>r. unshared r \<Longrightarrow> P r \<Longrightarrow> store_ok (f (rf_store r)) \<and> value_bean (f (rf_store r)) = (value_bean (rf_store r))(a := b)"
    and "\<And>r. unshared r \<Longrightarrow> P r \<Longrightarrow> Q () (r\<lparr>rf_store := f (rf_store r)\<rparr>)"
  shows "simulates P (in_store f) (set_bean a b) Q"
  unfolding in_store_def set_bean_def
  by (rule simulatesI) (use assms in \<open>auto simp: update_def value_form_def unshared_def\<close>)

section \<open>The handlers simulate\<close>

abbreviation simulated :: "(ref_form, 'a) prog \<Rightarrow> (ui_bean, 'a) prog \<Rightarrow> bool" where
  "simulated m m' \<equiv> simulates (\<lambda>_. True) m m' (\<lambda>_ _. True)"

lemma read_bean_run: "read_bean a r = (Inr (value_bean (rf_store r) a), r)"
  by (simp add: read_bean_def on_ui_def reads_def value_form_def)

lemma heap_value [simp]: "heap (value_form r) = value_bean (rf_store r)"
  by (simp add: value_form_def)

lemma unshared_wf: "unshared r \<Longrightarrow> obj_wf (value_bean (rf_store r) a)"
  by (simp add: unshared_def value_wf)

lemma sim_read_bean: "simulates P (read_bean a) (reads (\<lambda>s. heap s a)) (\<lambda>b r. b = value_bean (rf_store r) a \<and> obj_wf b)"
  by (rule simulatesI) (auto simp: read_bean_run reads_def unshared_wf)

lemma sim_keep_origin:
  assumes "obj_wf b"
  shows "simulates (\<lambda>r. X (rf_store r)) (on_ui (keep_origin name b)) (keep_origin name b) (\<lambda>_ r. X (rf_store r))"
proof (rule sim_on_ui)
  show "leaves heap (keep_origin name b)" by (simp add: leaves_def keep_origin_def set_state_def update_def)
  show "origins_wf (snd (keep_origin name b (value_form r)))" if "unshared r" for r
    using origins_value [OF that] obj_wf_copy [OF assms]
    by (auto simp: keep_origin_def set_state_def update_def origins_wf_def obj_upd_def list_all_iff split: if_splits)
qed simp

lemma sim_assign:
  assumes "\<And>r. P r \<Longrightarrow> b = value_bean (rf_store r) a"
  shows "simulates P (in_store (assign_value a k v)) (set_bean a (obj_put k v b)) (\<lambda>_ _. True)"
  by (rule sim_store) (use assms assign_ok in \<open>auto simp: unshared_def\<close>)

lemma value_present: "\<not> nullish (get_prop (value_bean s a) k) \<Longrightarrow> \<exists>x. map_of (rs_beans s a) k = Some x"
  by (cases "map_of (rs_beans s a) k") (auto simp: get_prop_def map_of_value)

lemma sim_write:
  assumes "\<And>r. P r \<Longrightarrow> b = value_bean (rf_store r) a" "\<not> nullish (get_prop b k)" "\<And>vs. is_array (f (JArr vs))"
  shows "simulates P (in_store (write_inside a k f)) (set_bean a (obj_put k (f (get_prop b k)) b)) (\<lambda>_ _. True)"
proof (rule sim_store)
  fix r
  assume r: "unshared r" "P r"
  have b: "b = value_bean (rf_store r) a" by (rule assms(1) [OF r(2)])
  obtain x where "map_of (rs_beans (rf_store r) a) k = Some x" using value_present assms(2) b by blast
  moreover have "store_ok (rf_store r)" using r(1) by (simp add: unshared_def)
  ultimately show "store_ok (write_inside a k f (rf_store r)) \<and>
      value_bean (write_inside a k f (rf_store r)) = (value_bean (rf_store r))(a := obj_put k (f (get_prop b k)) b)"
    using write_ok [where f = f] assms(3) b by blast
qed simp

text \<open>Binding.\<close>

lemma ref_defaults_run:
  assumes "unshared r"
  shows "\<exists>r'. ref_defaults a fs r = (Inr (), r') \<and> unshared r' \<and>
    value_form r' = (value_form r)\<lparr>heap := (value_bean (rf_store r))(a := foldl default_field (value_bean (rf_store r) a) fs)\<rparr>"
  using assms
proof (induction fs arbitrary: r)
  case (Cons f fs)
  let ?b = "value_bean (rf_store r) a"
  let ?v = "if nullish (get_prop ?b (fc_field f)) \<and> \<not> nullish (fc_default f) then Some (fc_default f)
    else if nullish (get_prop ?b (fc_field f)) then
      (case fc_options f of None \<Rightarrow> None | Some opts \<Rightarrow> (case opts None of Some (o1 # _) \<Rightarrow> Some (opt_value o1) | _ \<Rightarrow> None))
    else None"
  let ?r1 = "case ?v of None \<Rightarrow> r | Some v \<Rightarrow> r\<lparr>rf_store := assign_value a (fc_field f) v (rf_store r)\<rparr>"
  have step: "ref_defaults a (f # fs) r = ref_defaults a fs ?r1"
    by (auto simp: seq_def read_bean_run andthen_def in_store_def update_def ret_def split: option.split list.split)
  have default: "default_field ?b f = (case ?v of None \<Rightarrow> ?b | Some v \<Rightarrow> obj_put (fc_field f) v ?b)"
    by (auto simp: default_field_def split: option.split list.split)
  have ok: "unshared ?r1"
    using Cons.prems assign_ok(1) by (auto simp: unshared_def split: option.split)
  have bean: "value_bean (rf_store ?r1) = (value_bean (rf_store r))(a := default_field ?b f)"
    using Cons.prems assign_ok(2) unfolding default unshared_def by (auto split: option.split)
  have form: "value_form ?r1 = (value_form r)\<lparr>heap := value_bean (rf_store ?r1)\<rparr>"
    by (auto simp: value_form_def split: option.split)
  obtain r1 where r1: "r1 = ?r1" by blast
  note facts = step [folded r1] ok [folded r1] bean [folded r1] form [folded r1]
  from Cons.IH [OF facts(2)] show ?case
    unfolding facts(1) unfolding facts(3,4) by (simp cong: if_cong)
qed (simp add: ret_def value_form_def)

lemma sim_bind_bean: "simulated (ref_bind_bean cfg name a d) (bind_bean cfg name a d)"
proof -
  have defaults: "simulated (ref_defaults a fs) (setDefaultFieldValue fs a)" for fs
  proof (rule simulatesI)
    fix r
    assume "unshared r"
    from ref_defaults_run [OF this, of a fs] show "\<exists>x r'. ref_defaults a fs r = (x, r') \<and>
        setDefaultFieldValue fs a (value_form r) = (x, value_form r') \<and> unshared r' \<and> (\<forall>a. x = Inr a \<longrightarrow> True)"
      by (auto simp: setDefaultFieldValue_def seq_def reads_def set_bean_def update_def)
  qed
  have "list_all P m \<Longrightarrow> P (k, v) \<Longrightarrow> list_all P (obj_put k v m)" for P :: "string \<times> bean_state \<Rightarrow> bool" and k v m
    by (induction m) auto
  then have state: "simulated (on_ui (update (\<lambda>s. s\<lparr>beanStates := obj_put name (new_state a False (beanStates s = [])) (beanStates s)\<rparr>)))
      (update (\<lambda>s. s\<lparr>beanStates := obj_put name (new_state a False (beanStates s = [])) (beanStates s)\<rparr>))"
    by (intro sim_states) (auto simp: leaves_def update_def origins_wf_def new_state_def)
  show ?thesis
    unfolding ref_bind_bean_def bind_bean_def
    by (intro sim_andthen [OF sim_whenever [OF sim_seq [OF sim_simple defaults]] state]) simp_all
qed

text \<open>Drawing.\<close>

lemma ref_draw_run:
  assumes "unshared r"
  shows "\<exists>r'. ref_draw a fs r = (if snd (draw_fields (value_bean (rf_store r) a) fs) then Inr () else Inl (TypeError ''length''), r') \<and>
    unshared r' \<and> value_form r' = (value_form r)\<lparr>heap := (value_bean (rf_store r))(a := fst (draw_fields (value_bean (rf_store r) a) fs))\<rparr>"
  using assms
proof (induction fs arbitrary: r)
  case (Cons f fs)
  let ?b = "value_bean (rf_store r) a"
  let ?fill = "fc_options f = None \<and> fc_multiple f \<noteq> None \<and> nullish (get_prop ?b (fc_field f))"
  let ?r1 = "if ?fill then r\<lparr>rf_store := assign_value a (fc_field f) (JArr [JStr []]) (rf_store r)\<rparr> else r"
  show ?case
  proof (cases "drawable ?b f")
    case True
    have ok: "unshared ?r1" using Cons.prems assign_ok(1) by (auto simp: unshared_def)
    have bean: "value_bean (rf_store ?r1) = (value_bean (rf_store r))(a := fill_repeated ?b f)"
      using Cons.prems assign_ok(2) by (auto simp: unshared_def fill_repeated_def)
    have form: "value_form ?r1 = (value_form r)\<lparr>heap := value_bean (rf_store ?r1)\<rparr>"
      by (auto simp: value_form_def)
    have "ref_draw a (f # fs) r = ref_draw a fs ?r1"
      using True by (auto simp: seq_def read_bean_run andthen_def whenever_def in_store_def update_def ret_def)
    moreover have "value_bean (rf_store ?r1) a = fill_repeated ?b f" using bean by simp
    moreover have "(value_form ?r1)\<lparr>heap := (value_bean (rf_store ?r1))(a := b)\<rparr> = (value_form r)\<lparr>heap := (value_bean (rf_store r))(a := b)\<rparr>" for b
      unfolding form bean by simp
    ultimately show ?thesis using Cons.IH [OF ok] True by (simp only: draw_fields.simps if_True)
  next
    case False
    then have "ref_draw a (f # fs) r = (Inl (TypeError ''length''), r)" by (simp add: seq_def read_bean_run throw_def)
    with False Cons.prems show ?thesis by (simp add: value_form_def)
  qed
qed (simp add: ret_def value_form_def)

lemma sim_draw:
  "simulated (ref_draw a fs) (seq (reads (\<lambda>s. draw_fields (heap s a) fs)) (\<lambda>(b, drawn).
     andthen (set_bean a b) (whenever (\<not> drawn) (throw (TypeError ''length'')))))"
proof (rule simulatesI)
  fix r
  assume "unshared r"
  from ref_draw_run [OF this, of a fs] show "\<exists>x r'. ref_draw a fs r = (x, r') \<and>
      seq (reads (\<lambda>s. draw_fields (heap s a) fs)) (\<lambda>(b, drawn). andthen (set_bean a b) (whenever (\<not> drawn) (throw (TypeError ''length''))))
        (value_form r) = (x, value_form r') \<and> unshared r' \<and> (\<forall>a. x = Inr a \<longrightarrow> True)"
    by (cases "draw_fields (value_bean (rf_store r) a) fs")
       (auto simp: seq_def reads_def andthen_def set_bean_def update_def whenever_def throw_def ret_def)
qed

lemma sim_render: "simulated (ref_render cfg) (render cfg)"
proof -
  have block: "simulated (ref_render_block cfg name) (render_block cfg name)" for name
    unfolding ref_render_block_def render_block_def
    by (intro sim_seq [OF sim_simple] sim_whenever sim_draw) simp_all
  show ?thesis
    unfolding ref_render_def render_def
    by (intro sim_andthen [OF sim_simple] sim_seq [OF sim_simple] sim_for_each block) simp_all
qed

lemma sim_toggle_bean: "simulated (ref_onToggleBean cfg name) (onToggleBean cfg name)"
  unfolding ref_onToggleBean_def onToggleBean_def
  by (intro sim_andthen [OF sim_toggle] sim_seq [OF sim_simple] sim_andthen [OF sim_set_state] sim_render) simp_all

lemma sim_edit_mode: "simulated (ref_onEditMode cfg name) (onEditMode cfg name)"
  unfolding ref_onEditMode_def onEditMode_def
  by (intro sim_seq [OF sim_simple] sim_andthen [OF sim_set_state] sim_render) simp_all

lemma sim_alloc: "simulated ref_alloc alloc"
proof (rule simulatesI)
  fix r
  assume r: "unshared r"
  let ?a = "fresh (rf_ui r)"
  let ?r = "r\<lparr>rf_ui := (rf_ui r)\<lparr>fresh := Suc ?a\<rparr>,
      rf_store := (rf_store r)\<lparr>rs_beans := (rs_beans (rf_store r))(?a := [])\<rparr>\<rparr>"
  have beans: "value_bean ((rf_store r)\<lparr>rs_beans := (rs_beans (rf_store r))(?a := [])\<rparr>) = (value_bean (rf_store r))(?a := [])"
    by (auto simp: value_bean_def fun_eq_iff)
  have "ref_alloc r = (Inr ?a, ?r)"
    by (simp add: ref_alloc_def seq_def on_ui_def reads_def value_form_def andthen_def in_store_def update_def ret_def)
  moreover have "alloc (value_form r) = (Inr ?a, value_form ?r)"
    by (simp add: alloc_def value_form_def beans)
  moreover have "unshared ?r"
    using r by (auto simp: unshared_def store_ok_def origins_wf_def value_form_def split: if_splits)
  ultimately show "\<exists>x r'. ref_alloc r = (x, r') \<and> alloc (value_form r) = (x, value_form r') \<and> unshared r' \<and> (\<forall>a. x = Inr a \<longrightarrow> True)"
    by blast
qed

lemma origins_obj_put: "origins_wf s \<Longrightarrow> origins_wf (s\<lparr>beanArray := xs, beanStates := obj_put k (new_state a e sel) (beanStates s)\<rparr>)"
proof -
  have "list_all P m \<Longrightarrow> P (k, v) \<Longrightarrow> list_all P (obj_put k v m)" for P :: "string \<times> bean_state \<Rightarrow> bool" and k v m
    by (induction m) auto
  then show "origins_wf s \<Longrightarrow> ?thesis" by (simp add: origins_wf_def new_state_def)
qed

lemma sim_add_bean: "simulated (ref_onAddBean cfg) (onAddBean cfg)"
  unfolding ref_onAddBean_def onAddBean_def Let_def
  by (intro sim_seq [OF sim_simple] sim_seq [OF sim_alloc] sim_andthen [OF sim_states] sim_andthen [OF sim_toggle] sim_render)
     (auto simp: leaves_def update_def origins_obj_put)

lemma get_state_origin: "simulates (\<lambda>_. True) (on_ui (get_state name)) (get_state name) (\<lambda>st _. pred_option obj_wf (origin st))"
proof (rule sim_reads)
  fix r st
  assume r: "unshared r" and st: "fst (get_state name (value_form r)) = Inr st"
  from st have "map_of (beanStates (value_form r)) name = Some st" by (auto simp: get_state_def split: option.splits)
  with origins_value [OF r] show "pred_option obj_wf (origin st)"
    by (auto simp: origins_wf_def list_all_iff dest!: map_of_SomeD)
qed simp

lemma sim_states_read: "simulates (\<lambda>_. True) (on_ui (reads beanStates)) (reads beanStates) (\<lambda>m _. list_all (\<lambda>(n, st). pred_option obj_wf (origin st)) m)"
  by (rule sim_reads) (use origins_value in \<open>auto simp: reads_def origins_wf_def\<close>)

lemma sim_bind_array: "simulated (ref_bind_array cfg name array) (bind_array cfg name array)"
proof -
  have update: "simulated (on_ui (update (\<lambda>s. s\<lparr>beanStates := obj_put k (new_state a False False) (beanStates s)\<rparr>)))
      (update (\<lambda>s. s\<lparr>beanStates := obj_put k (new_state a False False) (beanStates s)\<rparr>))" for k a
  proof (rule sim_states)
    have "list_all P m \<Longrightarrow> P (k, v) \<Longrightarrow> list_all P (obj_put k v m)" for P :: "string \<times> bean_state \<Rightarrow> bool" and v m
      by (induction m) auto
    then show "origins_wf s \<Longrightarrow> origins_wf (snd (update (\<lambda>s. s\<lparr>beanStates := obj_put k (new_state a False False) (beanStates s)\<rparr>) s))" for s
      by (simp add: update_def origins_wf_def new_state_def)
  qed (simp add: leaves_def update_def)
  have array: "simulated (on_ui (update (\<lambda>s. s\<lparr>beanArray := Some xs, beanName := name\<rparr>))) (update (\<lambda>s. s\<lparr>beanArray := Some xs, beanName := name\<rparr>))" for xs
    by (rule sim_states) (auto simp: leaves_def update_def origins_wf_def)
  show ?thesis
    unfolding ref_bind_array_def bind_array_def
    by (intro sim_if sim_throw sim_seq [where R = "\<lambda>_ _. True"] sim_alloc sim_ret sim_andthen [OF array]
        sim_andthen [OF sim_for_each [OF update]] sim_toggle) simp_all
qed

lemma sim_given: "(c \<Longrightarrow> simulates (\<lambda>_. True) m m' Q) \<Longrightarrow> simulates (\<lambda>_. c) m m' Q"
  by (simp add: simulates_def)

lemma sim_delete_bean: "simulated (ref_onDeleteBean cfg name) (onDeleteBean cfg name)"
proof -
  have states: "simulated (on_ui (update (\<lambda>s. s\<lparr>beanArray := xs, beanStates := renumber n bs\<rparr>))) (update (\<lambda>s. s\<lparr>beanArray := xs, beanStates := renumber n bs\<rparr>))"
    if "list_all (\<lambda>st. pred_option obj_wf (origin st)) bs" for xs n bs
  proof (rule sim_states)
    have "pred_option obj_wf (origin st)" if "(k, st) \<in> set (renumber n bs)" for k st
      using that \<open>list_all _ bs\<close> by (auto simp: renumber_def in_set_enumerate_eq list_all_length)
    then show "origins_wf (snd (update (\<lambda>s. s\<lparr>beanArray := xs, beanStates := renumber n bs\<rparr>) s))" for s
      by (auto simp: origins_wf_def update_def list_all_iff)
  qed (simp add: leaves_def update_def)
  have rest: "simulated
       (andthen
         (if left = [] then
            seq ref_alloc (\<lambda>a. on_ui (update (\<lambda>s. s\<lparr>beanArray := Some [a], beanStates := renumber n [new_state a True False]\<rparr>)))
          else on_ui (update (\<lambda>s. s\<lparr>beanArray := Some (map bs_bean left), beanStates := renumber n left\<rparr>)))
         (andthen (on_ui (toggleBean ''null'')) (ref_render cfg)))
       (andthen
         (if left = [] then
            seq alloc (\<lambda>a. update (\<lambda>s. s\<lparr>beanArray := Some [a], beanStates := renumber n [new_state a True False]\<rparr>))
          else update (\<lambda>s. s\<lparr>beanArray := Some (map bs_bean left), beanStates := renumber n left\<rparr>))
         (andthen (toggleBean ''null'') (render cfg)))"
    if "list_all (\<lambda>st. pred_option obj_wf (origin st)) left" for n left
    by (intro sim_andthen [where R = "\<lambda>_. True"] sim_if sim_seq [OF sim_alloc] sim_toggle sim_render states that)
       (simp add: new_state_def)
  have left: "list_all (\<lambda>st. pred_option obj_wf (origin st)) (map snd (filter (\<lambda>(k, b). k \<noteq> name) m))"
    if "list_all (\<lambda>(n, st). pred_option obj_wf (origin st)) m" for m
    using that by (auto simp: list_all_iff)
  show ?thesis
    unfolding ref_onDeleteBean_def onDeleteBean_def Let_def
    by (rule sim_seq [OF sim_simple], simp, rule sim_seq [OF sim_simple], simp,
        rule sim_seq [OF sim_states_read], rule sim_given, rule rest, rule left)
qed

lemma keep_step:
  "simulates (\<lambda>r. b = value_bean (rf_store r) a \<and> obj_wf b) (on_ui (keep_origin name b)) (keep_origin name b)
     (\<lambda>_ r. b = value_bean (rf_store r) a)"
proof (cases "obj_wf b")
  case True
  show ?thesis by (rule sim_weaken [OF sim_keep_origin [OF True, of "\<lambda>s. b = value_bean s a"]]) simp_all
qed (simp add: simulates_def)

lemma sim_change_input: "simulated (ref_onChangeInput nt cfg name inp val) (onChangeInput nt cfg name inp val)"
proof -
  obtain k i where ki: "split_input_name inp = (k, i)" by (cases "split_input_name inp")
  have keep: "simulates (\<lambda>r. b = value_bean (rf_store r) a \<and> obj_wf b) (whenever d (on_ui (keep_origin name b))) (whenever d (keep_origin name b))
      (\<lambda>_ r. b = value_bean (rf_store r) a)" for a b d
    by (rule sim_whenever [OF keep_step]) simp
  have array: "is_array (index_set (JArr vs) i w)" for vs w by (simp add: index_set_def split: option.split)
  show ?thesis
    unfolding ref_onChangeInput_def onChangeInput_def ki Let_def prod.case
    by (intro sim_seq [OF sim_simple] sim_seq [OF sim_read_bean])
       (auto split: option.split intro!: sim_andthen [OF keep] sim_throw sim_assign sim_write array)
qed

lemma sim_add_input: "simulated (ref_onAddInput name field) (onAddInput name field)"
proof -
  have wr: "simulates (\<lambda>r. b = value_bean (rf_store r) a)
      (if is_array (get_prop b field) then in_store (write_inside a field push_empty) else throw (TypeError ''push''))
      (case get_prop b field of JArr vs \<Rightarrow> set_bean a (obj_put field (JArr (vs @ [JStr []])) b) | _ \<Rightarrow> throw (TypeError ''push''))
      (\<lambda>_ _. True)" for a b
  proof (cases "get_prop b field")
    case (JArr vs)
    then show ?thesis using sim_write [of "\<lambda>r. b = value_bean (rf_store r) a" b a field push_empty] by simp
  qed (simp_all add: sim_throw)
  from sim_andthen [OF keep_step wr] show ?thesis
    unfolding ref_onAddInput_def onAddInput_def
    by (intro sim_seq [OF sim_simple] sim_seq [OF sim_read_bean]) simp_all
qed

lemma sim_restore: "simulated (ref_restoreBeanState cfg name) (restoreBeanState cfg name)"
proof -
  have "simulates (\<lambda>_. pred_option obj_wf (origin st))
      (case origin st of None \<Rightarrow> ret () | Some b \<Rightarrow> in_store (replace_bean (bs_bean st) (copy_obj b)))
      (case origin st of None \<Rightarrow> ret () | Some b \<Rightarrow> set_bean (bs_bean st) (copy_obj b)) (\<lambda>_ _. True)" for st
  proof (cases "origin st")
    case (Some b)
    have "simulates (\<lambda>_. pred_option obj_wf (origin st)) (in_store (replace_bean (bs_bean st) (copy_obj b))) (set_bean (bs_bean st) (copy_obj b)) (\<lambda>_ _. True)"
      by (rule sim_store) (use Some replace_ok obj_wf_copy in \<open>auto simp: unshared_def\<close>)
    with Some show ?thesis by simp
  qed (simp add: sim_ret)
  from sim_andthen [OF this sim_render] show ?thesis
    unfolding ref_restoreBeanState_def restoreBeanState_def
    by (intro sim_seq [OF get_state_origin])
qed

text \<open>Validation.\<close>

definition validate_and_store ::
  "(jsnum \<Rightarrow> string) \<Rightarrow> nat \<Rightarrow> field_config \<Rightarrow> (ui_bean, js_error option) prog" where
  "validate_and_store nt a f =
     seq (reads (\<lambda>s. heap s a)) (\<lambda>b. seq (lift_result (validate_field nt f b)) (\<lambda>(b', err). andthen (set_bean a b') (ret err)))"

lemma same_bean: "set_bean a (value_bean (rf_store r) a) (value_form r) = (Inr (), value_form r)"
  by (simp add: set_bean_def update_def value_form_def)

lemma sim_validate_field: "simulated (ref_validate_field nt a f) (validate_and_store nt a f)"
proof (rule simulatesI)
  fix r
  assume r: "unshared r"
  let ?b = "value_bean (rf_store r) a"
  let ?v = "get_prop ?b (fc_field f)"
  have ref: "ref_validate_field nt a f r = (let v = ?v in
       if fc_required f \<and> is_empty v then ret (Some (ThrownString ''This field cannot be empty''))
       else case fc_validator f of
         None \<Rightarrow> ret None
       | Some vc \<Rightarrow> (case lookup_validator nt (v_name vc) of
             None \<Rightarrow> throw (ErrorObject ''Unknown validator [object Object]'')
           | Some check \<Rightarrow>
               if is_array v then
                 andthen (in_store (write_inside a (fc_field f)
                     (\<lambda>v. case v of JArr vs \<Rightarrow> JArr (fst (validate_items (check vc) vs)) | _ \<Rightarrow> v)))
                   (ret (case v of JArr vs \<Rightarrow> snd (validate_items (check vc) vs) | _ \<Rightarrow> None))
               else (case check vc v of
                   Inl e \<Rightarrow> ret (Some e)
                 | Inr w \<Rightarrow> andthen (in_store (assign_value a (fc_field f) w)) (ret None)))) r"
    by (simp add: ref_validate_field_def seq_def read_bean_run)
  have val: "validate_and_store nt a f (value_form r) =
     (case validate_field nt f ?b of Inl e \<Rightarrow> (Inl e, value_form r) | Inr (b', err) \<Rightarrow> (Inr err, snd (set_bean a b' (value_form r))))"
    by (simp add: validate_and_store_def seq_def reads_def lift_result_def andthen_def set_bean_def update_def ret_def split: sum.split)
  have ok: "store_ok (rf_store r)" using r by (simp add: unshared_def)
  have stored: "snd (set_bean a b' (value_form r)) = value_form (r\<lparr>rf_store := t\<rparr>) \<and> unshared (r\<lparr>rf_store := t\<rparr>)"
    if "store_ok t" "value_bean t = (value_bean (rf_store r))(a := b')" for t b'
    using that r by (simp add: set_bean_def update_def value_form_def unshared_def)
  note put = stored [OF assign_ok [OF ok]]
  show "\<exists>x r'. ref_validate_field nt a f r = (x, r') \<and> validate_and_store nt a f (value_form r) = (x, value_form r') \<and> unshared r' \<and>
      (\<forall>a. x = Inr a \<longrightarrow> True)"
  proof (cases "fc_required f \<and> is_empty ?v \<or> fc_validator f = None")
    case True
    then show ?thesis using r
      by (auto simp: ref val validate_field_def Let_def ret_def same_bean)
  next
    case False
    then obtain vc where vc: "fc_validator f = Some vc" "\<not> (fc_required f \<and> is_empty ?v)" by auto
    show ?thesis
    proof (cases "lookup_validator nt (v_name vc)")
      case None
      with vc r show ?thesis by (auto simp: ref val validate_field_def Let_def throw_def)
    next
      case (Some check)
      show ?thesis
      proof (cases "is_array ?v")
        case True
        then obtain vs where vs: "?v = JArr vs" by (cases ?v) auto
        let ?f = "\<lambda>v. case v of JArr vs \<Rightarrow> JArr (fst (validate_items (check vc) vs)) | _ \<Rightarrow> v"
        obtain x where x: "map_of (rs_beans (rf_store r) a) (fc_field f) = Some x" using value_present vs by (metis nullish.simps(6))
        obtain ws e where ws: "validate_items (check vc) vs = (ws, e)" by (cases "validate_items (check vc) vs")
        have "validate_field nt f ?b = Inr (obj_put (fc_field f) (JArr ws) ?b, e)" using vc Some vs ws by (auto simp: validate_field_def Let_def)
        moreover have "ref_validate_field nt a f r = (Inr e, r\<lparr>rf_store := write_inside a (fc_field f) ?f (rf_store r)\<rparr>)"
          unfolding ref using vc Some vs ws by (auto simp: Let_def andthen_def seq_def in_store_def update_def ret_def)
        ultimately show ?thesis
          using stored [OF write_ok [OF ok x, of ?f]] vs ws by (simp add: val)
      next
        case False
        then have field: "validate_field nt f ?b = (case check vc ?v of Inl e \<Rightarrow> Inr (?b, Some e) | Inr w \<Rightarrow> Inr (obj_put (fc_field f) w ?b, None))"
          using vc Some by (auto simp: validate_field_def Let_def split: jsval.split)
        show ?thesis
        proof (cases "check vc ?v")
          case (Inl e)
          with vc Some False field r show ?thesis by (auto simp: ref val Let_def ret_def same_bean)
        next
          case (Inr w)
          with vc Some False field put show ?thesis
            by (auto simp: ref val Let_def andthen_def seq_def in_store_def update_def ret_def)
        qed
      qed
    qed
  qed
qed

lemma validate_fields_step:
  "validate_fields nt name a (f # fs) =
     seq (validate_and_store nt a f) (\<lambda>err.
       andthen
         (case err of None \<Rightarrow> ret () | Some e \<Rightarrow>
            set_state name (\<lambda>st. st\<lparr>fieldErrors := map_option (obj_put (fc_field f) e) (fieldErrors st)\<rparr>))
         (seq (validate_fields nt name a fs) (\<lambda>rest. ret (err \<noteq> None \<or> rest))))"
  by (auto simp: validate_and_store_def fun_eq_iff seq_def reads_def lift_result_def andthen_def set_bean_def update_def ret_def
      split: sum.split)

lemma sim_validate_fields: "simulated (ref_validate_fields nt name a fs) (validate_fields nt name a fs)"
proof (induction fs)
  case (Cons f fs)
  have "simulated (case err of None \<Rightarrow> ret () | Some e \<Rightarrow>
            on_ui (set_state name (\<lambda>st. st\<lparr>fieldErrors := map_option (obj_put (fc_field f) e) (fieldErrors st)\<rparr>)))
      (case err of None \<Rightarrow> ret () | Some e \<Rightarrow> set_state name (\<lambda>st. st\<lparr>fieldErrors := map_option (obj_put (fc_field f) e) (fieldErrors st)\<rparr>))" for err
    by (cases err) (simp_all add: sim_ret sim_set_state)
  then show ?case
    unfolding validate_fields_step ref_validate_fields.simps
    by (intro sim_seq [OF sim_validate_field] sim_andthen [OF _ sim_seq [OF Cons.IH]] sim_ret) simp_all
qed (simp add: sim_ret)

lemma sim_trim_field: "simulated (ref_trim_field a f) (trim_field a f)"
proof -
  have "simulates (\<lambda>r. b = value_bean (rf_store r) a \<and> obj_wf b)
      (case get_prop b (fc_field f) of
         JArr vs \<Rightarrow> seq (lift_result (trim_items vs)) (\<lambda>ws. in_store (assign_value a (fc_field f) (JArr ws))) | _ \<Rightarrow> ret ())
      (case get_prop b (fc_field f) of
         JArr vs \<Rightarrow> seq (lift_result (trim_items vs)) (\<lambda>ws. set_bean a (obj_put (fc_field f) (JArr ws) b)) | _ \<Rightarrow> ret ()) (\<lambda>_ _. True)" for b
  proof (cases "get_prop b (fc_field f)")
    case (JArr vs)
    have "simulates (\<lambda>r. b = value_bean (rf_store r) a \<and> obj_wf b) (lift_result (trim_items vs)) (lift_result (trim_items vs))
        (\<lambda>_ r. b = value_bean (rf_store r) a)"
      by (rule sim_lift) simp
    from sim_seq [OF this sim_assign] JArr show ?thesis by simp
  qed (simp_all add: sim_ret)
  then show ?thesis unfolding ref_trim_field_def trim_field_def by (intro sim_seq [OF sim_read_bean])
qed

lemma onViewMode_steps:
  "onViewMode nt cfg name =
     seq (get_state name) (\<lambda>st. seq (get_config cfg name) (\<lambda>fs.
       andthen (for_each fs (trim_field (bs_bean st)))
         (seq (get_state name) (\<lambda>st.
          andthen (set_state name (\<lambda>st. st\<lparr>fieldErrors := Some []\<rparr>))
            (seq (validate_fields nt name (bs_bean st) fs) (\<lambda>err.
               andthen (whenever (\<not> err) (set_state name (\<lambda>b. b\<lparr>editMode := False\<rparr>))) (render cfg)))))))"
  unfolding onViewMode_def validateBeanState_def andthen_def seq_assoc by simp

lemma sim_view_mode: "simulated (ref_onViewMode nt cfg name) (onViewMode nt cfg name)"
  unfolding ref_onViewMode_def onViewMode_steps
  by (intro sim_seq [OF sim_simple] sim_andthen [OF sim_for_each [OF sim_trim_field]] sim_andthen [OF sim_set_state]
      sim_seq [OF sim_validate_fields] sim_andthen [OF sim_whenever [OF sim_set_state]] sim_render) simp_all

lemma sim_event: "simulated (ref_event nt cfg e) (event_prog nt cfg e)"
  by (cases e) (simp_all add: sim_toggle_bean sim_add_bean sim_delete_bean sim_restore sim_edit_mode sim_view_mode
      sim_change_input sim_add_input)

lemma sim_events: "simulated (ref_events nt cfg es) (user_events nt cfg es)"
  by (induction es)
     (simp_all add: sim_ret sim_seq [OF sim_simple] sim_andthen [OF sim_whenever [OF sim_event]])

lemma sim_bind: "simulated (ref_bind cfg b) (bind_prog cfg b)"
  by (cases b) (simp_all add: sim_bind_bean sim_bind_array)

lemma sim_form: "simulated (andthen (for_each bs (ref_bind cfg)) (andthen (ref_render cfg) (ref_events nt cfg es)))
    (andthen (for_each bs (bind_prog cfg)) (andthen (render cfg) (user_events nt cfg es)))"
  by (intro sim_andthen [OF sim_for_each [OF sim_bind]] sim_andthen [OF sim_render] sim_events)

text \<open>
  C5: The form view over references refines the one over values. As long as no array is reached from
  two fields, binding beans, showing the form and any sequence of clicks and edits return or raise
  the same in both, lead to the same states and the same values, and leave every array in one place;
  in particular a default array is not shared with the configuration or with the other beans.\<close>
theorem forms_refine_values:
  assumes "unshared r"
  shows "let m = andthen (for_each bs (ref_bind cfg)) (andthen (ref_render cfg) (ref_events nt cfg es));
             m' = andthen (for_each bs (bind_prog cfg)) (andthen (render cfg) (user_events nt cfg es))
         in m' (value_form r) = (fst (m r), value_form (snd (m r))) \<and> unshared (snd (m r))"
  using simulatesD [OF sim_form assms] by (simp add: Let_def)

text \<open>Two beans that get the same default array: a change in one does not reach the other.\<close>

definition default_form :: form_config where
  "default_form = \<lparr>cf_type = Some ''multiple'',
     cf_beans = map (\<lambda>n. (n, [(plain_field ''mails'')\<lparr>fc_multiple := Some True, fc_default := JArr [JStr ''x'']\<rparr>])) [''a'', ''b'']\<rparr>"

definition empty_store :: ref_form where
  "empty_store = \<lparr>rf_ui = empty_form (\<lambda>_. []) 2, rf_store = \<lparr>rs_beans = \<lambda>_. [], rs_arrays = \<lambda>_. [], rs_next = 0\<rparr>\<rparr>"

definition default_run :: "(jsnum \<Rightarrow> string) \<Rightarrow> (ref_form, unit) prog" where
  "default_run nt = andthen (for_each [BindBean ''a'' 0 True, BindBean ''b'' 1 True] (ref_bind default_form))
     (andthen (ref_render default_form) (ref_events nt default_form [EditClick ''a'', ChangeText ''a'' ''mails@0'' ''y'']))"

theorem forms_refine_values_witness:
  "let r = snd (default_run (\<lambda>_. []) empty_store) in
   unshared r \<and> value_bean (rf_store r) 0 = [(''mails'', JArr [JStr ''y''])] \<and> value_bean (rf_store r) 1 = [(''mails'', JArr [JStr ''x''])]"
proof -
  have "unshared empty_store" by (simp add: unshared_def empty_store_def store_ok_def obj_wf_def obj_keys_def origins_wf_def empty_form_def)
  from forms_refine_values [OF this, of "[BindBean ''a'' 0 True, BindBean ''b'' 1 True]" default_form "\<lambda>_. []"
      "[EditClick ''a'', ChangeText ''a'' ''mails@0'' ''y'']"]
  have "unshared (snd (default_run (\<lambda>_. []) empty_store))" by (simp add: Let_def default_run_def)
  moreover have "value_bean (rf_store (snd (default_run (\<lambda>_. []) empty_store))) 0 = [(''mails'', JArr [JStr ''y''])]"
    by code_simp
  moreover have "value_bean (rf_store (snd (default_run (\<lambda>_. []) empty_store))) 1 = [(''mails'', JArr [JStr ''x''])]"
    by code_simp
  ultimately show ?thesis by (simp add: Let_def)
qed

end
