(* ===== verification/UITable.thy ===== *)
theory UITable
  imports PageList JSValue
begin

text \<open>
  The table view \<open>ui/UITable.js\<close>: the items it keeps for the beans it is given, the pager
  over all of them or over those that pass the filter, the marks on the beans, the rows it
  shows, and the handlers of its events.

  The caller's array holds addresses of beans in a store. An item is the object
  \<open>{bean: ...}\<close> the view wraps a bean in; \<open>indexOf\<close> compares items by identity, so
  an item carries an identity of its own. While no filter is set the pager holds the very
  array \<open>state.beans\<close> (\<open>tb_shares\<close>): what the pager removes is then removed from the state too.
\<close>

section \<open>Configuration and state\<close>

record table_field =
  tf_field :: string
  tf_label :: string
  tf_toggled :: bool
  tf_filterable :: bool
  tf_display :: "((string \<times> jsval) list \<Rightarrow> jsval) option"

definition column :: "string \<Rightarrow> string \<Rightarrow> table_field" where
  "column label name =
     \<lparr>tf_field = name, tf_label = label, tf_toggled = True, tf_filterable = True, tf_display = None\<rparr>"

record table_item =
  it_id :: nat
  it_bean :: nat

record row_view =
  rv_number :: int
  rv_status :: string
  rv_cells :: "jsval list"

text \<open>
  \<open>tb_items\<close> is \<open>state.beans\<close> (\<open>None\<close> while the view has no state), \<open>tb_counts\<close> the counters
  of new, modified and deleted beans (\<open>None\<close> before the first count). The text of the filter
  input is \<open>None\<close> as long as the toolbar is not drawn.
\<close>

record ui_table =
  tb_fields :: "table_field list"
  tb_toolbar :: bool
  tb_configPageSize :: "int option"
  tb_beans :: "nat list option"
  tb_items :: "table_item list option"
  tb_pageSize :: int
  tb_counts :: "(nat \<times> nat \<times> nat) option"
  tb_pages :: "table_item page_list option"
  tb_shares :: bool
  tb_heap :: "nat \<Rightarrow> (string \<times> jsval) list"
  tb_next :: nat
  tb_filterVal :: "string option"
  tb_filterField :: "string option"
  tb_rows :: "row_view list"

definition new_table :: "table_field list \<Rightarrow> bool \<Rightarrow> int option \<Rightarrow> (nat \<Rightarrow> (string \<times> jsval) list) \<Rightarrow> ui_table" where
  "new_table fs toolbar n h =
     \<lparr>tb_fields = fs, tb_toolbar = toolbar, tb_configPageSize = n, tb_beans = None, tb_items = None,
      tb_pageSize = 10, tb_counts = None, tb_pages = None, tb_shares = False, tb_heap = h, tb_next = 0,
      tb_filterVal = None, tb_filterField = None, tb_rows = []\<rparr>"

text \<open>A call of a method of the pager, with its effect on a shared array.\<close>

definition on_pages :: "(table_item page_list, 'a) prog \<Rightarrow> (ui_table, 'a) prog" where
  "on_pages m t =
     (case tb_pages t of
        None \<Rightarrow> (Inl (TypeError ''pageList''), t)
      | Some p \<Rightarrow> (case m p of
          (r, p') \<Rightarrow> (r, t\<lparr>tb_pages := Some p',
             tb_items := (if tb_shares t then Some (pl_list p') else tb_items t)\<rparr>)))"

definition get_items :: "(ui_table, table_item list) prog" where
  "get_items t = (case tb_items t of None \<Rightarrow> (Inl (TypeError ''state''), t) | Some xs \<Rightarrow> (Inr xs, t))"

text \<open>Pushing an item: a pager that shares the array sees it.\<close>

definition push_item :: "table_item \<Rightarrow> (ui_table, unit) prog" where
  "push_item x =
     seq get_items (\<lambda>xs. update (\<lambda>t. t\<lparr>tb_items := Some (xs @ [x]),
       tb_pages := (if tb_shares t then map_option (pl_list_update (\<lambda>_. xs @ [x])) (tb_pages t) else tb_pages t)\<rparr>))"

section \<open>The filter\<close>

fun contains :: "string \<Rightarrow> string \<Rightarrow> bool" where
  "contains [] n = (n = [])"
| "contains (c # s) n = (take (length n) (c # s) = n \<or> contains s n)"

text \<open>
  \<open>fieldVal.indexOf(filterVal) >= 0\<close>: strings and arrays have the method, no other value a
  bean can hold does.
\<close>

definition has_index_of :: "jsval \<Rightarrow> string \<Rightarrow> bool result" where
  "has_index_of v needle =
     (case v of
        JStr s \<Rightarrow> Inr (contains s needle)
      | JArr vs \<Rightarrow> Inr (JStr needle \<in> set vs)
      | _ \<Rightarrow> Inl (TypeError ''indexOf''))"

definition getFieldConfig :: "table_field list \<Rightarrow> string option \<Rightarrow> table_field option" where
  "getFieldConfig fs name = find (\<lambda>f. Some (tf_field f) = name) fs"

definition field_value :: "table_field \<Rightarrow> (string \<times> jsval) list \<Rightarrow> jsval" where
  "field_value f b = (case tf_display f of Some d \<Rightarrow> d b | None \<Rightarrow> get_prop b (tf_field f))"

fun matching ::
  "table_field option \<Rightarrow> (nat \<Rightarrow> (string \<times> jsval) list) \<Rightarrow> string \<Rightarrow> table_item list \<Rightarrow> table_item list result" where
  "matching f h val [] = Inr []"
| "matching f h val (x # xs) =
     (case f of
        None \<Rightarrow> Inl (TypeError ''custom'')
      | Some fc \<Rightarrow> (case has_index_of (field_value fc (h (it_bean x))) val of
            Inl e \<Rightarrow> Inl e
          | Inr hit \<Rightarrow> (case matching f h val xs of
                Inl e \<Rightarrow> Inl e
              | Inr ys \<Rightarrow> Inr (if hit then x # ys else ys))))"

definition filterBeans :: "(ui_table, unit) prog" where
  "filterBeans =
     seq (reads tb_filterVal) (\<lambda>val. case val of
         Some (c # cs) \<Rightarrow>
           seq get_items (\<lambda>xs.
           seq (reads (\<lambda>t. matching (getFieldConfig (tb_fields t) (tb_filterField t)) (tb_heap t) (c # cs) xs)) (\<lambda>r.
           seq (lift_result r) (\<lambda>holder.
             update (\<lambda>t. t\<lparr>tb_pages := Some (newPageList (tb_pageSize t) holder), tb_shares := False\<rparr>))))
       | _ \<Rightarrow>
           seq get_items (\<lambda>xs.
             update (\<lambda>t. t\<lparr>tb_pages := Some (newPageList (tb_pageSize t) xs), tb_shares := True\<rparr>)))"

section \<open>Beans in and out\<close>

definition config_page_size :: "ui_table \<Rightarrow> int" where
  "config_page_size t = (case tb_configPageSize t of None \<Rightarrow> 10 | Some n \<Rightarrow> n)"

definition setBeans :: "nat list \<Rightarrow> (ui_table, unit) prog" where
  "setBeans beans =
     andthen
       (update (\<lambda>t. t\<lparr>tb_beans := Some beans, tb_pageSize := config_page_size t, tb_counts := None,
          tb_items := Some (map (\<lambda>(i, a). \<lparr>it_id = i, it_bean = a\<rparr>) (enumerate (tb_next t) beans)),
          tb_next := tb_next t + length beans, tb_shares := False\<rparr>))
       filterBeans"

definition commitChange :: "(ui_table, unit) prog" where
  "commitChange =
     seq (reads tb_beans) (\<lambda>bs. case bs of
         None \<Rightarrow> throw (TypeError ''length'')
       | Some _ \<Rightarrow> andthen (update (\<lambda>t. t\<lparr>tb_beans := Some []\<rparr>))
           (seq get_items (\<lambda>xs. update (\<lambda>t. t\<lparr>tb_beans := Some (map it_bean xs)\<rparr>))))"

definition getBeans :: "(ui_table, nat list option) prog" where
  "getBeans = andthen commitChange (reads tb_beans)"

section \<open>Marks and counters\<close>

definition persistable :: "(string \<times> jsval) list \<Rightarrow> string \<Rightarrow> bool" where
  "persistable b st \<longleftrightarrow> get_prop b ''persistableState'' = JStr st"

definition count_marks :: "(nat \<Rightarrow> (string \<times> jsval) list) \<Rightarrow> table_item list \<Rightarrow> nat \<times> nat \<times> nat" where
  "count_marks h xs =
     (length (filter (\<lambda>x. persistable (h (it_bean x)) ''NEW'') xs),
      length (filter (\<lambda>x. persistable (h (it_bean x)) ''MODIFIED'') xs),
      length (filter (\<lambda>x. persistable (h (it_bean x)) ''DELETED'') xs))"

definition updateBeanStateCount :: "(ui_table, unit) prog" where
  "updateBeanStateCount =
     seq get_items (\<lambda>xs. update (\<lambda>t. t\<lparr>tb_counts := Some (count_marks (tb_heap t) xs)\<rparr>))"

definition set_mark :: "nat \<Rightarrow> string \<Rightarrow> (ui_table, unit) prog" where
  "set_mark a st =
     update (\<lambda>t. t\<lparr>tb_heap := (tb_heap t)(a := obj_put ''persistableState'' (JStr st) (tb_heap t a))\<rparr>)"

section \<open>Rows\<close>

definition status_class :: "(string \<times> jsval) list \<Rightarrow> string" where
  "status_class b =
     (if persistable b ''DELETED'' then ''ui-deleted-text''
      else if persistable b ''MODIFIED'' then ''ui-modified-text''
      else if persistable b ''NEW'' then ''ui-new-text''
      else ''ui-origin-text'')"

definition row_of :: "table_field list \<Rightarrow> (nat \<Rightarrow> (string \<times> jsval) list) \<Rightarrow> int \<Rightarrow> nat \<times> table_item \<Rightarrow> row_view" where
  "row_of fs h from p =
     (case p of (i, x) \<Rightarrow>
       \<lparr>rv_number = from + int i + 1, rv_status = status_class (h (it_bean x)),
        rv_cells = map (\<lambda>f. field_value f (h (it_bean x))) (filter tf_toggled fs)\<rparr>)"

definition renderRows :: "(ui_table, unit) prog" where
  "renderRows =
     seq (on_pages (reads getFrom)) (\<lambda>from.
     seq (on_pages currentPageItems) (\<lambda>rows.
       update (\<lambda>t. t\<lparr>tb_rows := (case rows of None \<Rightarrow> [] | Some xs \<Rightarrow>
         map (row_of (tb_fields t) (tb_heap t) from) (enumerate 0 xs))\<rparr>)))"

text \<open>Drawing the whole view draws a fresh toolbar, if one is configured, with an empty filter.\<close>

definition renderTable :: "(ui_table, unit) prog" where
  "renderTable =
     andthen
       (update (\<lambda>t. if tb_toolbar t
          then t\<lparr>tb_filterVal := Some [],
             tb_filterField := map_option tf_field (find tf_filterable (tb_fields t))\<rparr>
          else t\<lparr>tb_filterVal := None, tb_filterField := None\<rparr>))
       renderRows"

section \<open>Operations on items\<close>

definition shown_item :: "int \<Rightarrow> (ui_table, table_item option) prog" where
  "shown_item idx = on_pages (getItemOnCurrentPage idx)"

definition tableGetItem :: "int \<Rightarrow> (ui_table, nat) prog" where
  "tableGetItem idx =
     seq (shown_item idx) (\<lambda>x. case x of None \<Rightarrow> throw (TypeError ''bean'') | Some i \<Rightarrow> ret (it_bean i))"

text \<open>\<open>state.beans.indexOf(item)\<close> and the splice that follows, shared with the pager or not.\<close>

definition drop_from_state :: "table_item option \<Rightarrow> (ui_table, unit) prog" where
  "drop_from_state x =
     seq get_items (\<lambda>xs. case x of None \<Rightarrow> ret () | Some i \<Rightarrow>
       (case index_of i xs of None \<Rightarrow> ret () | Some k \<Rightarrow>
          update (\<lambda>t. t\<lparr>tb_items := Some (js_splice1 xs (int k)),
            tb_pages := (if tb_shares t
               then map_option (pl_list_update (\<lambda>_. js_splice1 xs (int k))) (tb_pages t) else tb_pages t)\<rparr>)))"

definition tableRemoveItem :: "int \<Rightarrow> (ui_table, unit) prog" where
  "tableRemoveItem idx =
     seq (shown_item idx) (\<lambda>x.
       andthen (on_pages (removeItemOnCurrentPage idx)) (andthen (drop_from_state x) renderRows))"

definition addBean :: "nat \<Rightarrow> (ui_table, unit) prog" where
  "addBean a =
     andthen
       (update (\<lambda>t. if tb_items t = None
          then t\<lparr>tb_items := Some [], tb_pageSize := config_page_size t, tb_counts := None\<rparr> else t))
     (andthen (set_mark a ''NEW'')
     (andthen
       (seq (reads tb_next) (\<lambda>n. andthen (update (\<lambda>t. t\<lparr>tb_next := Suc n\<rparr>))
          (push_item \<lparr>it_id = n, it_bean = a\<rparr>)))
     (andthen updateBeanStateCount filterBeans)))"

definition mark_item :: "string \<Rightarrow> int \<Rightarrow> (ui_table, unit) prog" where
  "mark_item st idx =
     seq (tableGetItem idx) (\<lambda>a.
       andthen (set_mark a st) (andthen updateBeanStateCount renderRows))"

definition markDeletedItemOnCurrentPage :: "int \<Rightarrow> (ui_table, unit) prog" where
  "markDeletedItemOnCurrentPage = mark_item ''DELETED''"

definition markModifiedItemOnCurrentPage :: "int \<Rightarrow> (ui_table, unit) prog" where
  "markModifiedItemOnCurrentPage = mark_item ''MODIFIED''"

text \<open>The save button of the form in the popup: \<open>row\<close> is negative for a new bean.\<close>

definition saveBean :: "int \<Rightarrow> nat \<Rightarrow> (ui_table, unit) prog" where
  "saveBean row a =
     andthen (if row \<ge> 0 then markModifiedItemOnCurrentPage row else addBean a) renderRows"

section \<open>Handlers\<close>

definition onToggleColumn :: "string \<Rightarrow> (ui_table, unit) prog" where
  "onToggleColumn name =
     seq (reads (\<lambda>t. index_of name (map tf_field (tb_fields t)))) (\<lambda>k. case k of
         None \<Rightarrow> throw (TypeError ''toggled'')
       | Some i \<Rightarrow> andthen
           (update (\<lambda>t. t\<lparr>tb_fields := (tb_fields t)[i := (tb_fields t ! i)\<lparr>tf_toggled := \<not> tf_toggled (tb_fields t ! i)\<rparr>]\<rparr>))
           renderRows)"

definition onSelectDisplayRow :: "int \<Rightarrow> (ui_table, unit) prog" where
  "onSelectDisplayRow n =
     andthen (update (\<lambda>t. t\<lparr>tb_configPageSize := Some n\<rparr>))
       (andthen (on_pages (update (setPageSize n))) renderRows)"

text \<open>The inputs of the filter have changed to \<open>val\<close> and \<open>field\<close>.\<close>

definition onDfltBeanFilter :: "string \<Rightarrow> string option \<Rightarrow> (ui_table, unit) prog" where
  "onDfltBeanFilter val field =
     andthen (update (\<lambda>t. t\<lparr>tb_filterVal := Some val, tb_filterField := field\<rparr>))
       (andthen filterBeans renderRows)"

definition onSelectPage :: "int \<Rightarrow> (ui_table, unit) prog" where
  "onSelectPage page =
     (if page < 1 then ret ()
      else seq (on_pages (reads availablePage)) (\<lambda>n.
        if page > n then ret ()
        else seq (on_pages (getPage page)) (\<lambda>_. renderRows)))"

text \<open>
  The query of the filter toolbar: the inputs that are not empty, by name, with operator and
  value (a later input of the same name replaces an earlier one).
\<close>

definition onFilter :: "(string \<times> string \<times> string option) list \<Rightarrow> (string \<times> string \<times> string) list" where
  "onFilter inputs =
     foldl (\<lambda>q (name, oper, val). case val of
         None \<Rightarrow> q
       | Some v \<Rightarrow> if v = [] then q else obj_put name (oper, v) q) [] inputs"

text \<open>
  The toolbars in their order, each visible, hidden or (\<open>None\<close>) not on the page: the first
  visible one is hidden and the next one, or the first of all, is shown.
\<close>

definition set_display :: "bool \<Rightarrow> bool option \<Rightarrow> bool option" where
  "set_display d x = map_option (\<lambda>_. d) x"

definition onSwitchToolbar :: "bool option list \<Rightarrow> bool option list" where
  "onSwitchToolbar bars =
     (case index_of (Some True) bars of
        None \<Rightarrow> bars
      | Some i \<Rightarrow>
          let bars = bars[i := Some False];
              j = (if Suc i < length bars then Suc i else 0)
          in bars[j := set_display True (bars ! j)])"

definition toogleBlock :: "bool \<Rightarrow> bool" where
  "toogleBlock visible = (\<not> visible)"

text \<open>\<open>randomId\<close>, given the five results of \<open>Math.random()\<close>.\<close>

definition id_chars :: string where
  "id_chars = ''ABCDEFGHIJKLMNOPQRSTUVWXYZabcdefghijklmnopqrstuvwxyz0123456789''"

definition randomId :: "rat list \<Rightarrow> string" where
  "randomId rs = map (\<lambda>r. id_chars ! nat \<lfloor>r * of_nat (length id_chars)\<rfloor>) (take 5 rs)"

end
