(* ===== verification/UITableFacts.thy ===== *)
theory UITableFacts
  imports UITable "HOL-Library.Sublist"
begin

text \<open>
  The invariant of the table view (its pager is consistent and shows items of the state, each
  once and in order), that every operation keeps it, and the properties of the table that
  rest on it and on the interface \<open>pager\<close>.
\<close>

section \<open>The invariant\<close>

definition items_ok :: "ui_table \<Rightarrow> bool" where
  "items_ok t \<longleftrightarrow>
     (\<forall>xs. tb_items t = Some xs \<longrightarrow> distinct (map it_id xs) \<and> (\<forall>x \<in> set xs. it_id x < tb_next t))"

definition sizes_ok :: "ui_table \<Rightarrow> bool" where
  "sizes_ok t \<longleftrightarrow> 0 < tb_pageSize t \<and> (\<forall>n. tb_configPageSize t = Some n \<longrightarrow> 0 < n)"

definition pages_ok :: "ui_table \<Rightarrow> bool" where
  "pages_ok t \<longleftrightarrow>
     (\<forall>p. tb_pages t = Some p \<longrightarrow> pl_wf p \<and>
        (\<exists>xs. tb_items t = Some xs \<and> subseq (pl_list p) xs \<and> (tb_shares t \<longrightarrow> pl_list p = xs)))"

definition tb_wf :: "ui_table \<Rightarrow> bool" where
  "tb_wf t \<longleftrightarrow> sizes_ok t \<and> items_ok t \<and> pages_ok t"

lemmas tb_parts = tb_wf_def sizes_ok_def items_ok_def pages_ok_def

lemma distinct_items: "distinct (map it_id xs) \<Longrightarrow> distinct xs"
  by (simp add: distinct_map)

text \<open>Computations that do not touch what the invariant speaks of.\<close>

definition core :: "ui_table \<Rightarrow> (int \<times> int option) \<times> (table_item list option \<times> nat) \<times> table_item page_list option \<times> bool" where
  "core t = ((tb_pageSize t, tb_configPageSize t), (tb_items t, tb_next t), tb_pages t, tb_shares t)"

lemma tb_wf_core: "core t' = core t \<Longrightarrow> tb_wf t \<Longrightarrow> tb_wf t'"
  by (simp add: core_def tb_parts)

lemma keeps_core: "(\<And>t. core (f t) = core t) \<Longrightarrow> keeps tb_wf (update f)"
  by (rule keeps_update) (metis tb_wf_core)

lemma keeps_get_items [keep_rules]: "keeps tb_wf get_items"
  by (simp add: keeps_def get_items_def split: option.split)

lemma on_pages_run:
  "tb_pages t = Some p \<Longrightarrow> on_pages m t = (fst (m p), t\<lparr>tb_pages := Some (snd (m p)),
     tb_items := (if tb_shares t then Some (pl_list (snd (m p))) else tb_items t)\<rparr>)"
  by (simp add: on_pages_def split: prod.split)

lemma on_pages_none: "tb_pages t = None \<Longrightarrow> on_pages m t = (Inl (TypeError ''pageList''), t)"
  by (simp add: on_pages_def)

lemma keeps_on_pages:
  assumes "\<And>p. pl_wf p \<Longrightarrow> pl_wf (snd (m p)) \<and> pl_list (snd (m p)) = pl_list p"
  shows "keeps tb_wf (on_pages m)"
  unfolding keeps_def
proof (intro allI impI)
  fix t assume wf: "tb_wf t"
  show "tb_wf (snd (on_pages m t))"
  proof (cases "tb_pages t")
    case None
    with wf show ?thesis by (simp add: on_pages_none)
  next
    case (Some p)
    with wf assms [of p] show ?thesis by (auto simp: on_pages_run tb_parts)
  qed
qed

lemma keeps_pager_reads [keep_rules]:
  "keeps tb_wf (on_pages (reads g))"
  "keeps tb_wf (on_pages currentPageItems)"
  "keeps tb_wf (on_pages (getPage k))"
  "keeps tb_wf (on_pages (getItemOnCurrentPage i))"
proof -
  show "keeps tb_wf (on_pages (reads g))" by (rule keeps_on_pages) (simp add: reads_def)
  show "keeps tb_wf (on_pages currentPageItems)"
    by (rule keeps_on_pages) (use pl_wf_currentPageItems currentPageItems_wf in fastforce)
  show "keeps tb_wf (on_pages (getPage k))"
    by (rule keeps_on_pages) (use pl.goto_frame in blast)
  show "keeps tb_wf (on_pages (getItemOnCurrentPage i))"
    by (rule keeps_on_pages) (simp add: getItemOnCurrentPage_def prog_defs split: option.split)
qed

lemma keeps_set_mark [keep_rules]: "keeps tb_wf (set_mark a st)"
  unfolding set_mark_def by (rule keeps_core) (simp add: core_def)

lemma keeps_count [keep_rules]: "keeps tb_wf updateBeanStateCount"
  unfolding updateBeanStateCount_def
  by (intro keep_rules keeps_core) (simp add: core_def)

lemma keeps_renderRows [keep_rules]: "keeps tb_wf renderRows"
  unfolding renderRows_def by (intro keep_rules keeps_core) (simp add: core_def)

lemma keeps_renderTable [keep_rules]: "keeps tb_wf renderTable"
  unfolding renderTable_def by (intro keep_rules keeps_core) (simp add: core_def)

section \<open>Filtering\<close>

lemma matching_subseq: "matching f h val xs = Inr ys \<Longrightarrow> subseq ys xs"
  by (induction xs arbitrary: ys) (auto split: option.splits sum.splits if_splits)

lemma matching_texts:
  "(\<And>x. x \<in> set xs \<Longrightarrow> field_value f (h (it_bean x)) = JStr (txt x)) \<Longrightarrow>
   matching (Some f) h val xs = Inr (filter (\<lambda>x. contains (txt x) val) xs)"
  by (induction xs) (auto simp: has_index_of_def)

lemma matching_raises:
  "x \<in> set xs \<Longrightarrow> \<not> is_ok (has_index_of (field_value f (h (it_bean x))) val) \<Longrightarrow>
   \<exists>e. matching (Some f) h val xs = Inl e"
  by (induction xs) (auto simp: not_is_ok_iff split: sum.splits)

lemma filterBeans_off:
  "tb_items t = Some xs \<Longrightarrow> tb_filterVal t = None \<or> tb_filterVal t = Some [] \<Longrightarrow>
   filterBeans t = (Inr (), t\<lparr>tb_pages := Some (newPageList (tb_pageSize t) xs), tb_shares := True\<rparr>)"
  by (auto simp: filterBeans_def get_items_def prog_defs)

lemma filterBeans_on:
  "tb_items t = Some xs \<Longrightarrow> tb_filterVal t = Some val \<Longrightarrow> val \<noteq> [] \<Longrightarrow>
   filterBeans t =
     (case matching (getFieldConfig (tb_fields t) (tb_filterField t)) (tb_heap t) val xs of
        Inl e \<Rightarrow> (Inl e, t)
      | Inr ys \<Rightarrow> (Inr (), t\<lparr>tb_pages := Some (newPageList (tb_pageSize t) ys), tb_shares := False\<rparr>))"
  by (cases val) (auto simp: filterBeans_def get_items_def prog_defs split: sum.split)

lemma filterBeans_none: "tb_items t = None \<Longrightarrow> snd (filterBeans t) = t"
  by (auto simp: filterBeans_def get_items_def prog_defs split: option.split list.split)

lemma filterBeans_cases:
  assumes "tb_items t = Some xs"
  obtains "snd (filterBeans t) = t" "\<not> is_ok (fst (filterBeans t))"
  | ys b where "subseq ys xs" "b \<longrightarrow> ys = xs"
    "filterBeans t = (Inr (), t\<lparr>tb_pages := Some (newPageList (tb_pageSize t) ys), tb_shares := b\<rparr>)"
proof (cases "tb_filterVal t = None \<or> tb_filterVal t = Some []")
  case True
  with that(2) [of xs True] filterBeans_off [OF assms] show ?thesis by simp
next
  case False
  then obtain val where "tb_filterVal t = Some val" "val \<noteq> []" by auto
  note run = filterBeans_on [OF assms this]
  show ?thesis
  proof (cases "matching (getFieldConfig (tb_fields t) (tb_filterField t)) (tb_heap t) val xs")
    case (Inl e)
    with that(1) run show ?thesis by simp
  next
    case (Inr ys)
    with that(2) [of ys False] run matching_subseq show ?thesis by fastforce
  qed
qed

lemma newPageList_list [simp]: "pl_list (newPageList n xs) = xs"
  by (simp add: newPageList_def)

text \<open>Filtering establishes the pager's part, whatever the pager was before.\<close>

lemma wf_filterBeans:
  assumes "sizes_ok t" "items_ok t" "tb_items t \<noteq> None" "is_ok (fst (filterBeans t)) \<or> pages_ok t"
  shows "tb_wf (snd (filterBeans t))"
proof -
  obtain xs where xs: "tb_items t = Some xs" using assms(3) by blast
  then show ?thesis
  proof (cases rule: filterBeans_cases)
    case 1
    with assms show ?thesis by (simp add: tb_wf_def)
  next
    case (2 ys b)
    with assms(1,2) xs show ?thesis by (auto simp: tb_parts pl_wf_newPageList)
  qed
qed

lemma keeps_filterBeans [keep_rules]: "keeps tb_wf filterBeans"
  unfolding keeps_def
proof (intro allI impI)
  fix t assume wf: "tb_wf t"
  show "tb_wf (snd (filterBeans t))"
  proof (cases "tb_items t")
    case None
    with wf show ?thesis by (simp add: filterBeans_none)
  next
    case (Some xs)
    with wf wf_filterBeans [of t] show ?thesis by (simp add: tb_wf_def)
  qed
qed

section \<open>Items\<close>

lemma push_item_run:
  "tb_items t = Some xs \<Longrightarrow> push_item x t = (Inr (), t\<lparr>tb_items := Some (xs @ [x]),
     tb_pages := (if tb_shares t then map_option (pl_list_update (\<lambda>_. xs @ [x])) (tb_pages t) else tb_pages t)\<rparr>)"
  by (simp add: push_item_def get_items_def prog_defs)

lemma subseq_snoc: "subseq ys xs \<Longrightarrow> subseq ys (xs @ [x])"
  by (rule subseq_rev_drop_many)

lemma subseq_splice: "subseq (js_splice1 xs k) xs"
proof -
  let ?a = "js_clamp k (length xs)"
  have "subseq (take ?a xs @ drop (Suc ?a) xs) (take ?a xs @ drop ?a xs)"
    unfolding subseq_append' by (intro suffix_imp_subseq) (metis drop_Suc drop_drop plus_1_eq_Suc suffix_drop)
  then show ?thesis by (simp add: js_splice1_def Let_def)
qed

lemma items_ok_subseq:
  assumes "items_ok t" "tb_items t = Some xs" "subseq ys xs"
  shows "items_ok (t\<lparr>tb_items := Some ys, tb_pages := p\<rparr>)"
proof -
  have "set ys \<subseteq> set xs" using assms(3) by (auto elim: list_emb_set)
  moreover have "distinct (map it_id ys)"
    using assms subseq_map [OF assms(3), of it_id] by (auto simp: items_ok_def subseq_conv_nths intro: distinct_nthsI)
  ultimately show ?thesis using assms(1,2) by (auto simp: items_ok_def)
qed

text \<open>The item that is shown at an index.\<close>

lemma shown_item_Some:
  assumes "fst (shown_item idx t) = Inr (Some x)"
  shows "\<exists>p page. tb_pages t = Some p \<and> currentListPage p = Some page \<and> 0 \<le> idx \<and> idx < int (length page) \<and>
     x = page ! nat idx"
proof (cases "tb_pages t")
  case None
  with assms show ?thesis by (simp add: shown_item_def on_pages_none)
next
  case (Some p)
  with assms show ?thesis
    by (auto simp: shown_item_def on_pages_run getItemOnCurrentPage_def prog_defs js_index_Some_iff
        split: option.splits)
qed

lemma shown_item_state: "tb_wf t \<Longrightarrow> snd (shown_item idx t) = t"
proof (cases "tb_pages t")
  case None
  then show ?thesis by (simp add: shown_item_def on_pages_none)
next
  case (Some p)
  moreover have "snd (getItemOnCurrentPage idx p) = p"
    by (simp add: getItemOnCurrentPage_def prog_defs split: option.split)
  moreover assume "tb_wf t"
  ultimately show ?thesis by (auto simp: shown_item_def on_pages_run tb_parts)
qed

text \<open>
  Removing a shown item takes it out of the state and out of what the pager pages, with and
  without a filter.
\<close>

lemma pager_remove_shown:
  assumes "pl_wf p" "distinct (pl_list p)" "currentListPage p = Some page" "0 \<le> idx" "idx < int (length page)"
  shows "pl_list (snd (removeItemOnCurrentPage idx p)) = removeAll (page ! nat idx) (pl_list p)"
    and "page ! nat idx \<in> set (pl_list p)"
proof -
  let ?r = "(currentPage p - 1) * pageSize p + idx"
  have page: "page = page_at (pageSize p) (pl_list p) (currentPage p)"
    using assms(1,3) by (simp add: pl_wf_def)
  have pos: "0 < pageSize p" "1 \<le> currentPage p" using assms(1) by (auto simp: pl_wf_def)
  have nth: "0 \<le> ?r" "nat ?r < length (pl_list p)" "page ! nat idx = pl_list p ! nat ?r"
    using page_at_nth [OF pos assms(4)] assms(5) pos assms(4) unfolding page by simp_all
  then have "index_of (page ! nat idx) (pl_list p) = Some (nat ?r)"
    using assms(2) by (simp add: index_of_nth)
  from splice_index_of [OF assms(2) this] nth(1)
  have "js_splice1 (pl_list p) ?r = removeAll (page ! nat idx) (pl_list p)" by simp
  then show "pl_list (snd (removeItemOnCurrentPage idx p)) = removeAll (page ! nat idx) (pl_list p)"
    using pl.drop_run [OF assms(1), of idx] by simp
  show "page ! nat idx \<in> set (pl_list p)" using nth by simp
qed

section \<open>Removing\<close>

lemma andthen_snd_run: "m t = (Inr a, t') \<Longrightarrow> andthen m n t = n t'"
  by (simp add: andthen_def seq_def)

lemma drop_from_state_absent:
  "tb_items t = Some xs \<Longrightarrow> x \<notin> set xs \<Longrightarrow> drop_from_state (Some x) t = (Inr (), t)"
  "tb_items t = Some xs \<Longrightarrow> drop_from_state None t = (Inr (), t)"
  by (simp_all add: drop_from_state_def get_items_def seq_def ret_def flip: index_of_None_iff)

lemma drop_from_state_present:
  assumes "tb_items t = Some xs" "x \<in> set xs" "distinct xs" "\<not> tb_shares t"
  shows "drop_from_state (Some x) t = (Inr (), t\<lparr>tb_items := Some (removeAll x xs)\<rparr>)"
proof -
  obtain k where k: "index_of x xs = Some k" using assms(2) by (cases "index_of x xs") auto
  with splice_index_of [OF assms(3) k] assms(1,4) show ?thesis
    by (simp add: drop_from_state_def get_items_def prog_defs)
qed

lemma remove_shown_core:
  assumes "tb_wf t" "fst (shown_item idx t) = Inr (Some x)"
  obtains p xs p' where "tb_pages t = Some p" "tb_items t = Some xs" "x \<in> set xs" "pl_wf p'"
    "pl_list p' = removeAll x (pl_list p)"
    "snd (tableRemoveItem idx t) = snd (renderRows (t\<lparr>tb_pages := Some p', tb_items := Some (removeAll x xs)\<rparr>))"
proof -
  obtain p page where p: "tb_pages t = Some p" "currentListPage p = Some page" "0 \<le> idx" "idx < int (length page)"
      "x = page ! nat idx"
    using shown_item_Some [OF assms(2)] by blast
  obtain xs where xs: "tb_items t = Some xs" "subseq (pl_list p) xs" "tb_shares t \<longrightarrow> pl_list p = xs" and wf: "pl_wf p"
    using assms(1) p(1) by (auto simp: tb_parts)
  have dx: "distinct xs" using assms(1) xs(1) by (auto simp: tb_parts intro: distinct_items)
  then have dp: "distinct (pl_list p)" using xs(2) by (auto simp: subseq_conv_nths intro: distinct_nthsI)
  let ?p' = "snd (removeItemOnCurrentPage idx p)"
  have list: "pl_list ?p' = removeAll x (pl_list p)" and mem: "x \<in> set (pl_list p)"
    using pager_remove_shown [OF wf dp p(2,3,4)] p(5) by simp_all
  then have x: "x \<in> set xs" using xs(2) by (auto elim: list_emb_set)
  have ok: "fst (removeItemOnCurrentPage idx p) = Inr ()" "pl_wf ?p'"
    using pl.drop_run [OF wf, of idx] by auto
  let ?t1 = "t\<lparr>tb_pages := Some ?p', tb_items := (if tb_shares t then Some (pl_list ?p') else tb_items t)\<rparr>"
  have t1: "on_pages (removeItemOnCurrentPage idx) t = (Inr (), ?t1)"
    using ok(1) by (simp add: on_pages_run [OF p(1)])
  have shown: "shown_item idx t = (Inr (Some x), t)"
    using assms(2) shown_item_state [OF assms(1), of idx] by (metis prod.collapse)
  let ?t2 = "t\<lparr>tb_pages := Some ?p', tb_items := Some (removeAll x xs)\<rparr>"
  have "snd (tableRemoveItem idx t) = snd (renderRows ?t2)"
  proof (cases "tb_shares t")
    case True
    then have "?t1 = ?t2" using list xs(3) by simp
    moreover have "drop_from_state (Some x) ?t2 = (Inr (), ?t2)"
      by (rule drop_from_state_absent(1)) auto
    ultimately show ?thesis
      by (simp add: tableRemoveItem_def shown seq_def [of "shown_item idx"] t1 andthen_snd_run)
  next
    case False
    then have "drop_from_state (Some x) ?t1 = (Inr (), ?t1\<lparr>tb_items := Some (removeAll x xs)\<rparr>)"
      by (intro drop_from_state_present) (use xs(1) x dx in simp_all)
    with False show ?thesis
      by (simp add: tableRemoveItem_def shown seq_def [of "shown_item idx"] t1 andthen_snd_run)
  qed
  with that [OF p(1) xs(1) x ok(2) list] show ?thesis .
qed

lemma keeps_pager_remove [keep_rules]: "keeps tb_wf (on_pages (removeItemOnCurrentPage idx))"
  unfolding keeps_def
proof (intro allI impI)
  fix t assume wf: "tb_wf t"
  show "tb_wf (snd (on_pages (removeItemOnCurrentPage idx) t))"
  proof (cases "tb_pages t")
    case None
    with wf show ?thesis by (simp add: on_pages_none)
  next
    case (Some p)
    let ?p' = "snd (removeItemOnCurrentPage idx p)"
    obtain xs where xs: "tb_items t = Some xs" "subseq (pl_list p) xs" "tb_shares t \<longrightarrow> pl_list p = xs" and p: "pl_wf p"
      using wf Some by (auto simp: tb_parts)
    have sub: "subseq (pl_list ?p') (pl_list p)" and p': "pl_wf ?p'"
      using pl.drop_run [OF p, of idx] subseq_splice by auto
    then have "subseq (pl_list ?p') xs" using xs(2) subseq_order.trans by blast
    with items_ok_subseq [of t xs "pl_list ?p'" "Some ?p'"] wf xs p' Some show ?thesis
      by (auto simp: on_pages_run tb_parts)
  qed
qed

lemma wf_remove: "keeps tb_wf (tableRemoveItem idx)"
  unfolding keeps_def
proof (intro allI impI)
  fix t assume wf: "tb_wf t"
  consider e where "fst (shown_item idx t) = Inl e" | "fst (shown_item idx t) = Inr None"
    | x where "fst (shown_item idx t) = Inr (Some x)" by (metis sum.exhaust option.exhaust)
  then show "tb_wf (snd (tableRemoveItem idx t))"
  proof cases
    case 1
    with wf shown_item_state [OF wf] show ?thesis
      by (cases "shown_item idx t") (metis (no_types, lifting) fst_conv old.sum.simps(5) prod.simps(2) seq_def snd_conv tableRemoveItem_def)
  next
    case 2
    then have "tableRemoveItem idx t = andthen (on_pages (removeItemOnCurrentPage idx)) (andthen (drop_from_state None) renderRows) t"
      using shown_item_state [OF wf, of idx]
      by (cases "shown_item idx t") (simp add: tableRemoveItem_def seq_def [of "shown_item idx"])
    moreover have "keeps tb_wf (drop_from_state None)"
      unfolding drop_from_state_def option.case by (intro keep_rules)
    ultimately show ?thesis
      using wf keepsD [OF keeps_andthen [OF keeps_pager_remove keeps_andthen [OF _ keeps_renderRows]]] by metis
  next
    case 3
    then obtain p xs p' where r: "tb_pages t = Some p" "tb_items t = Some xs" "pl_wf p'" "pl_list p' = removeAll x (pl_list p)"
      "snd (tableRemoveItem idx t) = snd (renderRows (t\<lparr>tb_pages := Some p', tb_items := Some (removeAll x xs)\<rparr>))"
      using remove_shown_core [OF wf] by metis
    then have "tb_wf (t\<lparr>tb_pages := Some p', tb_items := Some (removeAll x xs)\<rparr>)"
      using wf items_ok_subseq [of t xs "removeAll x xs" "Some p'"]
      by (auto simp: tb_parts removeAll_filter_not_eq)
    then show ?thesis unfolding r(5) by (rule keepsD [OF keeps_renderRows])
  qed
qed

section \<open>Adding and setting\<close>

definition add_item :: "nat \<Rightarrow> (ui_table, unit) prog" where
  "add_item a = seq (reads tb_next) (\<lambda>n. andthen (update (\<lambda>t. t\<lparr>tb_next := Suc n\<rparr>)) (push_item \<lparr>it_id = n, it_bean = a\<rparr>))"

definition init_state :: "(ui_table, unit) prog" where
  "init_state = update (\<lambda>t. if tb_items t = None
     then t\<lparr>tb_items := Some [], tb_pageSize := config_page_size t, tb_counts := None\<rparr> else t)"

lemma addBean_parts:
  "addBean a = andthen init_state (andthen (set_mark a ''NEW'') (andthen (add_item a) (andthen updateBeanStateCount filterBeans)))"
  by (simp add: addBean_def init_state_def add_item_def)

lemma wf_init_state [keep_rules]: "keeps tb_wf init_state"
  unfolding init_state_def
  by (rule keeps_update) (auto simp: tb_parts config_page_size_def split: option.splits)

lemma add_item_run:
  "tb_items t = Some xs \<Longrightarrow> add_item a t = (Inr (), t\<lparr>tb_next := Suc (tb_next t),
     tb_items := Some (xs @ [\<lparr>it_id = tb_next t, it_bean = a\<rparr>]),
     tb_pages := (if tb_shares t then map_option (pl_list_update (\<lambda>_. xs @ [\<lparr>it_id = tb_next t, it_bean = a\<rparr>])) (tb_pages t)
       else tb_pages t)\<rparr>)"
  by (simp add: add_item_def reads_def seq_def andthen_def update_def push_item_run)

lemma items_ok_add:
  assumes "items_ok t" "tb_items t = Some xs"
  shows "items_ok (t\<lparr>tb_next := Suc (tb_next t), tb_items := Some (xs @ [\<lparr>it_id = tb_next t, it_bean = a\<rparr>]), tb_pages := q\<rparr>)"
  using assms by (fastforce simp: items_ok_def less_Suc_eq)

text \<open>
  Between the push and the filter the pager's counters lag behind the shared array; the
  filter, when it does not raise, makes a new pager.
\<close>

lemma addBean_run:
  fixes a :: nat and t :: ui_table
  defines "xs \<equiv> case tb_items t of None \<Rightarrow> [] | Some xs \<Rightarrow> xs"
  defines "h \<equiv> (tb_heap t)(a := obj_put ''persistableState'' (JStr ''NEW'') (tb_heap t a))"
  defines "ys \<equiv> xs @ [\<lparr>it_id = tb_next t, it_bean = a\<rparr>]"
  shows "addBean a t = filterBeans (t\<lparr>tb_items := Some ys, tb_next := Suc (tb_next t), tb_heap := h,
    tb_pageSize := (if tb_items t = None then config_page_size t else tb_pageSize t),
    tb_counts := Some (count_marks h ys),
    tb_pages := (if tb_shares t then map_option (pl_list_update (\<lambda>_. ys)) (tb_pages t) else tb_pages t)\<rparr>)"
  unfolding xs_def h_def ys_def
  by (cases t) (auto simp: addBean_parts init_state_def set_mark_def andthen_def seq_def update_def
        add_item_run updateBeanStateCount_def get_items_def split: option.split)

lemma wf_addBean:
  assumes "tb_wf t" "is_ok (fst (addBean a t))"
  shows "tb_wf (snd (addBean a t))"
  using assms(2) unfolding addBean_run
  by (intro wf_filterBeans)
     (use assms(1) in \<open>auto simp: tb_parts config_page_size_def less_Suc_eq split: option.splits\<close>)

lemma setBeans_run:
  "setBeans bs t = filterBeans (t\<lparr>tb_beans := Some bs, tb_pageSize := config_page_size t, tb_counts := None,
     tb_items := Some (map (\<lambda>(i, a). \<lparr>it_id = i, it_bean = a\<rparr>) (enumerate (tb_next t) bs)),
     tb_next := tb_next t + length bs, tb_shares := False\<rparr>)"
  by (simp add: setBeans_def andthen_def seq_def update_def)

lemma items_of_beans:
  "map it_id (map (\<lambda>(i, a). \<lparr>it_id = i, it_bean = a\<rparr>) (enumerate n bs)) = [n..<n + length bs]"
  "map it_bean (map (\<lambda>(i, a). \<lparr>it_id = i, it_bean = a\<rparr>) (enumerate n bs)) = bs"
  by (rule nth_equalityI; simp add: nth_enumerate_eq)+

lemma wf_setBeans:
  assumes "sizes_ok t" "is_ok (fst (setBeans bs t))"
  shows "tb_wf (snd (setBeans bs t))"
proof -
  let ?xs = "map (\<lambda>(i, a). \<lparr>it_id = i, it_bean = a\<rparr>) (enumerate (tb_next t) bs)"
  have "it_id x < tb_next t + length bs" if "x \<in> set ?xs" for x
  proof -
    from that have "it_id x \<in> set (map it_id ?xs)" by (metis image_eqI list.set_map)
    then show ?thesis unfolding items_of_beans by simp
  qed
  moreover have "distinct (map it_id ?xs)" unfolding items_of_beans by simp
  ultimately show ?thesis
    using assms unfolding setBeans_run
    by (intro wf_filterBeans) (auto simp: sizes_ok_def items_ok_def config_page_size_def simp del: map_map split: option.splits)
qed

end
