(* ===== verification/UITableProps.thy ===== *)
theory UITableProps
  imports UITableFacts
begin

text \<open>
  Reachable table views and what holds of them: consistency of the pager with the state,
  removing, browsing, filtering, marks and page sizes.
\<close>

section \<open>Reachable tables\<close>

text \<open>
  One rule per operation. In this relation setting and adding beans are steps when they return;
  \<open>table_run\<close> below has them when they raise too.
\<close>

inductive table_step :: "ui_table \<Rightarrow> ui_table \<Rightarrow> bool" where
  ts_set: "is_ok (fst (setBeans bs t)) \<Longrightarrow> table_step t (snd (setBeans bs t))"
| ts_get: "table_step t (snd (getBeans t))"
| ts_add: "is_ok (fst (addBean a t)) \<Longrightarrow> table_step t (snd (addBean a t))"
| ts_remove: "table_step t (snd (tableRemoveItem idx t))"
| ts_delete: "table_step t (snd (markDeletedItemOnCurrentPage idx t))"
| ts_modify: "table_step t (snd (markModifiedItemOnCurrentPage idx t))"
| ts_render: "table_step t (snd (renderTable t))"
| ts_column: "table_step t (snd (onToggleColumn name t))"
| ts_rows: "0 < n \<Longrightarrow> table_step t (snd (onSelectDisplayRow n t))"
| ts_filter: "table_step t (snd (onDfltBeanFilter val field t))"
| ts_page: "table_step t (snd (onSelectPage page t))"

inductive table_reachable :: "ui_table \<Rightarrow> bool" where
  tr_new: "\<forall>n. rows = Some n \<longrightarrow> 0 < n \<Longrightarrow> table_reachable (new_table fs toolbar rows h)"
| tr_step: "table_reachable t \<Longrightarrow> table_step t t' \<Longrightarrow> table_reachable t'"

lemma keeps_mark: "keeps tb_wf (mark_item st idx)"
  unfolding mark_item_def tableGetItem_def shown_item_def by (intro keep_rules)

lemma keeps_set_size: "0 < n \<Longrightarrow> keeps tb_wf (on_pages (update (setPageSize n)))"
  by (rule keeps_on_pages) (simp add: update_def pl_wf_setPageSize, simp add: setPageSize_def Let_def)

lemma keeps_commit: "keeps tb_wf getBeans"
  unfolding getBeans_def commitChange_def
  by (intro keep_rules keeps_core) (simp_all add: core_def)

lemma keeps_columns: "keeps tb_wf (onToggleColumn name)"
  unfolding onToggleColumn_def
  by (intro keep_rules keeps_core) (simp add: core_def)

lemma keeps_display_row: "0 < n \<Longrightarrow> keeps tb_wf (onSelectDisplayRow n)"
  unfolding onSelectDisplayRow_def
  by (intro keep_rules keeps_set_size keeps_update) (auto simp: tb_parts)

lemma keeps_filter: "keeps tb_wf (onDfltBeanFilter val field)"
  unfolding onDfltBeanFilter_def
  by (intro keep_rules keeps_core) (simp add: core_def)

lemma keeps_page: "keeps tb_wf (onSelectPage page)"
  unfolding onSelectPage_def by (intro keep_rules)

lemma table_step_wf: "table_step t t' \<Longrightarrow> tb_wf t \<Longrightarrow> tb_wf t'"
proof (induction rule: table_step.induct)
  case (ts_set bs t)
  then show ?case by (simp add: wf_setBeans tb_wf_def [of t])
qed (auto intro: wf_addBean keepsD [OF wf_remove] keepsD [OF keeps_mark] keepsD [OF keeps_commit]
       keepsD [OF keeps_renderTable] keepsD [OF keeps_columns] keepsD [OF keeps_display_row]
       keepsD [OF keeps_filter] keepsD [OF keeps_page]
     simp: markDeletedItemOnCurrentPage_def markModifiedItemOnCurrentPage_def)

lemma table_reachable_wf: "table_reachable t \<Longrightarrow> tb_wf t"
proof (induction rule: table_reachable.induct)
  case (tr_new rows fs toolbar h)
  then show ?case by (simp add: new_table_def tb_parts)
next
  case (tr_step t t')
  then show ?case using table_step_wf by blast
qed

section \<open>Setting and adding beans that raise\<close>

text \<open>
  When the filter raises while beans are set or added, the view has the new state and the pager
  of before. The flag tells whether the view is in order: it is lost when such a call raises,
  and the next call of \<open>setBeans\<close> that returns makes up for it. All the other operations go on.
\<close>

inductive table_run :: "bool \<Rightarrow> ui_table \<Rightarrow> bool" where
  run_new: "\<forall>n. rows = Some n \<longrightarrow> 0 < n \<Longrightarrow> table_run True (new_table fs toolbar rows h)"
| run_step: "table_run c t \<Longrightarrow> table_step t t' \<Longrightarrow> table_run c t'"
| run_set: "table_run c t \<Longrightarrow> table_run (is_ok (fst (setBeans bs t))) (snd (setBeans bs t))"
| run_add: "table_run c t \<Longrightarrow> table_run (c \<and> is_ok (fst (addBean a t))) (snd (addBean a t))"

text \<open>What holds in order or not: positive sizes, and counts and current page that fit each other.\<close>

definition lax :: "ui_table \<Rightarrow> bool" where
  "lax t \<longleftrightarrow> sizes_ok t \<and> (\<forall>p. tb_pages t = Some p \<longrightarrow> counters_ok p)"

lemma counters_relist [simp]: "counters_ok (pl\<lparr>pl_list := xs\<rparr>) = counters_ok pl"
  by (simp add: counters_ok_def)

lemma lax_on_pages:
  assumes "\<And>p. counters_ok p \<Longrightarrow> counters_ok (snd (m p))"
  shows "keeps lax (on_pages m)"
  unfolding keeps_def
proof (intro allI impI)
  fix t assume "lax t"
  with assms show "lax (snd (on_pages m t))"
    by (cases "tb_pages t") (auto simp: on_pages_none on_pages_run lax_def sizes_ok_def)
qed

lemma lax_core: "(\<And>t. core (f t) = core t) \<Longrightarrow> keeps lax (update f)"
  by (rule keeps_update) (simp add: core_def lax_def sizes_ok_def)

lemma lax_get_items: "keeps lax get_items"
  by (simp add: keeps_def get_items_def split: option.split)

lemma lax_reads: "keeps lax (on_pages (reads g))"
  by (rule lax_on_pages) (simp add: reads_def)

lemma lax_shown: "keeps lax (shown_item idx)"
  unfolding shown_item_def
  by (rule lax_on_pages) (simp add: getItemOnCurrentPage_def prog_defs split: option.split)

lemma lax_rows: "keeps lax renderRows"
  unfolding renderRows_def
  by (intro keep_rules lax_reads lax_on_pages lax_core counters_items) (simp_all add: core_def)

lemma lax_filter: "keeps lax filterBeans"
  unfolding filterBeans_def
  by (intro keep_rules lax_get_items keeps_update) (auto simp: lax_def sizes_ok_def counters_newPageList)

lemma lax_count: "keeps lax updateBeanStateCount"
  unfolding updateBeanStateCount_def by (intro keep_rules lax_get_items lax_core) (simp add: core_def)

lemma lax_set_mark: "keeps lax (set_mark a st)"
  unfolding set_mark_def by (rule lax_core) (simp add: core_def)

lemma lax_set: "keeps lax (setBeans bs)"
  unfolding setBeans_def
  by (intro keep_rules lax_filter keeps_update)
     (auto simp: lax_def sizes_ok_def config_page_size_def split: option.splits)

lemma lax_push: "keeps lax (push_item x)"
  unfolding push_item_def
  by (intro keep_rules lax_get_items keeps_update) (auto simp: lax_def sizes_ok_def split: if_splits)

lemma lax_add: "keeps lax (addBean a)"
  unfolding addBean_def
  by (intro keep_rules lax_filter lax_count lax_set_mark lax_push keeps_update)
     (auto simp: lax_def sizes_ok_def config_page_size_def split: option.splits)

lemma lax_drop: "keeps lax (drop_from_state x)"
  unfolding drop_from_state_def
  by (intro keep_rules lax_get_items keeps_update) (auto simp: lax_def sizes_ok_def split: if_splits)

lemma lax_mark: "keeps lax (mark_item st idx)"
  unfolding mark_item_def tableGetItem_def
  by (intro keep_rules lax_shown lax_set_mark lax_count lax_rows)

lemma lax_display: "0 < n \<Longrightarrow> keeps lax (onSelectDisplayRow n)"
  unfolding onSelectDisplayRow_def
  by (intro keep_rules lax_rows lax_on_pages keeps_update)
     (auto simp: update_def lax_def sizes_ok_def counters_setPageSize)

lemma lax_step: "table_step t t' \<Longrightarrow> lax t \<Longrightarrow> lax t'"
proof (induction rule: table_step.induct)
  case (ts_get t)
  then show ?case unfolding getBeans_def commitChange_def
    by (rule keepsD [rotated]) (intro keep_rules lax_get_items lax_core; simp add: core_def)
next
  case (ts_remove idx t)
  then show ?case unfolding tableRemoveItem_def
    by (rule keepsD [rotated]) (intro keep_rules lax_shown lax_on_pages lax_drop lax_rows counters_remove)
next
  case (ts_render t)
  then show ?case unfolding renderTable_def
    by (rule keepsD [rotated]) (intro keep_rules lax_rows lax_core; simp add: core_def)
next
  case (ts_column name t)
  then show ?case unfolding onToggleColumn_def
    by (rule keepsD [rotated]) (intro keep_rules lax_rows lax_core; simp add: core_def)
next
  case (ts_filter val field t)
  then show ?case unfolding onDfltBeanFilter_def
    by (rule keepsD [rotated]) (intro keep_rules lax_rows lax_filter lax_core; simp add: core_def)
next
  case (ts_page page t)
  then show ?case unfolding onSelectPage_def
    by (rule keepsD [rotated]) (intro keep_rules lax_rows lax_reads lax_on_pages counters_getPage)
qed (auto intro: keepsD [OF lax_set] keepsD [OF lax_add] keepsD [OF lax_mark] keepsD [OF lax_display]
     simp: markDeletedItemOnCurrentPage_def markModifiedItemOnCurrentPage_def)

lemma table_run_wf: "table_run c t \<Longrightarrow> lax t \<and> (c \<longrightarrow> tb_wf t)"
proof (induction rule: table_run.induct)
  case (run_new rows fs toolbar h)
  then show ?case by (simp add: new_table_def tb_parts lax_def)
next
  case (run_step c t t')
  then show ?case using lax_step table_step_wf by blast
next
  case (run_set c t bs)
  then have "sizes_ok t" by (simp add: lax_def)
  with run_set show ?case by (blast intro: keepsD [OF lax_set] wf_setBeans)
next
  case (run_add c t a)
  then show ?case by (blast intro: keepsD [OF lax_add] wf_addBean)
qed

lemma table_reachable_run: "table_reachable t \<Longrightarrow> table_run True t"
  by (induction rule: table_reachable.induct) (auto intro: run_new run_step)

section \<open>Rows\<close>

text \<open>Drawing the rows of a consistent table caches the page and touches nothing else.\<close>

lemma renderRows_run:
  assumes "tb_wf t" "tb_pages t = Some p"
  defines "page \<equiv> page_at (pageSize p) (pl_list p) (currentPage p)"
  shows "renderRows t = (Inr (), t\<lparr>tb_pages := Some (p\<lparr>currentListPage := Some page\<rparr>),
     tb_rows := map (row_of (tb_fields t) (tb_heap t) (getFrom p)) (enumerate 0 page)\<rparr>)"
proof -
  have p: "pl_wf p" and shares: "tb_shares t \<Longrightarrow> tb_items t = Some (pl_list p)"
    using assms(1,2) by (auto simp: tb_parts)
  have off: "on_pages (reads getFrom) t = (Inr (getFrom p), t)"
    using assms(2) shares by (cases "tb_shares t") (auto simp: on_pages_run reads_def)
  have items: "on_pages currentPageItems t = (Inr (Some page), t\<lparr>tb_pages := Some (p\<lparr>currentListPage := Some page\<rparr>)\<rparr>)"
    using currentPageItems_wf [OF p] assms(2) shares
    by (cases "tb_shares t") (auto simp: on_pages_run page_def)
  show ?thesis by (simp add: renderRows_def seq_def off items update_def)
qed

lemma leaves_renderRows_pages:
  assumes "\<And>t p r. v (t\<lparr>tb_pages := p, tb_rows := r\<rparr>) = v t" "tb_wf t"
  shows "v (snd (renderRows t)) = v t"
proof (cases "tb_pages t")
  case None
  then have "snd (renderRows t) = t" by (simp add: renderRows_def seq_def on_pages_none)
  then show ?thesis by simp
next
  case (Some p)
  show ?thesis unfolding renderRows_run [OF assms(2) Some] snd_conv by (rule assms(1))
qed

section \<open>Browsing\<close>

text \<open>The events by which a user looks at the table without changing its beans.\<close>

inductive browses :: "ui_table \<Rightarrow> ui_table \<Rightarrow> bool" where
  br_none: "browses t t"
| br_render: "browses t t' \<Longrightarrow> browses t (snd (renderTable t'))"
| br_column: "browses t t' \<Longrightarrow> browses t (snd (onToggleColumn name t'))"
| br_rows: "browses t t' \<Longrightarrow> 0 < n \<Longrightarrow> browses t (snd (onSelectDisplayRow n t'))"
| br_filter: "browses t t' \<Longrightarrow> browses t (snd (onDfltBeanFilter val field t'))"
| br_page: "browses t t' \<Longrightarrow> browses t (snd (onSelectPage page t'))"

definition beans_of :: "ui_table \<Rightarrow> nat list option \<times> table_item list option \<times> (nat \<Rightarrow> (string \<times> jsval) list)" where
  "beans_of t = (tb_beans t, tb_items t, tb_heap t)"

definition same_beans :: "ui_table \<Rightarrow> ui_table \<Rightarrow> bool" where
  "same_beans t0 t \<longleftrightarrow> tb_wf t \<and> beans_of t = beans_of t0"

lemma keeps_same_pager:
  assumes "\<And>p. pl_wf p \<Longrightarrow> pl_wf (snd (m p)) \<and> pl_list (snd (m p)) = pl_list p"
  shows "keeps (same_beans t0) (on_pages m)"
  unfolding keeps_def
proof (intro allI impI)
  fix t assume s: "same_beans t0 t"
  then have "tb_wf (snd (on_pages m t))" using keepsD [OF keeps_on_pages [of m]] assms by (simp add: same_beans_def)
  moreover have "beans_of (snd (on_pages m t)) = beans_of t"
  proof (cases "tb_pages t")
    case None
    then show ?thesis by (simp add: on_pages_none)
  next
    case (Some p)
    with s assms [of p] show ?thesis
      by (auto simp: on_pages_run beans_of_def same_beans_def tb_parts)
  qed
  ultimately show "same_beans t0 (snd (on_pages m t))" using s by (simp add: same_beans_def)
qed

lemma keeps_same_update:
  "(\<And>t. core (f t) = core t) \<Longrightarrow> (\<And>t. beans_of (f t) = beans_of t) \<Longrightarrow> keeps (same_beans t0) (update f)"
  by (rule keeps_update) (auto simp: same_beans_def intro: tb_wf_core)

lemma keeps_same_reads [keep_rules]:
  "keeps (same_beans t0) (on_pages (reads g))"
  "keeps (same_beans t0) (on_pages currentPageItems)"
  "keeps (same_beans t0) (on_pages (getPage k))"
proof -
  show "keeps (same_beans t0) (on_pages (reads g))" by (rule keeps_same_pager) (simp add: reads_def)
  show "keeps (same_beans t0) (on_pages currentPageItems)"
    by (rule keeps_same_pager) (use pl_wf_currentPageItems currentPageItems_wf in fastforce)
  show "keeps (same_beans t0) (on_pages (getPage k))"
    by (rule keeps_same_pager) (use pl.goto_frame in blast)
qed

lemma keeps_same_size: "0 < n \<Longrightarrow> keeps (same_beans t0) (on_pages (update (setPageSize n)))"
  by (rule keeps_same_pager) (simp add: update_def pl_wf_setPageSize, simp add: setPageSize_def Let_def)

lemma keeps_same_rows [keep_rules]: "keeps (same_beans t0) renderRows"
  unfolding renderRows_def
  by (intro keep_rules keeps_same_update) (simp_all add: core_def beans_of_def)

lemma keeps_same_filter [keep_rules]: "keeps (same_beans t0) filterBeans"
  unfolding keeps_def
proof (intro allI impI)
  fix t assume s: "same_beans t0 t"
  have "beans_of (snd (filterBeans t)) = beans_of t"
  proof (cases "tb_items t")
    case None
    then show ?thesis by (simp add: filterBeans_none)
  next
    case (Some xs)
    then show ?thesis by (cases rule: filterBeans_cases) (auto simp: beans_of_def)
  qed
  with s show "same_beans t0 (snd (filterBeans t))"
    by (simp add: same_beans_def keepsD [OF keeps_filterBeans])
qed

lemma browses_same:
  assumes "browses t t'" "tb_wf t"
  shows "same_beans t t'"
  using assms
proof (induction rule: browses.induct)
  case (br_none t)
  then show ?case by (simp add: same_beans_def)
next
  case (br_render t t')
  have "keeps (same_beans t) renderTable" unfolding renderTable_def
    by (intro keep_rules keeps_same_update) (simp_all add: core_def beans_of_def)
  with br_render show ?case by (simp add: keeps_def)
next
  case (br_column t t' name)
  have "keeps (same_beans t) (onToggleColumn name)" unfolding onToggleColumn_def
    by (intro keep_rules keeps_same_update) (simp_all add: core_def beans_of_def)
  with br_column show ?case by (simp add: keeps_def)
next
  case (br_rows t t' n)
  have "keeps (same_beans t) (onSelectDisplayRow n)" unfolding onSelectDisplayRow_def
    by (intro keep_rules keeps_same_size keeps_update br_rows(2))
       (auto simp: same_beans_def beans_of_def tb_parts br_rows(2))
  with br_rows show ?case by (simp add: keeps_def)
next
  case (br_filter t t' val field)
  have "keeps (same_beans t) (onDfltBeanFilter val field)" unfolding onDfltBeanFilter_def
    by (intro keep_rules keeps_same_update) (simp_all add: core_def beans_of_def)
  with br_filter show ?case by (simp add: keeps_def)
next
  case (br_page t t' page)
  have "keeps (same_beans t) (onSelectPage page)" unfolding onSelectPage_def by (intro keep_rules)
  with br_page show ?case by (simp add: keeps_def)
qed

lemma getBeans_run:
  "tb_beans t = Some bs \<Longrightarrow> tb_items t = Some xs \<Longrightarrow>
   getBeans t = (Inr (Some (map it_bean xs)), t\<lparr>tb_beans := Some (map it_bean xs)\<rparr>)"
  by (simp add: getBeans_def commitChange_def get_items_def prog_defs)

lemma setBeans_beans:
  "tb_beans (snd (setBeans bs t)) = Some bs"
  "\<exists>xs. tb_items (snd (setBeans bs t)) = Some xs \<and> map it_bean xs = bs"
proof -
  let ?xs = "map (\<lambda>(i, a). \<lparr>it_id = i, it_bean = a\<rparr>) (enumerate (tb_next t) bs)"
  let ?t = "t\<lparr>tb_beans := Some bs, tb_pageSize := config_page_size t, tb_counts := None,
     tb_items := Some ?xs, tb_next := tb_next t + length bs, tb_shares := False\<rparr>"
  have "tb_items ?t = Some ?xs" by simp
  then have "tb_beans (snd (filterBeans ?t)) = Some bs" "tb_items (snd (filterBeans ?t)) = Some ?xs"
    by (cases rule: filterBeans_cases; simp)+
  then show "tb_beans (snd (setBeans bs t)) = Some bs"
    "\<exists>xs. tb_items (snd (setBeans bs t)) = Some xs \<and> map it_bean xs = bs"
    unfolding setBeans_run using items_of_beans(2) by blast+
qed

section \<open>Properties\<close>

text \<open>A table of three beans with a text column and a numeric column, two rows a page.\<close>

definition sample_heap :: "nat \<Rightarrow> (string \<times> jsval) list" where
  "sample_heap a = (if a = 0 then [(''name'', JStr ''kafka''), (''port'', JNum (Fin 9092))]
     else if a = 1 then [(''name'', JStr ''zookeeper''), (''port'', JNum (Fin 2181))]
     else [(''name'', JStr ''sparkngin''), (''port'', JNum (Fin 7080))])"

definition sample_table :: ui_table where
  "sample_table = snd (renderTable (snd (setBeans [0, 1, 2]
     (new_table [column ''Name'' ''name'', column ''Port'' ''port''] True (Some 2) sample_heap))))"

lemma sample_reachable: "table_reachable sample_table"
proof -
  let ?t = "new_table [column ''Name'' ''name'', column ''Port'' ''port''] True (Some 2) sample_heap"
  have "is_ok (fst (setBeans [0, 1, 2] ?t))" by code_simp
  then show ?thesis unfolding sample_table_def
    by (intro tr_step [OF tr_step [OF tr_new ts_set] ts_render]) simp_all
qed

text \<open>
  C7: a table went through any sequence of operations. As long as setting and adding beans did not
  raise, its pager is consistent and pages items of the state, each once and in the order of the
  state; without a filter it pages all of them. Once such a call has raised, the counts and the
  current page of the pager still fit each other, and the first call of \<open>setBeans\<close> that
  returns makes the table consistent again.
\<close>
theorem table_always_consistent:
  assumes "table_run in_order t" and "tb_pages t = Some p"
  shows "1 \<le> currentPage p \<and> currentPage p \<le> availablePage p \<and>
    (in_order \<longrightarrow> available p = int (length (pl_list p)) \<and>
      (\<exists>xs. tb_items t = Some xs \<and> distinct xs \<and> subseq (pl_list p) xs \<and> (tb_shares t \<longrightarrow> pl_list p = xs)))"
proof -
  have "counters_ok p" and wf: "in_order \<longrightarrow> tb_wf t"
    using table_run_wf [OF assms(1)] assms(2) by (simp_all add: lax_def)
  then have "1 \<le> currentPage p \<and> currentPage p \<le> availablePage p" by (simp add: counters_ok_def)
  with wf assms(2) show ?thesis by (auto simp: tb_parts pl_wf_def intro: distinct_items)
qed

text \<open>
  A filter on the numeric column is typed (it raises), then new beans are set: that raises too,
  and the pager still holds the old items, which are not in the state.
\<close>

definition torn_table :: ui_table where
  "torn_table = snd (setBeans [1] (snd (onDfltBeanFilter ''9'' (Some ''port'') sample_table)))"

lemma torn_run: "table_run False torn_table"
proof -
  let ?t = "snd (onDfltBeanFilter ''9'' (Some ''port'') sample_table)"
  have "table_run True ?t" by (rule run_step [OF table_reachable_run [OF sample_reachable] ts_filter])
  from run_set [OF this, of "[1]"] have "table_run (is_ok (fst (setBeans [1] ?t))) torn_table"
    by (simp only: torn_table_def)
  moreover have "\<not> is_ok (fst (setBeans [1] ?t))" by code_simp
  ultimately show ?thesis by simp
qed

theorem table_always_consistent_witness:
  "(\<exists>p. tb_pages sample_table = Some p \<and> availablePage p = 2 \<and> available p = int (length (pl_list p))) \<and>
   (\<exists>p. tb_pages torn_table = Some p \<and> currentPage p \<le> availablePage p \<and> tb_items torn_table \<noteq> Some (pl_list p))"
proof -
  have "map_option availablePage (tb_pages sample_table) = Some 2" by code_simp
  then obtain p where p: "tb_pages sample_table = Some p" "availablePage p = 2" by auto
  have "map_option (length \<circ> pl_list) (tb_pages torn_table) = Some 3" "map_option length (tb_items torn_table) = Some 1"
    by code_simp+
  then obtain q where q: "tb_pages torn_table = Some q" "tb_items torn_table \<noteq> Some (pl_list q)" by force
  show ?thesis
    using table_always_consistent [OF table_reachable_run [OF sample_reachable] p(1)]
      table_always_consistent [OF torn_run q(1)] p q by blast
qed

text \<open>
  C8: removing the item shown at an index, with or without a filter, takes exactly that item
  out of the state and out of the pager; what \<open>getBeans\<close> returns afterwards is the old beans
  without that one.
\<close>
theorem remove_takes_item_out:
  assumes "table_reachable t" and "fst (shown_item idx t) = Inr (Some x)"
    and "tb_items t = Some xs" and "tb_pages t = Some p" and "tb_beans t = Some bs"
  shows "\<exists>p' ys zs. xs = ys @ x # zs \<and> x \<notin> set ys \<union> set zs \<and>
    tb_items (snd (tableRemoveItem idx t)) = Some (ys @ zs) \<and>
    tb_pages (snd (tableRemoveItem idx t)) = Some p' \<and> pl_list p' = removeAll x (pl_list p) \<and>
    fst (getBeans (snd (tableRemoveItem idx t))) = Inr (Some (map it_bean ys @ map it_bean zs))"
proof -
  have wf: "tb_wf t" by (rule table_reachable_wf [OF assms(1)])
  then have wf': "tb_wf (snd (tableRemoveItem idx t))" using wf_remove by (simp add: keeps_def)
  obtain p' where r: "x \<in> set xs" "pl_wf p'" "pl_list p' = removeAll x (pl_list p)"
      "snd (tableRemoveItem idx t) = snd (renderRows (t\<lparr>tb_pages := Some p', tb_items := Some (removeAll x xs)\<rparr>))"
    using remove_shown_core [OF wf assms(2)] assms(3,4) by (metis option.inject)
  let ?t = "t\<lparr>tb_pages := Some p', tb_items := Some (removeAll x xs)\<rparr>"
  have wft: "tb_wf ?t"
    using wf items_ok_subseq [of t xs "removeAll x xs" "Some p'"] assms(3,4) r(2,3)
    by (auto simp: tb_parts removeAll_filter_not_eq)
  have run: "renderRows ?t = (Inr (), ?t\<lparr>tb_pages := Some (p'\<lparr>currentListPage := Some (page_at (pageSize p') (pl_list p') (currentPage p'))\<rparr>),
     tb_rows := map (row_of (tb_fields t) (tb_heap t) (getFrom p')) (enumerate 0 (page_at (pageSize p') (pl_list p') (currentPage p')))\<rparr>)"
    using renderRows_run [OF wft, of p'] by simp
  have "distinct xs" using wf assms(3) by (auto simp: tb_parts intro: distinct_items)
  with r(1) obtain ys zs where xs: "xs = ys @ x # zs" "x \<notin> set ys" "x \<notin> set zs"
    by (metis split_list distinct_append distinct.simps(2) disjoint_iff list.set_intros(1))
  let ?q = "p'\<lparr>currentListPage := Some (page_at (pageSize p') (pl_list p') (currentPage p'))\<rparr>"
  have "tb_items (snd (tableRemoveItem idx t)) = Some (ys @ zs)"
    "tb_pages (snd (tableRemoveItem idx t)) = Some ?q" "tb_beans (snd (tableRemoveItem idx t)) = Some bs"
    using r(4) run xs assms(5) by simp_all
  with r(3) xs getBeans_run [of "snd (tableRemoveItem idx t)" bs "ys @ zs"] show ?thesis
    by (intro exI [of _ ?q] exI [of _ ys] exI [of _ zs]) simp
qed

theorem remove_takes_item_out_witness:
  "fst (getBeans (snd (tableRemoveItem 1 (snd (onDfltBeanFilter ''k'' (Some ''name'') sample_table))))) = Inr (Some [0, 2])"
proof -
  let ?t = "snd (onDfltBeanFilter ''k'' (Some ''name'') sample_table)"
  let ?i = "\<lambda>k. \<lparr>it_id = k, it_bean = k\<rparr>"
  have r: "table_reachable ?t" by (rule tr_step [OF sample_reachable ts_filter])
  have 1: "fst (shown_item 1 ?t) = Inr (Some (?i 1))" "tb_items ?t = Some [?i 0, ?i 1, ?i 2]"
    "tb_beans ?t = Some [0, 1, 2]" by code_simp+
  obtain p where p: "tb_pages ?t = Some p" using 1(1) shown_item_Some by blast
  obtain ys zs where "[?i 0, ?i 1, ?i 2] = ys @ ?i 1 # zs"
    "fst (getBeans (snd (tableRemoveItem 1 ?t))) = Inr (Some (map it_bean ys @ map it_bean zs))"
    using remove_takes_item_out [OF r 1(1,2) p 1(3)] by blast
  moreover from this(1) have "ys = [?i 0] \<and> zs = [?i 2]"
    by (auto simp: Cons_eq_append_conv)
  ultimately show ?thesis by simp
qed

text \<open>
  C10: the beans given to a table come back unchanged from \<open>getBeans\<close>, and in between the user
  may draw the table, filter, turn pages, change the page size and hide columns in any order.
\<close>
theorem beans_come_back:
  assumes "table_reachable t" and "is_ok (fst (setBeans bs t))" and "browses (snd (setBeans bs t)) t'"
  shows "fst (getBeans t') = Inr (Some bs) \<and> tb_heap t' = tb_heap (snd (setBeans bs t))"
proof -
  have "tb_wf (snd (setBeans bs t))"
    using wf_setBeans [OF _ assms(2)] table_reachable_wf [OF assms(1)] by (simp add: tb_wf_def)
  from browses_same [OF assms(3) this]
  have "tb_beans t' = tb_beans (snd (setBeans bs t))" "tb_items t' = tb_items (snd (setBeans bs t))"
    "tb_heap t' = tb_heap (snd (setBeans bs t))" by (auto simp: same_beans_def beans_of_def)
  moreover obtain xs where "tb_items (snd (setBeans bs t)) = Some xs" "map it_bean xs = bs"
    using setBeans_beans(2) by blast
  ultimately show ?thesis using setBeans_beans(1) [of bs t] getBeans_run [of t' bs xs] by simp
qed

theorem beans_come_back_witness:
  "let t = snd (setBeans [2, 0, 1] sample_table)
   in fst (getBeans (snd (onSelectPage 2 (snd (onDfltBeanFilter ''r'' (Some ''name'') t))))) = Inr (Some [2, 0, 1])"
proof -
  have ok: "is_ok (fst (setBeans [2, 0, 1] sample_table))" by code_simp
  have b: "browses (snd (setBeans [2, 0, 1] sample_table))
    (snd (onSelectPage 2 (snd (onDfltBeanFilter ''r'' (Some ''name'') (snd (setBeans [2, 0, 1] sample_table))))))"
    by (intro browses.intros)
  from beans_come_back [OF sample_reachable ok b] show ?thesis by (simp add: Let_def)
qed

text \<open>
  The rows drawn are those of the current page: row \<open>i\<close> carries the number of its item in
  the paged list, counted from 1, the class of the mark on its bean, and one cell for each
  column that is switched on.
\<close>
lemma rows_show_current_page:
  assumes "table_reachable t" and "tb_pages t = Some p" and "tb_rows (snd (renderRows t)) = rows"
  shows "length rows = length (page_at (pageSize p) (pl_list p) (currentPage p)) \<and>
    (\<forall>i < length rows.
       let b = tb_heap t (it_bean (pl_list p ! nat ((currentPage p - 1) * pageSize p + int i))) in
       rv_number (rows ! i) = (currentPage p - 1) * pageSize p + int i + 1 \<and>
       rv_status (rows ! i) = status_class b \<and>
       rv_cells (rows ! i) = map (\<lambda>f. field_value f b) (filter tf_toggled (tb_fields t)))"
proof -
  let ?page = "page_at (pageSize p) (pl_list p) (currentPage p)"
  have wf: "tb_wf t" by (rule table_reachable_wf [OF assms(1)])
  then have pos: "0 < pageSize p" "1 \<le> currentPage p" using assms(2) by (auto simp: tb_parts pl_wf_def)
  have rows: "rows = map (row_of (tb_fields t) (tb_heap t) (getFrom p)) (enumerate 0 ?page)"
    using renderRows_run [OF wf assms(2)] assms(3) by simp
  have "?page ! i = pl_list p ! nat ((currentPage p - 1) * pageSize p + int i)" if "i < length ?page" for i
    using page_at_nth(2) [OF pos, of "int i" "pl_list p"] that by simp
  then show ?thesis by (simp add: rows row_of_def nth_enumerate_eq getFrom_def Let_def)
qed

lemma rows_show_current_page_witness:
  "map rv_number (tb_rows (snd (renderRows (snd (onSelectPage 2 sample_table))))) = [3]"
proof -
  let ?t = "snd (onSelectPage 2 sample_table)"
  have r: "table_reachable ?t" by (rule tr_step [OF sample_reachable ts_page])
  have *: "map_option currentPage (tb_pages ?t) = Some 2" "map_option pageSize (tb_pages ?t) = Some 2"
    "map_option (\<lambda>p. length (pl_list p)) (tb_pages ?t) = Some 3" by code_simp+
  then obtain p where p: "tb_pages ?t = Some p" "currentPage p = 2" "pageSize p = 2" "length (pl_list p) = 3"
    by auto
  from rows_show_current_page [OF r p(1) refl] p
  have "length (tb_rows (snd (renderRows ?t))) = 1" "rv_number (tb_rows (snd (renderRows ?t)) ! 0) = 3"
    by (simp_all add: page_at_def Let_def)
  then show ?thesis by (cases "tb_rows (snd (renderRows ?t))") auto
qed

text \<open>
  C31: typing into the filter of a column whose values are all text shows, on the first page,
  exactly the items whose text contains the input, in the order of the state.
\<close>
theorem filter_shows_matching_items:
  assumes "table_reachable t" and "tb_items t = Some xs" and "val \<noteq> []"
    and "getFieldConfig (tb_fields t) field = Some f"
    and "\<And>x. x \<in> set xs \<Longrightarrow> field_value f (tb_heap t (it_bean x)) = JStr (txt x)"
  shows "\<exists>p. fst (onDfltBeanFilter val field t) = Inr () \<and>
    tb_pages (snd (onDfltBeanFilter val field t)) = Some p \<and> currentPage p = 1 \<and>
    pl_list p = filter (\<lambda>x. contains (txt x) val) xs \<and> tb_items (snd (onDfltBeanFilter val field t)) = Some xs"
proof -
  let ?t = "t\<lparr>tb_filterVal := Some val, tb_filterField := field\<rparr>"
  let ?ys = "filter (\<lambda>x. contains (txt x) val) xs"
  let ?u = "?t\<lparr>tb_pages := Some (newPageList (tb_pageSize t) ?ys), tb_shares := False\<rparr>"
  have "matching (Some f) (tb_heap t) val xs = Inr ?ys" by (rule matching_texts) (rule assms(5))
  then have run: "filterBeans ?t = (Inr (), ?u)"
    using filterBeans_on [of ?t xs val] assms(2,3,4) by simp
  have "tb_wf ?t" using table_reachable_wf [OF assms(1)] by (auto intro: tb_wf_core simp: core_def)
  then have "tb_wf ?u" using keepsD [OF keeps_filterBeans] run by (metis snd_conv)
  from renderRows_run [OF this, of "newPageList (tb_pageSize t) ?ys"] run assms(2) show ?thesis
    by (simp add: onDfltBeanFilter_def andthen_def seq_def update_def newPageList_def)
qed

theorem filter_shows_matching_items_witness:
  "map_option (\<lambda>p. map it_bean (pl_list p)) (tb_pages (snd (onDfltBeanFilter ''ka'' (Some ''name'') sample_table))) = Some [0]"
proof -
  let ?i = "\<lambda>k. \<lparr>it_id = k, it_bean = k\<rparr>"
  let ?txt = "\<lambda>x. if it_bean x = 0 then ''kafka'' else if it_bean x = 1 then ''zookeeper'' else ''sparkngin''"
  have 1: "tb_items sample_table = Some [?i 0, ?i 1, ?i 2]" by code_simp
  have 2: "getFieldConfig (tb_fields sample_table) (Some ''name'') = Some (column ''Name'' ''name'')"
    by (simp add: sample_table_def new_table_def getFieldConfig_def column_def renderTable_def setBeans_run
        filterBeans_off prog_defs renderRows_def on_pages_def currentPageItems_def)
  have 3: "field_value (column ''Name'' ''name'') (tb_heap sample_table (it_bean x)) = JStr (?txt x)"
    if "x \<in> set [?i 0, ?i 1, ?i 2]" for x
  proof -
    have "tb_heap sample_table = sample_heap"
      by (simp add: sample_table_def new_table_def renderTable_def setBeans_run
          filterBeans_off prog_defs renderRows_def on_pages_def currentPageItems_def)
    then show ?thesis using that by (auto simp: field_value_def column_def sample_heap_def get_prop_def)
  qed
  from filter_shows_matching_items [OF sample_reachable 1 _ 2 3, of "''ka''"]
  obtain p where "tb_pages (snd (onDfltBeanFilter ''ka'' (Some ''name'') sample_table)) = Some p"
    "pl_list p = filter (\<lambda>x. contains (?txt x) ''ka'') [?i 0, ?i 1, ?i 2]" by auto
  then show ?thesis by simp
qed

text \<open>
  Filtering on a column that holds a number, or nothing, for some item raises; the pager is
  left as it was, so the table keeps showing the items of the previous filter.
\<close>
lemma filter_on_numbers_raises:
  assumes "tb_items t = Some xs" and "val \<noteq> []" and "getFieldConfig (tb_fields t) field = Some f"
    and "x \<in> set xs" and "\<not> is_ok (has_index_of (field_value f (tb_heap t (it_bean x))) val)"
  shows "\<not> is_ok (fst (onDfltBeanFilter val field t)) \<and>
    tb_pages (snd (onDfltBeanFilter val field t)) = tb_pages t \<and> tb_rows (snd (onDfltBeanFilter val field t)) = tb_rows t"
proof -
  let ?t = "t\<lparr>tb_filterVal := Some val, tb_filterField := field\<rparr>"
  obtain e where "matching (Some f) (tb_heap t) val xs = Inl e" 
    using matching_raises [of x xs f "tb_heap t" val] assms(4,5) by blast
  then have "filterBeans ?t = (Inl e, ?t)"
    using filterBeans_on [of ?t xs val] assms(1,2,3) by simp
  then show ?thesis by (simp add: onDfltBeanFilter_def andthen_def seq_def update_def)
qed

lemma filter_on_numbers_raises_witness:
  "\<not> is_ok (fst (onDfltBeanFilter ''90'' (Some ''port'') sample_table))"
proof -
  let ?i = "\<lambda>k. \<lparr>it_id = k, it_bean = k\<rparr>"
  have 1: "tb_items sample_table = Some [?i 0, ?i 1, ?i 2]" by code_simp
  have 2: "getFieldConfig (tb_fields sample_table) (Some ''port'') = Some (column ''Port'' ''port'')"
    by (simp add: sample_table_def new_table_def getFieldConfig_def column_def renderTable_def setBeans_run
        filterBeans_off prog_defs renderRows_def on_pages_def currentPageItems_def)
  have 3: "tb_heap sample_table 0 = [(''name'', JStr ''kafka''), (''port'', JNum (Fin 9092))]" by code_simp
  from filter_on_numbers_raises [OF 1 _ 2, of "''90''" "?i 0"] 3 show ?thesis
    by (simp add: field_value_def column_def get_prop_def has_index_of_def)
qed

text \<open>
  Marking the item shown at an index puts the mark on that bean only and brings the
  counters in line with the marks of all items.
\<close>
lemma marking_counts:
  assumes "table_reachable t" and "fst (shown_item idx t) = Inr (Some x)" and "tb_items t = Some xs"
  defines "t' \<equiv> snd (markDeletedItemOnCurrentPage idx t)"
  shows "persistable (tb_heap t' (it_bean x)) ''DELETED'' \<and> (\<forall>a. a \<noteq> it_bean x \<longrightarrow> tb_heap t' a = tb_heap t a) \<and>
    tb_items t' = Some xs \<and> tb_counts t' = Some (count_marks (tb_heap t') xs) \<and>
    snd (snd (count_marks (tb_heap t') xs)) > 0"
proof -
  have wf: "tb_wf t" by (rule table_reachable_wf [OF assms(1)])
  have mem: "x \<in> set xs" using remove_shown_core [OF wf assms(2)] assms(3) by (metis option.inject)
  have get: "tableGetItem idx t = (Inr (it_bean x), t)"
    using assms(2) shown_item_state [OF wf, of idx]
    by (cases "shown_item idx t") (simp add: tableGetItem_def seq_def ret_def)
  let ?h = "(tb_heap t)(it_bean x := obj_put ''persistableState'' (JStr ''DELETED'') (tb_heap t (it_bean x)))"
  let ?t = "t\<lparr>tb_heap := ?h, tb_counts := Some (count_marks ?h xs)\<rparr>"
  have wft: "tb_wf ?t" using wf by (auto intro: tb_wf_core simp: core_def)
  have t': "t' = snd (renderRows ?t)"
    using assms(3)
    by (simp add: t'_def markDeletedItemOnCurrentPage_def mark_item_def seq_def [of "tableGetItem idx"] get
        andthen_def set_mark_def seq_def update_def updateBeanStateCount_def get_items_def)
  have "tb_heap t' = ?h" "tb_counts t' = Some (count_marks ?h xs)" "tb_items t' = Some xs"
    using leaves_renderRows_pages [where v = tb_heap, OF _ wft] leaves_renderRows_pages [where v = tb_counts, OF _ wft]
      leaves_renderRows_pages [where v = tb_items, OF _ wft] assms(3) by (simp_all add: t')
  moreover have "persistable (?h (it_bean x)) ''DELETED''" by (simp add: persistable_def)
  moreover from this mem have "filter (\<lambda>y. persistable (?h (it_bean y)) ''DELETED'') xs \<noteq> []"
    by (auto simp: filter_empty_conv)
  ultimately show ?thesis by (simp add: count_marks_def)
qed

lemma marking_counts_witness:
  "tb_counts (snd (markDeletedItemOnCurrentPage 1 sample_table)) = Some (0, 0, 1)"
proof -
  let ?i = "\<lambda>k. \<lparr>it_id = k, it_bean = k\<rparr>"
  let ?t = "snd (markDeletedItemOnCurrentPage 1 sample_table)"
  have 1: "fst (shown_item 1 sample_table) = Inr (Some (?i 1))" "tb_items sample_table = Some [?i 0, ?i 1, ?i 2]"
    by code_simp+
  have "tb_counts ?t = Some (count_marks (tb_heap ?t) [?i 0, ?i 1, ?i 2])"
    using marking_counts [OF sample_reachable 1] by blast
  moreover have "count_marks (tb_heap ?t) [?i 0, ?i 1, ?i 2] = (0, 0, 1)" by code_simp
  ultimately show ?thesis by simp
qed

text \<open>
  The page size chosen in the toolbar holds for the current pager only: the next filter
  event makes a pager with the size the state was set up with.
\<close>
lemma chosen_page_size_is_forgotten:
  assumes "table_reachable t" and "tb_pages t = Some p" and "0 < n"
  defines "t1 \<equiv> snd (onSelectDisplayRow n t)"
  shows "map_option pageSize (tb_pages t1) = Some n \<and>
    (\<forall>val field. is_ok (fst (onDfltBeanFilter val field t1)) \<longrightarrow>
       map_option pageSize (tb_pages (snd (onDfltBeanFilter val field t1))) = Some (tb_pageSize t))"
proof -
  have wf: "tb_wf t" by (rule table_reachable_wf [OF assms(1)])
  have wf1: "tb_wf t1" unfolding t1_def by (rule keepsD [OF keeps_display_row [OF assms(3)] wf])
  let ?t = "t\<lparr>tb_configPageSize := Some n\<rparr>"
  let ?u = "snd (on_pages (update (setPageSize n)) ?t)"
  have u: "on_pages (update (setPageSize n)) ?t = (Inr (), ?u)" "tb_pages ?u = Some (setPageSize n p)"
    using on_pages_run [of ?t p "update (setPageSize n)"] assms(2) by (simp_all add: update_def)
  have "andthen (on_pages (update (setPageSize n))) renderRows ?t = renderRows ?u"
    by (rule andthen_snd_run [where a = "()"]) (rule u(1))
  then have t1: "t1 = snd (renderRows ?u)"
    by (simp add: t1_def onSelectDisplayRow_def andthen_def [of "update (\<lambda>t. t\<lparr>tb_configPageSize := Some n\<rparr>)"]
        seq_def [of "update (\<lambda>t. t\<lparr>tb_configPageSize := Some n\<rparr>)"] update_def [of "\<lambda>t. t\<lparr>tb_configPageSize := Some n\<rparr>"])
  have "tb_wf ?t" using wf assms(3) by (auto simp: tb_parts)
  then have wfu: "tb_wf ?u" by (rule keepsD [OF keeps_set_size [OF assms(3)]])
  have size: "tb_pageSize t1 = tb_pageSize t"
    using leaves_renderRows_pages [where v = tb_pageSize, OF _ wfu]
      on_pages_run [of ?t p "update (setPageSize n)"] assms(2) by (simp add: t1)
  have items: "\<exists>xs. tb_items t1 = Some xs"
    using wf1 renderRows_run [OF wfu u(2)] by (auto simp: t1 tb_parts)
  have "map_option pageSize (tb_pages t1) = Some n"
    using renderRows_run [OF wfu u(2)] by (simp add: t1 setPageSize_def Let_def)
  moreover have "map_option pageSize (tb_pages (snd (onDfltBeanFilter val field t1))) = Some (tb_pageSize t)"
    if ok: "is_ok (fst (onDfltBeanFilter val field t1))" for val field
  proof -
    let ?v = "t1\<lparr>tb_filterVal := Some val, tb_filterField := field\<rparr>"
    have wfv: "tb_wf ?v" using wf1 by (auto intro: tb_wf_core simp: core_def)
    obtain xs where "tb_items ?v = Some xs" using items by auto
    then show ?thesis
    proof (cases rule: filterBeans_cases)
      case 1
      with ok show ?thesis
        by (cases "filterBeans ?v"; cases "fst (filterBeans ?v)") (auto simp: onDfltBeanFilter_def andthen_def seq_def update_def)
    next
      case (2 ys b)
      let ?w = "?v\<lparr>tb_pages := Some (newPageList (tb_pageSize ?v) ys), tb_shares := b\<rparr>"
      have "tb_wf ?w" using keepsD [OF keeps_filterBeans wfv] 2(3) by simp
      from renderRows_run [OF this, of "newPageList (tb_pageSize ?v) ys"] 2(3) size show ?thesis
        by (simp add: onDfltBeanFilter_def andthen_def seq_def update_def newPageList_def)
    qed
  qed
  ultimately show ?thesis by blast
qed

lemma chosen_page_size_is_forgotten_witness:
  "map_option pageSize (tb_pages (snd (onDfltBeanFilter ''a'' (Some ''name'') (snd (onSelectDisplayRow 50 sample_table))))) = Some 2"
proof -
  obtain p where p: "tb_pages sample_table = Some p"
  proof -
    have "map_option availablePage (tb_pages sample_table) = Some 2" by code_simp
    with that show thesis by auto
  qed
  have "is_ok (fst (onDfltBeanFilter ''a'' (Some ''name'') (snd (onSelectDisplayRow 50 sample_table))))" by code_simp
  moreover have "tb_pageSize sample_table = 2" by code_simp
  ultimately show ?thesis using chosen_page_size_is_forgotten [OF sample_reachable p, of 50] by simp
qed

text \<open>
  Removing an item never recounts: the counters of new, modified and deleted beans keep
  counting the item that is gone until the next mark or addition.
\<close>
lemma remove_does_not_recount:
  "tb_counts (snd (tableRemoveItem idx t)) = tb_counts t"
proof -
  have frame: "leaves tb_counts (on_pages m)" for m :: "(table_item page_list, 'z) prog"
    by (simp add: leaves_def on_pages_def split: option.split prod.split)
  have items: "leaves tb_counts get_items" by (simp add: leaves_def get_items_def split: option.split)
  have "leaves tb_counts (tableRemoveItem idx)"
    unfolding tableRemoveItem_def shown_item_def drop_from_state_def renderRows_def
    by (intro frame_rules frame items leaves_update) simp_all
  then show ?thesis by (rule leavesD)
qed

end
