(* ===== verification/TableEdit.thy ===== *)
theory TableEdit
  imports UITableProps UIBeanProps
begin

text \<open>
  Editing the rows of a table (\<open>UITableBean\<close>, \<open>onAddBean\<close> and \<open>onEditBean\<close> of \<open>ui/UITable.js\<close>): the
  table opens a form for a new bean or for the bean of a row in a popup; the form writes into the
  bean the table shows, and its buttons save into the table.
\<close>

section \<open>The table and its popup\<close>

text \<open>
  The popup holds the form, the row it was opened for (negative for a new bean) and its label. The
  form and the table share the store of the beans. \<open>te_fresh\<close> is an address no bean has yet.
\<close>

record table_edit =
  te_table :: ui_table
  te_fresh :: nat
  te_form :: "(ui_bean \<times> int \<times> string) option"

definition in_table :: "(ui_table, 'a) prog \<Rightarrow> (table_edit, 'a) prog" where
  "in_table m te = (case m (te_table te) of (r, t) \<Rightarrow> (r, te\<lparr>te_table := t\<rparr>))"

lemma in_table_run: "in_table m te = (fst (m (te_table te)), te\<lparr>te_table := snd (m (te_table te))\<rparr>)"
  by (simp add: in_table_def split: prod.split)

definition on_form :: "(ui_bean, unit) prog \<Rightarrow> (table_edit, unit) prog" where
  "on_form m te =
     (case te_form te of
        None \<Rightarrow> (Inr (), te)
      | Some (f, row, l) \<Rightarrow>
          (case m (f\<lparr>heap := tb_heap (te_table te)\<rparr>) of
             (r, f') \<Rightarrow> (r, te\<lparr>te_form := Some (f', row, l), te_table := (te_table te)\<lparr>tb_heap := heap f'\<rparr>\<rparr>)))"

definition bean_form :: "field_config list \<Rightarrow> form_config" where
  "bean_form fs = \<lparr>cf_type = None, cf_beans = [(''bean'', fs)]\<rparr>"

text \<open>\<open>init\<close> and the drawing of the form in the popup.\<close>

definition open_form :: "field_config list \<Rightarrow> string \<Rightarrow> nat \<Rightarrow> int \<Rightarrow> (table_edit, unit) prog" where
  "open_form fs label a row =
     (let isNew = row < 0 in
      andthen (update (\<lambda>te. te\<lparr>te_form := Some (empty_form (\<lambda>_. []) (te_fresh te), row, (if isNew then ''New '' else ''Edit '') @ label)\<rparr>))
      (andthen (on_form (bind_bean (bean_form fs) ''bean'' a isNew))
      (andthen (on_form (set_state ''bean'' (\<lambda>b. b\<lparr>editMode := True\<rparr>)))
        (on_form (render (bean_form fs))))))"

definition table_onAddBean :: "field_config list \<Rightarrow> string \<Rightarrow> (table_edit, unit) prog" where
  "table_onAddBean fs label =
     seq (reads te_fresh) (\<lambda>a.
     andthen (update (\<lambda>te. te\<lparr>te_fresh := Suc a, te_table := (te_table te)\<lparr>tb_heap := (tb_heap (te_table te))(a := [])\<rparr>\<rparr>))
       (open_form fs label a (-1)))"

definition table_onEditBean :: "field_config list \<Rightarrow> string \<Rightarrow> int \<Rightarrow> (table_edit, unit) prog" where
  "table_onEditBean fs label row = seq (in_table (tableGetItem row)) (\<lambda>a. open_form fs label a row)"

section \<open>The form's buttons\<close>

definition form_save :: "(table_edit, unit) prog" where
  "form_save te =
     (case te_form te of
        None \<Rightarrow> (Inr (), te)
      | Some (f, row, l) \<Rightarrow> (case getBean ''bean'' f of
            (Inl e, _) \<Rightarrow> (Inl e, te)
          | (Inr a, _) \<Rightarrow> in_table (saveBean row a) te))"

definition form_cancel :: "(table_edit, unit) prog" where
  "form_cancel = ret ()"

definition form_button :: "string \<Rightarrow> (table_edit, unit) prog" where
  "form_button name =
     (case onEditAction [(''save'', form_save), (''cancel'', form_cancel)] name of [] \<Rightarrow> ret () | h # _ \<Rightarrow> h)"

definition close_form :: "(table_edit, unit) prog" where
  "close_form = update (\<lambda>te. te\<lparr>te_form := None\<rparr>)"

section \<open>Handlers the configuration gives\<close>

text \<open>
  A click on a cell, on an action of a row or on an action of the toolbar calls the function at
  its index in the configuration; the search toolbar calls \<open>onSearch\<close> with its query. The blocks of
  the toolbar are shown and hidden in turn.
\<close>

definition onBeanFieldClick :: "(int \<Rightarrow> (table_edit, unit) prog) list \<Rightarrow> int \<Rightarrow> int \<Rightarrow> (table_edit, unit) prog" where
  "onBeanFieldClick clicks fieldIdx row =
     (case js_index clicks fieldIdx of None \<Rightarrow> throw (TypeError ''onClick'') | Some f \<Rightarrow> f row)"

definition onBeanAction :: "(int \<Rightarrow> (table_edit, unit) prog) list \<Rightarrow> int \<Rightarrow> int \<Rightarrow> (table_edit, unit) prog" where
  "onBeanAction actions actionIdx row =
     (case js_index actions actionIdx of None \<Rightarrow> throw (TypeError ''onClick'') | Some f \<Rightarrow> f row)"

definition onDfltToolbarAction :: "(table_edit, unit) prog list \<Rightarrow> int \<Rightarrow> (table_edit, unit) prog" where
  "onDfltToolbarAction actions actionIdx =
     (case js_index actions actionIdx of None \<Rightarrow> throw (TypeError ''onClick'') | Some f \<Rightarrow> f)"

definition table_onSearch :: "((string \<times> jsval) list \<Rightarrow> (table_edit, unit) prog) \<Rightarrow> string \<Rightarrow> (table_edit, unit) prog" where
  "table_onSearch search val = search [(''query'', JStr val)]"

definition onToggleColumnSelector :: "bool \<Rightarrow> bool" where
  "onToggleColumnSelector visible = toogleBlock visible"

definition onFilterMoreOption :: "bool \<Rightarrow> bool" where
  "onFilterMoreOption visible = toogleBlock visible"

section \<open>An opened form\<close>

lemma bean_config [simp]: "getBeanConfig (bean_form fs) ''bean'' = Some fs"
  by (simp add: getBeanConfig_def bean_form_def)

lemma render_bean_form:
  assumes "beanStates f = [(''bean'', st)]" "editMode st" "list_all offers_options fs"
  shows "render (bean_form fs) f = (Inr (), f\<lparr>heap := (heap f)(bs_bean st := foldl fill_repeated (heap f (bs_bean st)) fs)\<rparr>)"
  using assms
  by (simp add: render_def render_tabs_def render_block_def get_config_def get_state_def set_bean_def obj_keys_def prog_defs bean_form_def
      getBeanConfig_def draw_fields_all)

text \<open>The form in the popup edits one bean, at an address.\<close>

definition form_of :: "nat \<Rightarrow> int \<Rightarrow> table_edit \<Rightarrow> bool" where
  "form_of a row te \<longleftrightarrow> (\<exists>f st l. te_form te = Some (f, row, l) \<and> beanStates f = [(''bean'', st)] \<and> bs_bean st = a \<and> editMode st)"

lemma open_form_run:
  fixes te :: table_edit and a :: nat and fs :: "field_config list" and row :: int
  assumes offers: "list_all offers_options fs"
  defines "b \<equiv> tb_heap (te_table te) a"
  defines "b' \<equiv> foldl fill_repeated (if row < 0 then foldl default_field b fs else b) fs"
  shows "fst (open_form fs label a row te) = Inr () \<and> form_of a row (snd (open_form fs label a row te)) \<and>
    te_table (snd (open_form fs label a row te)) = (te_table te)\<lparr>tb_heap := (tb_heap (te_table te))(a := b')\<rparr> \<and>
    te_fresh (snd (open_form fs label a row te)) = te_fresh te"
proof -
  let ?h = "tb_heap (te_table te)"
  let ?h1 = "if row < 0 then ?h(a := foldl default_field b fs) else ?h"
  let ?f = "\<lambda>st h. (empty_form (\<lambda>_. []) (te_fresh te))\<lparr>beanStates := [(''bean'', st)], heap := h\<rparr>"
  let ?st = "new_state a True True"
  have bind: "bind_bean (bean_form fs) ''bean'' a (row < 0) ((empty_form (\<lambda>_. []) (te_fresh te))\<lparr>heap := ?h\<rparr>) = (Inr (), ?f (new_state a False True) ?h1)"
    by (simp add: bind_bean_def get_config_def setDefaultFieldValue_def set_bean_def empty_form_def prog_defs b_def)
  have edit: "set_state ''bean'' (\<lambda>b. b\<lparr>editMode := True\<rparr>) (?f (new_state a False True) ?h1) = (Inr (), ?f ?st ?h1)"
    by (simp add: set_state_def update_def obj_upd_def new_state_def)
  have draw: "render (bean_form fs) (?f ?st ?h1) = (Inr (), ?f ?st (?h1(a := foldl fill_repeated (?h1 a) fs)))"
    by (subst render_bean_form [where st = ?st]) (simp_all add: new_state_def offers)
  have same: "(?f st h)\<lparr>heap := h\<rparr> = ?f st h" for st h by simp
  have run: "open_form fs label a row te = (Inr (), te\<lparr>te_form := Some (?f ?st (?h1(a := foldl fill_repeated (?h1 a) fs)), row, (if row < 0 then ''New '' else ''Edit '') @ label),
      te_table := (te_table te)\<lparr>tb_heap := ?h1(a := foldl fill_repeated (?h1 a) fs)\<rparr>\<rparr>)"
    unfolding open_form_def Let_def andthen_def seq_def update_def
    by (simp add: on_form_def bind edit draw)
  have "?h1(a := foldl fill_repeated (?h1 a) fs) = ?h(a := b')"
    by (auto simp: b'_def b_def)
  then show ?thesis unfolding run by (simp add: form_of_def new_state_def)
qed

lemma change_run:
  fixes val :: string and nt :: "jsnum \<Rightarrow> string"
  assumes "form_of a row te" "split_input_name input = (input, i)" "getBeanFieldConfig fs input = Some fc" "fc_multiple fc \<noteq> Some True"
  defines "te' \<equiv> snd (on_form (onChangeInput nt (bean_form fs) ''bean'' input val) te)"
  shows "form_of a row te' \<and>
    te_table te' = (te_table te)\<lparr>tb_heap := (tb_heap (te_table te))(a := obj_put input (JStr val) (tb_heap (te_table te) a))\<rparr>"
proof -
  from assms(1) obtain f st l where f: "te_form te = Some (f, row, l)" "beanStates f = [(''bean'', st)]" "bs_bean st = a" "editMode st"
    by (auto simp: form_of_def)
  let ?h = "tb_heap (te_table te)"
  obtain st' where st': "bs_bean st' = a" "editMode st'"
    "onChangeInput nt (bean_form fs) ''bean'' input val (f\<lparr>heap := ?h\<rparr>) =
      (Inr (), f\<lparr>beanStates := [(''bean'', st')], heap := ?h(a := obj_put input (JStr val) (?h a))\<rparr>)"
  proof (cases "\<not> equals_string nt (get_prop (?h a) input) val \<and> origin st = None")
    case True
    with f assms(2-4) that [of "st\<lparr>origin := Some (copy_obj (?h a))\<rparr>"] show ?thesis
      by (simp add: onChangeInput_def get_state_def get_config_def keep_origin_def set_state_def obj_upd_def set_bean_def prog_defs)
  next
    case False
    with f assms(2-4) that [of st] show ?thesis
      by (auto simp: onChangeInput_def get_state_def get_config_def keep_origin_def set_state_def obj_upd_def set_bean_def prog_defs)
  qed
  then have "te' = te\<lparr>te_form := Some (f\<lparr>beanStates := [(''bean'', st')], heap := ?h(a := obj_put input (JStr val) (?h a))\<rparr>, row, l),
      te_table := (te_table te)\<lparr>tb_heap := ?h(a := obj_put input (JStr val) (?h a))\<rparr>\<rparr>"
    by (simp add: te'_def on_form_def f(1))
  with st'(1,2) show ?thesis by (simp add: form_of_def)
qed

section \<open>Saving\<close>

lemma wf_heap: "tb_wf t \<Longrightarrow> tb_wf (t\<lparr>tb_heap := h\<rparr>)"
  by (rule tb_wf_core) (simp add: core_def)

lemma shown_item_heap: "fst (shown_item idx (t\<lparr>tb_heap := h\<rparr>)) = fst (shown_item idx t)"
  by (simp add: shown_item_def on_pages_def split: option.split prod.split)

lemma form_save_run: "form_of a row te \<Longrightarrow> form_button ''save'' te = in_table (saveBean row a) te"
  by (auto simp: form_button_def onEditAction_def form_save_def form_of_def getBean_def get_state_def prog_defs)

lemma saveBean_row:
  assumes "tb_wf t" "0 \<le> row" "fst (shown_item row t) = Inr (Some x)" "tb_items t = Some xs"
  shows "fst (saveBean row a t) = Inr () \<and>
    tb_heap (snd (saveBean row a t)) = (tb_heap t)(it_bean x := obj_put ''persistableState'' (JStr ''MODIFIED'') (tb_heap t (it_bean x)))"
proof -
  have get: "tableGetItem row t = (Inr (it_bean x), t)"
    using assms(3) shown_item_state [OF assms(1), of row] by (cases "shown_item row t") (simp add: tableGetItem_def seq_def ret_def)
  let ?h = "(tb_heap t)(it_bean x := obj_put ''persistableState'' (JStr ''MODIFIED'') (tb_heap t (it_bean x)))"
  let ?t = "t\<lparr>tb_heap := ?h, tb_counts := Some (count_marks ?h xs)\<rparr>"
  have wf: "tb_wf ?t" using assms(1) by (auto intro: tb_wf_core simp: core_def)
  obtain p where "tb_pages ?t = Some p" using shown_item_Some [OF assms(3)] by auto
  note draw = renderRows_run [OF wf this]
  let ?t1 = "snd (renderRows ?t)"
  have wf1: "tb_wf ?t1" using wf keepsD [OF keeps_renderRows] by blast
  obtain p1 where "tb_pages ?t1 = Some p1" unfolding draw by simp
  note draw1 = renderRows_run [OF wf1 this]
  have mark: "markModifiedItemOnCurrentPage row t = (Inr (), ?t1)"
    using assms(4) draw
    by (simp add: markModifiedItemOnCurrentPage_def mark_item_def seq_def [of "tableGetItem row"] get
        andthen_def set_mark_def seq_def update_def updateBeanStateCount_def get_items_def)
  have "tb_heap ?t1 = ?h" unfolding draw by simp
  moreover have "saveBean row a t = renderRows ?t1"
    using assms(2) mark by (simp add: saveBean_def andthen_def seq_def)
  ultimately show ?thesis using draw1 by simp
qed

lemma saveBean_new:
  assumes "tb_wf t" "row < 0" "tb_items t = Some xs" "tb_filterVal t = None \<or> tb_filterVal t = Some []"
  shows "fst (saveBean row a t) = Inr () \<and> tb_wf (snd (saveBean row a t)) \<and>
    (\<exists>x. tb_items (snd (saveBean row a t)) = Some (xs @ [x]) \<and> it_bean x = a) \<and>
    tb_filterVal (snd (saveBean row a t)) = tb_filterVal t \<and>
    tb_heap (snd (saveBean row a t)) = (tb_heap t)(a := obj_put ''persistableState'' (JStr ''NEW'') (tb_heap t a))"
proof -
  let ?h = "(tb_heap t)(a := obj_put ''persistableState'' (JStr ''NEW'') (tb_heap t a))"
  let ?ys = "xs @ [\<lparr>it_id = tb_next t, it_bean = a\<rparr>]"
  obtain p t1 where add: "addBean a t = (Inr (), t1)" and t1: "tb_pages t1 = Some p" "tb_items t1 = Some ?ys" "tb_filterVal t1 = tb_filterVal t"
    "tb_heap t1 = ?h"
    using assms(3,4) unfolding addBean_run by (subst (asm) filterBeans_off) auto
  have wf1: "tb_wf t1" using wf_addBean [OF assms(1), of a] by (simp add: add)
  have "saveBean row a t = renderRows t1" using assms(2) add by (simp add: saveBean_def andthen_def seq_def)
  moreover have "tb_wf (snd (renderRows t1))" using wf1 keepsD [OF keeps_renderRows] by blast
  moreover have "tb_items (snd (renderRows t1)) = Some ?ys" unfolding renderRows_run [OF wf1 t1(1)] by (simp add: t1)
  ultimately show ?thesis using t1 renderRows_run [OF wf1 t1(1)] by simp
qed

section \<open>Properties\<close>

text \<open>The clicks: open the form for a row, type into one of its inputs.\<close>

definition edit_row ::
  "(jsnum \<Rightarrow> string) \<Rightarrow> field_config list \<Rightarrow> string \<Rightarrow> int \<Rightarrow> string \<Rightarrow> string \<Rightarrow> (table_edit, unit) prog" where
  "edit_row nt fs label row input val =
     andthen (table_onEditBean fs label row) (on_form (onChangeInput nt (bean_form fs) ''bean'' input val))"

lemma edit_row_run:
  assumes "tb_wf (te_table te)" "list_all offers_options fs" "0 \<le> row" "fst (shown_item row (te_table te)) = Inr (Some x)"
    and "split_input_name input = (input, i)" "getBeanFieldConfig fs input = Some fc" "fc_multiple fc \<noteq> Some True"
  shows "form_of (it_bean x) row (snd (edit_row nt fs label row input val te)) \<and>
    te_table (snd (edit_row nt fs label row input val te)) = (te_table te)\<lparr>tb_heap := (tb_heap (te_table te))
      (it_bean x := obj_put input (JStr val) (foldl fill_repeated (tb_heap (te_table te) (it_bean x)) fs))\<rparr>"
proof -
  have "tableGetItem row (te_table te) = (Inr (it_bean x), te_table te)"
    using assms(4) shown_item_state [OF assms(1), of row]
    by (cases "shown_item row (te_table te)") (simp add: tableGetItem_def seq_def ret_def)
  then have "table_onEditBean fs label row te = open_form fs label (it_bean x) row te"
    by (simp add: table_onEditBean_def in_table_def seq_def)
  then obtain te1 where te1: "table_onEditBean fs label row te = (Inr (), te1)" "form_of (it_bean x) row te1"
    "te_table te1 = (te_table te)\<lparr>tb_heap := (tb_heap (te_table te))(it_bean x := foldl fill_repeated (tb_heap (te_table te) (it_bean x)) fs)\<rparr>"
    using open_form_run [of fs label "it_bean x" row te] assms(2,3) by (cases "open_form fs label (it_bean x) row te") auto
  then have "snd (edit_row nt fs label row input val te) = snd (on_form (onChangeInput nt (bean_form fs) ''bean'' input val) te1)"
    by (simp add: edit_row_def andthen_def seq_def)
  with change_run [OF te1(2) assms(5-7), of nt val] te1(3) show ?thesis by simp
qed

text \<open>
  C16: Editing a row. The form in the popup writes into the bean of the table: cancelling and
  closing it keeps what was typed, with the mark the bean had; saving marks the bean as modified,
  without checking what was typed, and leaves the popup open. No other bean changes.\<close>
theorem edit_row_in_popup:
  fixes val :: string
  assumes "table_reachable (te_table te)" "list_all offers_options fs" "0 \<le> row" "fst (shown_item row (te_table te)) = Inr (Some x)"
    and "split_input_name input = (input, i)" "getBeanFieldConfig fs input = Some fc" "fc_multiple fc \<noteq> Some True"
  defines "h \<equiv> tb_heap (te_table te)"
  defines "edited \<equiv> obj_put input (JStr val) (foldl fill_repeated (h (it_bean x)) fs)"
  shows "tb_heap (te_table (snd (andthen (edit_row nt fs label row input val) (andthen (form_button ''cancel'') close_form) te)))
      = h(it_bean x := edited) \<and>
    tb_heap (te_table (snd (form_button ''save'' (snd (edit_row nt fs label row input val te)))))
      = h(it_bean x := obj_put ''persistableState'' (JStr ''MODIFIED'') edited) \<and>
    is_ok (fst (form_button ''save'' (snd (edit_row nt fs label row input val te)))) \<and>
    te_form (snd (form_button ''save'' (snd (edit_row nt fs label row input val te)))) \<noteq> None"
proof -
  have wf: "tb_wf (te_table te)" by (rule table_reachable_wf [OF assms(1)])
  let ?te = "snd (edit_row nt fs label row input val te)"
  have te: "form_of (it_bean x) row ?te" "te_table ?te = (te_table te)\<lparr>tb_heap := h(it_bean x := edited)\<rparr>"
    using edit_row_run [OF wf assms(2-7), of nt label val] by (simp_all add: h_def edited_def)
  have cancel: "te_table (snd (andthen m (andthen (form_button ''cancel'') close_form) te)) = te_table (snd (m te))" for m
    by (simp add: form_button_def onEditAction_def form_cancel_def close_form_def prog_defs split: prod.split sum.split)
  obtain xs where "tb_items (te_table te) = Some xs" using remove_shown_core [OF wf assms(4)] by blast
  then have save: "fst (saveBean row (it_bean x) (te_table ?te)) = Inr () \<and>
      tb_heap (snd (saveBean row (it_bean x) (te_table ?te))) = h(it_bean x := obj_put ''persistableState'' (JStr ''MODIFIED'') edited)"
    using saveBean_row [of "te_table ?te" row x xs "it_bean x"] wf_heap [OF wf] shown_item_heap assms(3,4) te(2) by simp
  have "te_form ?te \<noteq> None" using te(1) by (auto simp: form_of_def)
  then show ?thesis using save te(2)
    by (simp add: cancel form_save_run [OF te(1)] in_table_run)
qed

definition sample_edit :: table_edit where
  "sample_edit = \<lparr>te_table = sample_table, te_fresh = 3, te_form = None\<rparr>"

theorem edit_row_in_popup_witness:
  "get_prop (tb_heap (te_table (snd (andthen (edit_row (\<lambda>_. []) [plain_field ''name''] ''Module'' 1 ''name'' ''yarn'')
     (andthen (form_button ''cancel'') close_form) sample_edit))) 1) ''name'' = JStr ''yarn''"
proof -
  have 1: "table_reachable (te_table sample_edit)" by (simp add: sample_edit_def sample_reachable)
  have 2: "fst (shown_item 1 (te_table sample_edit)) = Inr (Some \<lparr>it_id = 1, it_bean = 1\<rparr>)" by code_simp
  have 3: "split_input_name ''name'' = (''name'', Some (-1))" by code_simp
  have 4: "getBeanFieldConfig [plain_field ''name''] ''name'' = Some (plain_field ''name'')"
    by (simp add: getBeanFieldConfig_def plain_field_def)
  have 5: "fc_multiple (plain_field ''name'') \<noteq> Some True" by (simp add: plain_field_def)
  show ?thesis using edit_row_in_popup [OF 1 _ _ 2 3 4 5, where val = "''yarn''" and nt = "\<lambda>_. []" and label = "''Module''"]
    by (simp add: offers_options_def plain_field_def)
qed

fun save_times :: "nat \<Rightarrow> table_edit \<Rightarrow> table_edit" where
  "save_times 0 te = te"
| "save_times (Suc n) te = save_times n (snd (form_button ''save'' te))"

lemma save_times_new:
  assumes "form_of a row te" "row < 0" "tb_wf (te_table te)" "tb_items (te_table te) = Some xs"
    and "tb_filterVal (te_table te) = None \<or> tb_filterVal (te_table te) = Some []"
  shows "\<exists>ys. tb_items (te_table (save_times n te)) = Some (xs @ ys) \<and> map it_bean ys = replicate n a \<and> form_of a row (save_times n te)"
  using assms(1,3-5)
proof (induction n arbitrary: te xs)
  case (Suc n)
  let ?te = "snd (form_button ''save'' te)"
  have te: "?te = te\<lparr>te_table := snd (saveBean row a (te_table te))\<rparr>"
    using form_save_run [OF Suc(2)] by (simp add: in_table_run)
  note save = saveBean_new [OF Suc(3) assms(2) Suc(4,5), of a]
  obtain x where x: "tb_items (te_table ?te) = Some (xs @ [x])" "it_bean x = a" using save unfolding te by auto
  have "form_of a row ?te" using Suc(2) unfolding te by (simp add: form_of_def)
  moreover have "tb_wf (te_table ?te)" "tb_filterVal (te_table ?te) = None \<or> tb_filterVal (te_table ?te) = Some []"
    using save Suc(5) unfolding te by auto
  ultimately obtain ys where "tb_items (te_table (save_times n ?te)) = Some ((xs @ [x]) @ ys)" "map it_bean ys = replicate n a"
    "form_of a row (save_times n ?te)"
    using Suc(1) [of ?te "xs @ [x]"] x(1) by blast
  with x(2) show ?case by (intro exI [of _ "x # ys"]) simp
qed simp

text \<open>
  Saving a new row. Without a filter each click on save adds the one new bean to the table
  again, since the popup stays open and its row stays negative: after \<open>n\<close> clicks it is there
  \<open>n\<close> times.\<close>
lemma new_row_saved_each_time:
  assumes "table_reachable (te_table te)" "list_all offers_options fs" "tb_items (te_table te) = Some xs"
    and "tb_filterVal (te_table te) = None \<or> tb_filterVal (te_table te) = Some []"
  shows "\<exists>ys. tb_items (te_table (save_times n (snd (table_onAddBean fs label te)))) = Some (xs @ ys) \<and>
     map it_bean ys = replicate n (te_fresh te)"
proof -
  let ?a = "te_fresh te"
  let ?te = "te\<lparr>te_fresh := Suc ?a, te_table := (te_table te)\<lparr>tb_heap := (tb_heap (te_table te))(?a := [])\<rparr>\<rparr>"
  have "snd (table_onAddBean fs label te) = snd (open_form fs label ?a (-1) ?te)"
    by (simp add: table_onAddBean_def prog_defs)
  moreover obtain h where "form_of ?a (-1) (snd (open_form fs label ?a (-1) ?te))"
    "te_table (snd (open_form fs label ?a (-1) ?te)) = (te_table te)\<lparr>tb_heap := h\<rparr>"
    using open_form_run [OF assms(2), of label ?a "-1" ?te] by auto
  ultimately show ?thesis
    using save_times_new [of ?a "-1" "snd (table_onAddBean fs label te)" xs n] wf_heap [OF table_reachable_wf [OF assms(1)]] assms(3,4)
    by auto
qed

lemma new_row_saved_each_time_witness:
  "\<exists>xs. tb_items (te_table (save_times 2 (snd (table_onAddBean [plain_field ''name''] ''Module'' sample_edit)))) = Some xs \<and>
     map it_bean xs = [0, 1, 2, 3, 3]"
proof -
  have 1: "table_reachable (te_table sample_edit)" by (simp add: sample_edit_def sample_reachable)
  have 2: "tb_items (te_table sample_edit) = Some (map (\<lambda>k. \<lparr>it_id = k, it_bean = k\<rparr>) [0, 1, 2])" by code_simp
  have 3: "tb_filterVal (te_table sample_edit) = None \<or> tb_filterVal (te_table sample_edit) = Some []" by code_simp
  have "te_fresh sample_edit = 3" by (simp add: sample_edit_def)
  with new_row_saved_each_time [OF 1 _ 2 3, of "[plain_field ''name'']" 2 "''Module''"] show ?thesis
    by (auto simp: offers_options_def plain_field_def numeral_2_eq_2)
qed

end
