(* ===== verification/TableTree.thy ===== *)
theory TableTree
  imports JSValue
begin

text \<open>
  The tree table \<open>ui/UITableTree.js\<close>: nodes with generated identifiers, the search for a node,
  the rows the template draws, and the toggling of rows, which works on the drawn rows alone
  and finds the rows below a row by their depth.
\<close>

section \<open>Nodes\<close>

text \<open>
  The constructor, \<open>addChild\<close> and \<open>addNode\<close>. A caller keeps the node a call returns and adds
  children to it later; since children are only appended, such a reference is the path of
  positions from the root.
\<close>

datatype 'b node = Node (node_id: string) (node_bean: 'b) (node_children: "'b node list") (node_collapse: bool)

definition newNode :: "string \<Rightarrow> 'b \<Rightarrow> 'b node" where
  "newNode i b = Node i b [] True"

definition addChild :: "'b \<Rightarrow> 'b node \<Rightarrow> 'b node" where
  "addChild b n =
     (case n of Node i b0 cs c \<Rightarrow> Node i b0 (cs @ [newNode (i @ ''-'' @ show_nat (length cs)) b]) c)"

definition addNode :: "'b \<Rightarrow> 'b node list \<Rightarrow> 'b node list" where
  "addNode b ns = ns @ [newNode (''id-'' @ show_nat (length ns)) b]"

fun addChildAt :: "nat list \<Rightarrow> 'b \<Rightarrow> 'b node list \<Rightarrow> 'b node list" where
  "addChildAt [] b ns = ns"
| "addChildAt (i # is) b ns =
     (if i < length ns
      then ns[i := (if is = [] then addChild b (ns ! i)
                    else (case ns ! i of Node j b0 cs c \<Rightarrow> Node j b0 (addChildAt is b cs) c))]
      else ns)"

fun nodeAt :: "nat list \<Rightarrow> 'b node list \<Rightarrow> 'b node option" where
  "nodeAt [] ns = None"
| "nodeAt (i # is) ns =
     (if i < length ns then (if is = [] then Some (ns ! i) else nodeAt is (node_children (ns ! i))) else None)"

text \<open>\<open>Node.findNode\<close> and \<open>_findNode\<close>.\<close>

fun findNode :: "string \<Rightarrow> 'b node \<Rightarrow> 'b node option"
  and findNodes :: "string \<Rightarrow> 'b node list \<Rightarrow> 'b node option" where
  "findNode nid (Node i b cs c) = (if nid = i then Some (Node i b cs c) else findNodes nid cs)"
| "findNodes nid [] = None"
| "findNodes nid (n # ns) = (case findNode nid n of Some m \<Rightarrow> Some m | None \<Rightarrow> findNodes nid ns)"

text \<open>\<open>setCollapse\<close> assigns a name that is not declared anywhere.\<close>

definition setCollapse :: "string \<Rightarrow> 'b node \<Rightarrow> 'b node result" where
  "setCollapse nodeId n = Inl (ReferenceError ''collapse'')"

inductive forest_reachable :: "'b node list \<Rightarrow> bool" where
  fr_empty: "forest_reachable []"
| fr_root: "forest_reachable ns \<Longrightarrow> forest_reachable (addNode b ns)"
| fr_child: "forest_reachable ns \<Longrightarrow> forest_reachable (addChildAt p b ns)"

text \<open>A click on a cell prints the node and the field; a missing one raises.\<close>

definition tree_onBeanFieldClick :: "string list \<Rightarrow> int \<Rightarrow> string \<Rightarrow> 'b node list \<Rightarrow> string result" where
  "tree_onBeanFieldClick fieldNames fieldIdx nodeId ns =
     (case js_index fieldNames fieldIdx of
        None \<Rightarrow> Inl (TypeError ''field'')
      | Some field \<Rightarrow> (case findNodes nodeId ns of
            None \<Rightarrow> Inl (TypeError ''id'')
          | Some n \<Rightarrow> Inr (''on click node '' @ node_id n @ '', field = '' @ field)))"

section \<open>Rows\<close>

text \<open>
  A drawn row: its depth, whether its class is \<open>collapse\<close> (its children are open, a click
  closes them) or \<open>expand\<close>, and whether it is displayed.
\<close>

record tree_row =
  tr_depth :: nat
  tr_open :: bool
  tr_shown :: bool
  tr_id :: string

fun renderNode :: "nat \<Rightarrow> bool \<Rightarrow> 'b node \<Rightarrow> tree_row list"
  and renderNodes :: "nat \<Rightarrow> bool \<Rightarrow> 'b node list \<Rightarrow> tree_row list" where
  "renderNode level hidden (Node i b cs c) =
     \<lparr>tr_depth = level, tr_open = (\<not> c), tr_shown = (\<not> hidden), tr_id = i\<rparr> # renderNodes (Suc level) c cs"
| "renderNodes level hidden [] = []"
| "renderNodes level hidden (n # ns) = renderNode level hidden n @ renderNodes level hidden ns"

text \<open>\<open>findChildren\<close>: the rows after a row up to the next one that is not deeper.\<close>

definition findChildren :: "tree_row list \<Rightarrow> nat \<Rightarrow> nat list" where
  "findChildren rows i =
     [Suc i..<Suc i + length (takeWhile (\<lambda>r. tr_depth (rows ! i) < tr_depth r) (drop (Suc i) rows))]"

definition onToggle :: "nat \<Rightarrow> tree_row list \<Rightarrow> tree_row list" where
  "onToggle i rows =
     (let subnodes = filter (\<lambda>k. \<not> tr_open (rows ! k)) (findChildren rows i);
          children = filter (\<lambda>j. \<not> list_ex (\<lambda>k. j \<in> set (findChildren rows k)) subnodes) (findChildren rows i);
          isOpen = tr_open (rows ! i)
      in map (\<lambda>(j, r). if j = i then r\<lparr>tr_open := \<not> isOpen\<rparr>
                else if j \<in> set children then r\<lparr>tr_shown := \<not> isOpen\<rparr> else r) (enumerate 0 rows))"

section \<open>Identifiers\<close>

text \<open>The identifier of a node spells its path.\<close>

definition path_suffix :: "nat list \<Rightarrow> string" where
  "path_suffix p = concat (map (\<lambda>i. ''-'' @ show_nat i) p)"

definition path_id :: "nat list \<Rightarrow> string" where
  "path_id p = ''id'' @ path_suffix p"

lemma show_nat_dash: "takeWhile (\<lambda>c. c \<noteq> CHR ''-'') (show_nat n @ path_suffix p) = show_nat n"
proof -
  have "takeWhile (\<lambda>c. c \<noteq> CHR ''-'') (show_nat n) = show_nat n"
    using show_nat_no_char [of "CHR ''-''" n] by (auto simp: takeWhile_eq_all_conv)
  moreover have "takeWhile (\<lambda>c. c \<noteq> CHR ''-'') (path_suffix p) = []"
    by (cases p) (simp_all add: path_suffix_def)
  moreover have "\<forall>c \<in> set (show_nat n). c \<noteq> CHR ''-''"
    using show_nat_no_char [of "CHR ''-''" n] by auto
  ultimately show ?thesis by simp
qed

lemma path_suffix_inject [simp]: "path_suffix p = path_suffix q \<longleftrightarrow> p = q"
proof (induction p arbitrary: q)
  case Nil
  then show ?case by (cases q) (simp_all add: path_suffix_def)
next
  case (Cons i p)
  show ?case
  proof (cases q)
    case Nil
    then show ?thesis by (simp add: path_suffix_def)
  next
    case q: (Cons j q')
    have split: "path_suffix (k # r) = CHR ''-'' # show_nat k @ path_suffix r" for k r
      by (simp add: path_suffix_def)
    have "i = j" if "show_nat i @ path_suffix p = show_nat j @ path_suffix q'"
      using arg_cong [OF that, of "takeWhile (\<lambda>c. c \<noteq> CHR ''-'')"] by (simp add: show_nat_dash)
    with Cons show ?thesis by (auto simp: q split)
  qed
qed

lemma path_id_inject [simp]: "path_id p = path_id q \<longleftrightarrow> p = q"
  by (simp add: path_id_def)

text \<open>All nodes below a path prefix carry the identifier of their path.\<close>

lemma size_child [termination_simp]: "k < length cs \<Longrightarrow> size (cs ! k) < Suc (size_list size cs)"
  by (simp add: less_Suc_eq_le size_list_estimation' [OF nth_mem])

fun named :: "nat list \<Rightarrow> 'b node \<Rightarrow> bool" where
  "named p (Node i b cs c) \<longleftrightarrow> i = path_id p \<and> (\<forall>k < length cs. named (p @ [k]) (cs ! k))"

definition named_forest :: "nat list \<Rightarrow> 'b node list \<Rightarrow> bool" where
  "named_forest p ns \<longleftrightarrow> (\<forall>k < length ns. named (p @ [k]) (ns ! k))"

lemma named_Node: "named p (Node i b cs c) \<longleftrightarrow> i = path_id p \<and> named_forest p cs"
  by (simp add: named_forest_def)

declare named.simps [simp del] named_Node [simp]

lemma path_id_snoc: "path_id (p @ [k]) = path_id p @ ''-'' @ show_nat k"
  by (simp add: path_id_def path_suffix_def)

lemma named_forest_snoc: "named_forest p (ns @ [n]) \<longleftrightarrow> named_forest p ns \<and> named (p @ [length ns]) n"
  by (auto simp: named_forest_def nth_append less_Suc_eq)

lemma named_new: "named p (newNode (path_id p) b)"
  by (simp add: newNode_def named_forest_def)

lemma named_addChild: "named p n \<Longrightarrow> named p (addChild b n)"
  using named_new [of "p @ [length (node_children n)]" b]
  by (cases n) (simp add: addChild_def named_forest_snoc path_id_snoc)

lemma named_addChildAt: "named_forest p ns \<Longrightarrow> named_forest p (addChildAt q b ns)"
proof (induction q b ns arbitrary: p rule: addChildAt.induct)
  case (2 i "is" b ns)
  show ?case
  proof (cases "i < length ns")
    case True
    have n: "named (p @ [i]) (ns ! i)" using 2(2) True by (simp add: named_forest_def)
    have "named (p @ [i]) (case ns ! i of Node j b0 cs c \<Rightarrow> Node j b0 (addChildAt is b cs) c)" if "is \<noteq> []"
      using n 2(1) [OF True that] by (cases "ns ! i") auto
    with n named_addChild [OF n] 2(2) True show ?thesis
      by (auto simp: named_forest_def nth_list_update)
  qed (use 2(2) in simp)
qed simp

lemma forest_named: "forest_reachable ns \<Longrightarrow> named_forest [] ns"
proof (induction rule: forest_reachable.induct)
  case fr_empty
  then show ?case by (simp add: named_forest_def)
next
  case (fr_root ns b)
  have "''id-'' @ show_nat (length ns) = path_id [length ns]" by (simp add: path_id_def path_suffix_def)
  with fr_root named_new [of "[length ns]" b] show ?case by (simp add: addNode_def named_forest_snoc)
next
  case (fr_child ns p b)
  then show ?case by (simp add: named_addChildAt)
qed

text \<open>Searching below a prefix finds only extensions of the prefix.\<close>

lemma findNodes_none:
  "(\<And>k. k < length ns \<Longrightarrow> findNode nid (ns ! k) = None) \<Longrightarrow> findNodes nid ns = None"
proof (induction ns)
  case (Cons n ns)
  from Cons(2) [of 0] have "findNode nid n = None" by simp
  moreover have "findNodes nid ns = None" by (rule Cons(1)) (use Cons(2) in force)
  ultimately show ?case by simp
qed simp

lemma find_other: "named p n \<Longrightarrow> (\<And>r. q \<noteq> p @ r) \<Longrightarrow> findNode (path_id q) n = None"
proof (induction n arbitrary: p)
  case (Node i b cs c)
  have "path_id q \<noteq> i" using Node(2) Node(3) [of "[]"] by simp
  moreover have "findNodes (path_id q) cs = None"
  proof (rule findNodes_none)
    fix k assume k: "k < length cs"
    show "findNode (path_id q) (cs ! k) = None"
    proof (rule Node(1))
      show "cs ! k \<in> set cs" using k by simp
      show "named (p @ [k]) (cs ! k)" using Node(2) k by (simp add: named_forest_def)
      show "\<And>r. q \<noteq> (p @ [k]) @ r" using Node(3) by simp
    qed
  qed
  ultimately show ?case by simp
qed

lemma findNodes_nth:
  assumes "k < length ns" "\<And>j. j < k \<Longrightarrow> findNode nid (ns ! j) = None" "findNode nid (ns ! k) = Some m"
  shows "findNodes nid ns = Some m"
  using assms
proof (induction ns arbitrary: k)
  case (Cons n ns)
  show ?case
  proof (cases k)
    case 0
    with Cons show ?thesis by simp
  next
    case (Suc k')
    have "findNode nid n = None" using Cons.prems(2) [of 0] Suc by simp
    moreover have "findNodes nid ns = Some m"
    proof (rule Cons.IH)
      show "k' < length ns" "findNode nid (ns ! k') = Some m" using Cons.prems(1,3) Suc by auto
      show "findNode nid (ns ! j) = None" if "j < k'" for j using Cons.prems(2) [of "Suc j"] Suc that by simp
    qed
    ultimately show ?thesis by simp
  qed
qed simp

lemma find_at_path:
  "named_forest p ns \<Longrightarrow> nodeAt q ns = Some m \<Longrightarrow> findNodes (path_id (p @ q)) ns = Some m"
proof (induction q ns arbitrary: p rule: nodeAt.induct)
  case (2 i "is" ns)
  then have i: "i < length ns" by (auto split: if_splits)
  have n: "named (p @ [i]) (ns ! i)" using 2(2) i by (simp add: named_forest_def)
  have before: "findNode (path_id (p @ i # is)) (ns ! j) = None" if "j < i" for j
    by (rule find_other [of "p @ [j]"]) (use 2(2) i that in \<open>auto simp: named_forest_def\<close>)
  have "findNode (path_id (p @ i # is)) (ns ! i) = Some m"
  proof (cases "is = []")
    case True
    with 2(3) i n show ?thesis by (cases "ns ! i") auto
  next
    case False
    then have at: "nodeAt is (node_children (ns ! i)) = Some m" using 2(3) i by simp
    have "named_forest (p @ [i]) (node_children (ns ! i))" using n by (cases "ns ! i") simp
    from 2(1) [OF i False this at] n False show ?thesis by (cases "ns ! i") simp
  qed
  with findNodes_nth [OF i before] show ?case by simp
qed simp

section \<open>Visibility\<close>

text \<open>Row \<open>j\<close> lies below row \<open>i\<close>: every row from \<open>i\<close> on up to \<open>j\<close> is deeper than \<open>i\<close>.\<close>

definition below :: "tree_row list \<Rightarrow> nat \<Rightarrow> nat \<Rightarrow> bool" where
  "below rows i j \<longleftrightarrow> i < j \<and> j < length rows \<and> (\<forall>k. i < k \<and> k \<le> j \<longrightarrow> tr_depth (rows ! i) < tr_depth (rows ! k))"

lemma takeWhile_prefix: "k < length (takeWhile P xs) \<longleftrightarrow> k < length xs \<and> (\<forall>l \<le> k. P (xs ! l))"
proof (induction xs arbitrary: k)
  case (Cons x xs)
  have "(\<forall>l \<le> Suc k'. P ((x # xs) ! l)) \<longleftrightarrow> P x \<and> (\<forall>l \<le> k'. P (xs ! l))" for k'
    unfolding less_Suc_eq_le [symmetric] All_less_Suc2 by simp
  then show ?case by (cases k) (auto simp: Cons)
qed simp

lemma findChildren_iff: "i < length rows \<Longrightarrow> j \<in> set (findChildren rows i) \<longleftrightarrow> below rows i j"
proof -
  assume "i < length rows"
  have "j \<in> set (findChildren rows i) \<longleftrightarrow> Suc i \<le> j \<and>
      j - Suc i < length (takeWhile (\<lambda>r. tr_depth (rows ! i) < tr_depth r) (drop (Suc i) rows))"
    by (auto simp: findChildren_def)
  also have "\<dots> \<longleftrightarrow> Suc i \<le> j \<and> j < length rows \<and> (\<forall>l \<le> j - Suc i. tr_depth (rows ! i) < tr_depth (rows ! (Suc i + l)))"
    by (auto simp: takeWhile_prefix)
  also have "\<dots> \<longleftrightarrow> below rows i j"
  proof -
    have "(\<forall>l \<le> j - Suc i. tr_depth (rows ! i) < tr_depth (rows ! (Suc i + l)))
        \<longleftrightarrow> (\<forall>k. i < k \<and> k \<le> j \<longrightarrow> tr_depth (rows ! i) < tr_depth (rows ! k))" if "Suc i \<le> j"
    proof
      assume L: "\<forall>l \<le> j - Suc i. tr_depth (rows ! i) < tr_depth (rows ! (Suc i + l))"
      show "\<forall>k. i < k \<and> k \<le> j \<longrightarrow> tr_depth (rows ! i) < tr_depth (rows ! k)"
        using L by (metis Suc_leI diff_le_mono le_add_diff_inverse)
    next
      assume R: "\<forall>k. i < k \<and> k \<le> j \<longrightarrow> tr_depth (rows ! i) < tr_depth (rows ! k)"
      show "\<forall>l \<le> j - Suc i. tr_depth (rows ! i) < tr_depth (rows ! (Suc i + l))"
        using R that by auto
    qed
    then show ?thesis by (auto simp: below_def)
  qed
  finally show ?thesis .
qed

text \<open>A row is shown when all rows it lies below are open.\<close>

definition visible_ok :: "tree_row list \<Rightarrow> bool" where
  "visible_ok rows \<longleftrightarrow>
     (\<forall>j < length rows. tr_shown (rows ! j) \<longleftrightarrow> (\<forall>i. below rows i j \<longrightarrow> tr_open (rows ! i)))"

definition hit :: "tree_row list \<Rightarrow> nat \<Rightarrow> nat \<Rightarrow> bool" where
  "hit rows i j \<longleftrightarrow> below rows i j \<and> \<not> (\<exists>k. below rows i k \<and> \<not> tr_open (rows ! k) \<and> below rows k j)"

lemma below_length: "below rows i j \<Longrightarrow> i < length rows" "below rows i j \<Longrightarrow> j < length rows"
  by (simp_all add: below_def)

lemma onToggle_nth:
  assumes "i < length rows" "j < length rows"
  shows "onToggle i rows ! j =
    (if j = i then (rows ! j)\<lparr>tr_open := \<not> tr_open (rows ! i)\<rparr>
     else if hit rows i j then (rows ! j)\<lparr>tr_shown := \<not> tr_open (rows ! i)\<rparr> else rows ! j)"
proof -
  have "(\<exists>k \<in> set (findChildren rows i). \<not> tr_open (rows ! k) \<and> j \<in> set (findChildren rows k))
      \<longleftrightarrow> (\<exists>k. below rows i k \<and> \<not> tr_open (rows ! k) \<and> below rows k j)"
    using assms(1) findChildren_iff below_length by metis
  with assms show ?thesis
    by (auto simp: onToggle_def Let_def nth_enumerate_eq findChildren_iff hit_def list_ex_iff)
qed

lemma length_onToggle [simp]: "length (onToggle i rows) = length rows"
  by (simp add: onToggle_def Let_def)

lemma onToggle_depth: "i < length rows \<Longrightarrow> j < length rows \<Longrightarrow> tr_depth (onToggle i rows ! j) = tr_depth (rows ! j)"
  by (simp add: onToggle_nth)

lemma below_onToggle: "i < length rows \<Longrightarrow> below (onToggle i rows) k j \<longleftrightarrow> below rows k j"
  unfolding below_def using onToggle_depth [of i rows] by (auto simp: order.strict_trans2)

lemma onToggle_open:
  "i < length rows \<Longrightarrow> k < length rows \<Longrightarrow>
   tr_open (onToggle i rows ! k) \<longleftrightarrow> (if k = i then \<not> tr_open (rows ! i) else tr_open (rows ! k))"
  by (simp add: onToggle_nth)

lemma visible_onToggle:
  assumes ok: "visible_ok rows" and i: "i < length rows" and shown: "tr_shown (rows ! i)"
  shows "visible_ok (onToggle i rows)"
  unfolding visible_ok_def length_onToggle
proof (intro allI impI)
  fix j assume j: "j < length rows"
  have old: "tr_shown (rows ! j) \<longleftrightarrow> (\<forall>k. below rows k j \<longrightarrow> tr_open (rows ! k))"
    using ok j by (simp add: visible_ok_def)
  have self: "\<forall>k. below rows k i \<longrightarrow> tr_open (rows ! k)" using ok i shown by (simp add: visible_ok_def)
  have new: "(\<forall>k. below (onToggle i rows) k j \<longrightarrow> tr_open (onToggle i rows ! k))
      \<longleftrightarrow> (\<forall>k. below rows k j \<longrightarrow> (if k = i then \<not> tr_open (rows ! i) else tr_open (rows ! k)))"
    using i by (metis below_onToggle below_length(1) onToggle_open)
  show "tr_shown (onToggle i rows ! j) \<longleftrightarrow> (\<forall>k. below (onToggle i rows) k j \<longrightarrow> tr_open (onToggle i rows ! k))"
  proof (cases "below rows i j")
    case False
    then have "tr_shown (onToggle i rows ! j) = tr_shown (rows ! j)" using i j by (simp add: onToggle_nth hit_def)
    moreover have "(\<forall>k. below rows k j \<longrightarrow> (if k = i then \<not> tr_open (rows ! i) else tr_open (rows ! k)))
        \<longleftrightarrow> (\<forall>k. below rows k j \<longrightarrow> tr_open (rows ! k))" using False by auto
    ultimately show ?thesis using old new by simp
  next
    case True
    then have ij: "i \<noteq> j" by (auto simp: below_def)
    show ?thesis
    proof (cases "hit rows i j")
      case hit: True
      have "tr_open (rows ! k)" if "below rows k j" "k \<noteq> i" for k
      proof (cases "i < k")
        case True
        then have "below rows i k" using \<open>below rows i j\<close> that(1) by (auto simp: below_def)
        with hit that(1) show ?thesis by (auto simp: hit_def)
      next
        case False
        then have "below rows k i" using \<open>below rows i j\<close> that by (auto simp: below_def)
        with self show ?thesis by blast
      qed
      then have "(\<forall>k. below rows k j \<longrightarrow> (if k = i then \<not> tr_open (rows ! i) else tr_open (rows ! k)))
          \<longleftrightarrow> \<not> tr_open (rows ! i)" using \<open>below rows i j\<close> by auto
      with new hit ij i j show ?thesis by (simp add: onToggle_nth)
    next
      case False
      then obtain k where k: "below rows i k" "\<not> tr_open (rows ! k)" "below rows k j"
        using \<open>below rows i j\<close> by (auto simp: hit_def)
      then have ki: "k \<noteq> i" by (auto simp: below_def)
      have "\<not> tr_shown (onToggle i rows ! j)" using old k False i j ij by (auto simp: onToggle_nth)
      moreover have "\<not> (\<forall>k. below rows k j \<longrightarrow> (if k = i then \<not> tr_open (rows ! i) else tr_open (rows ! k)))"
        using k ki by auto
      ultimately show ?thesis using new by simp
    qed
  qed
qed

text \<open>
  The drawn rows: while every node is collapsed, the roots are shown and nothing else, and
  each row that is not a root lies below some row.
\<close>

fun collapsed :: "'b node \<Rightarrow> bool" where
  "collapsed (Node i b cs c) \<longleftrightarrow> c \<and> list_all collapsed cs"

lemma render_depth:
  fixes n :: "'b node" and ns :: "'b node list"
  shows "r \<in> set (renderNode level hidden n) \<Longrightarrow> level \<le> tr_depth r"
    and "r \<in> set (renderNodes level hidden ns) \<Longrightarrow> level \<le> tr_depth r"
proof (induction level hidden n and level hidden ns rule: renderNode_renderNodes.induct)
  case (1 level hidden i b cs c)
  then show ?case by fastforce
qed auto

lemma render_first_node: "tr_depth (hd (renderNode level hidden n)) = level \<and> renderNode level hidden n \<noteq> []"
  by (cases n) simp

lemma render_first: "ns \<noteq> [] \<Longrightarrow> tr_depth (hd (renderNodes level hidden ns)) = level"
  by (cases ns) (simp_all add: render_first_node)

lemma render_collapsed:
  fixes n :: "'b node" and ns :: "'b node list"
  shows "collapsed n \<Longrightarrow> r \<in> set (renderNode level hidden n) \<Longrightarrow>
     \<not> tr_open r \<and> (tr_shown r \<longleftrightarrow> \<not> hidden \<and> tr_depth r = level)"
    and "list_all collapsed ns \<Longrightarrow> r \<in> set (renderNodes level hidden ns) \<Longrightarrow>
     \<not> tr_open r \<and> (tr_shown r \<longleftrightarrow> \<not> hidden \<and> tr_depth r = level)"
proof (induction level hidden n and level hidden ns rule: renderNode_renderNodes.induct)
  case (1 level hidden i b cs c)
  show ?case
  proof (cases "r \<in> set (renderNodes (Suc level) c cs)")
    case True
    with 1(1) 1(2) render_depth(2) [OF True] show ?thesis by auto
  next
    case False
    with 1(2,3) show ?thesis by auto
  qed
qed auto

lemma lies_below_some:
  assumes "rows \<noteq> []" "tr_depth (hd rows) = 0" "j < length rows" "0 < tr_depth (rows ! j)"
  shows "\<exists>i. below rows i j"
proof -
  let ?S = "{i. i < j \<and> tr_depth (rows ! i) < tr_depth (rows ! j)}"
  have "rows ! 0 = hd rows" using assms(1) by (simp add: hd_conv_nth)
  with assms have "0 \<in> ?S" by (cases j) auto
  then have S: "finite ?S" "?S \<noteq> {}" by auto
  let ?i = "Max ?S"
  have i: "?i \<in> ?S" using Max_in [OF S] .
  have "tr_depth (rows ! ?i) < tr_depth (rows ! k)" if "?i < k" "k \<le> j" for k
  proof (cases "k = j")
    case False
    then have "k < j" using that(2) by simp
    have "\<not> tr_depth (rows ! k) < tr_depth (rows ! j)"
    proof
      assume "tr_depth (rows ! k) < tr_depth (rows ! j)"
      with \<open>k < j\<close> have "k \<in> ?S" by simp
      from Max_ge [OF S(1) this] that(1) show False by (meson linorder_not_less)
    qed
    moreover have "tr_depth (rows ! ?i) < tr_depth (rows ! j)" using i by simp
    ultimately show ?thesis by linarith
  next
    case True
    then show ?thesis using i by (metis (no_types, lifting) CollectD)
  qed
  with i assms(3) show ?thesis by (auto simp: below_def)
qed

lemma visible_render:
  assumes "list_all collapsed ns"
  shows "visible_ok (renderNodes 0 False ns)"
  unfolding visible_ok_def
proof (intro allI impI)
  let ?rows = "renderNodes 0 False ns"
  fix j assume j: "j < length ?rows"
  have closed: "\<not> tr_open r \<and> (tr_shown r \<longleftrightarrow> tr_depth r = 0)" if "r \<in> set ?rows" for r
    using render_collapsed(2) [OF assms that] by simp
  have ne: "?rows \<noteq> []" "ns \<noteq> []" using j by auto
  have "(\<exists>i. below ?rows i j) \<longleftrightarrow> 0 < tr_depth (?rows ! j)"
    using lies_below_some [OF ne(1) render_first [OF ne(2)] j] by (auto simp: below_def)
  moreover have "\<not> tr_open (?rows ! i)" if "below ?rows i j" for i
    using closed below_length(1) [OF that] by simp
  ultimately show "tr_shown (?rows ! j) \<longleftrightarrow> (\<forall>i. below ?rows i j \<longrightarrow> tr_open (?rows ! i))"
    using closed [of "?rows ! j"] j by auto
qed

lemma collapsed_addChild: "collapsed n \<Longrightarrow> collapsed (addChild b n)"
  by (cases n) (simp add: addChild_def newNode_def)

lemma collapsed_addChildAt: "list_all collapsed ns \<Longrightarrow> list_all collapsed (addChildAt p b ns)"
proof (induction p b ns rule: addChildAt.induct)
  case (2 i "is" b ns)
  show ?case
  proof (cases "i < length ns")
    case True
    then have n: "collapsed (ns ! i)" using 2(2) by (simp add: list_all_length)
    have "collapsed (case ns ! i of Node j b0 cs c \<Rightarrow> Node j b0 (addChildAt is b cs) c)" if "is \<noteq> []"
      using n 2(1) [OF True that] by (cases "ns ! i") auto
    with n collapsed_addChild [OF n] 2(2) True show ?thesis
      by (auto simp: list_all_length nth_list_update)
  qed (use 2(2) in simp)
qed simp

lemma forest_collapsed: "forest_reachable ns \<Longrightarrow> list_all collapsed ns"
  by (induction rule: forest_reachable.induct) (auto simp: addNode_def newNode_def collapsed_addChildAt)

text \<open>A view that was drawn, then toggled by clicks on rows that are displayed.\<close>

inductive tree_view :: "'b node list \<Rightarrow> tree_row list \<Rightarrow> bool" for ns :: "'b node list" where
  tv_render: "tree_view ns (renderNodes 0 False ns)"
| tv_click: "tree_view ns rows \<Longrightarrow> i < length rows \<Longrightarrow> tr_shown (rows ! i) \<Longrightarrow> tree_view ns (onToggle i rows)"

lemma tree_view_visible: "tree_view ns rows \<Longrightarrow> forest_reachable ns \<Longrightarrow> visible_ok rows"
  by (induction rule: tree_view.induct) (auto intro: visible_render forest_collapsed visible_onToggle)

section \<open>Properties\<close>

lemma named_at: "named_forest r ns \<Longrightarrow> nodeAt q ns = Some m \<Longrightarrow> named (r @ q) m"
proof (induction q ns arbitrary: r rule: nodeAt.induct)
  case (2 i "is" ns)
  then have n: "i < length ns" "named (r @ [i]) (ns ! i)" by (auto simp: named_forest_def split: if_splits)
  show ?case
  proof (cases "is = []")
    case False
    have "named_forest (r @ [i]) (node_children (ns ! i))" using n(2) by (cases "ns ! i") simp
    from 2(1) [OF n(1) False this] 2(3) n False show ?thesis by simp
  qed (use 2(3) n in auto)
qed simp

lemma id_at:
  assumes "forest_reachable ns" "nodeAt q ns = Some m"
  shows "node_id m = path_id q"
proof -
  have "named q m" using named_at [of "[]", OF forest_named [OF assms(1)] assms(2)] by simp
  then show ?thesis by (cases m) simp
qed

lemma found_by_id:
  assumes "forest_reachable ns" "nodeAt p ns = Some n"
  shows "findNodes (node_id n) ns = Some n"
  using find_at_path [of "[]", OF _ assms(2)] forest_named [OF assms(1)] id_at [OF assms] by simp

text \<open>
  C32: the search by identifier finds every node of a forest, and nothing else under its
  identifier: identifiers are unique because they spell the path of the node.
\<close>
theorem find_node_by_its_id:
  assumes "forest_reachable ns" and "nodeAt p ns = Some n"
  shows "findNodes (node_id n) ns = Some n \<and> node_id n = path_id p \<and>
    (\<forall>q m. nodeAt q ns = Some m \<longrightarrow> node_id m = node_id n \<longrightarrow> q = p)"
  using found_by_id [OF assms] id_at [OF assms(1)] assms(2) by auto

theorem find_node_by_its_id_witness:
  "let ns = addChildAt [1] ''c'' (addNode ''b'' (addNode ''a'' []))
   in map_option node_bean (findNodes ''id-1-0'' ns) = Some ''c''"
proof -
  let ?ns = "addChildAt [1] ''c'' (addNode ''b'' (addNode ''a'' []))"
  have "forest_reachable ?ns" by (intro forest_reachable.intros)
  moreover have "nodeAt [1, 0] ?ns = Some (Node ''id-1-0'' ''c'' [] True)" by code_simp
  ultimately have "findNodes (node_id (Node ''id-1-0'' ''c'' [] True)) ?ns = Some (Node ''id-1-0'' ''c'' [] True)"
    using find_node_by_its_id by blast
  then show ?thesis by (simp add: Let_def)
qed

text \<open>
  C33: however the user clicks, a row of the tree table is displayed exactly when all the rows
  it lies below are open: closing a row hides everything below it, and opening it again brings
  back what was visible before, not the rows below a row that is still closed.
\<close>
theorem rows_visible_iff_ancestors_open:
  assumes "forest_reachable ns" and "tree_view ns rows" and "j < length rows"
  shows "tr_shown (rows ! j) \<longleftrightarrow>
    (\<forall>i < j. (\<forall>k. i < k \<and> k \<le> j \<longrightarrow> tr_depth (rows ! i) < tr_depth (rows ! k)) \<longrightarrow> tr_open (rows ! i))"
proof -
  have "tr_shown (rows ! j) \<longleftrightarrow> (\<forall>i. below rows i j \<longrightarrow> tr_open (rows ! i))"
    using tree_view_visible [OF assms(2,1)] assms(3) by (simp add: visible_ok_def)
  with assms(3) show ?thesis by (auto simp: below_def)
qed

theorem rows_visible_iff_ancestors_open_witness:
  "let ns = addChildAt [0, 0] ''c'' (addChildAt [0] ''b'' (addNode ''a'' []));
       rows = onToggle 0 (onToggle 1 (onToggle 0 (renderNodes 0 False ns)))
   in map tr_shown rows = [True, False, False]"
proof -
  let ?ns = "addChildAt [0, 0] ''c'' (addChildAt [0] ''b'' (addNode ''a'' []))"
  let ?r0 = "renderNodes 0 False ?ns" let ?r1 = "onToggle 0 ?r0" let ?r2 = "onToggle 1 ?r1" let ?r3 = "onToggle 0 ?r2"
  have len: "length ?r0 = 3" by code_simp
  have "tr_shown (?r0 ! 0)" "tr_shown (?r1 ! 1)" "tr_shown (?r2 ! 0)" by code_simp+
  with len have tv: "tree_view ?ns ?r3" by (intro tree_view.intros) simp_all
  have fr: "forest_reachable ?ns" by (intro forest_reachable.intros)
  define rows where "rows = ?r3"
  have closed: "\<not> tr_open (rows ! 0)" unfolding rows_def by code_simp
  have d: "tr_depth (rows ! 0) = 0" "tr_depth (rows ! 1) = 1" "tr_depth (rows ! 2) = 2"
    unfolding rows_def by code_simp+
  have len3: "length rows = 3" unfolding rows_def using len by simp
  note iff = rows_visible_iff_ancestors_open [OF fr tv, folded rows_def]
  have sh0: "tr_shown (rows ! 0)" using iff [of 0] len3 by simp
  have sh1: "\<not> tr_shown (rows ! 1)"
  proof -
    have "\<forall>k. 0 < k \<and> k \<le> 1 \<longrightarrow> tr_depth (rows ! 0) < tr_depth (rows ! k)"
      using d by (auto simp: le_Suc_eq)
    moreover have "1 < length rows" "0 < (1::nat)" using len3 by simp_all
    ultimately show ?thesis using iff [of 1] closed by blast
  qed
  have sh2: "\<not> tr_shown (rows ! 2)"
  proof -
    have "\<forall>k. 0 < k \<and> k \<le> 2 \<longrightarrow> tr_depth (rows ! 0) < tr_depth (rows ! k)"
      using d by (auto simp: le_Suc_eq numeral_2_eq_2)
    moreover have "2 < length rows" "0 < (2::nat)" using len3 by simp_all
    ultimately show ?thesis using iff [of 2] closed by blast
  qed
  have "rows = [rows ! 0, rows ! 1, rows ! 2]"
    using len3 by (auto intro!: nth_equalityI simp: less_Suc_eq numeral_3_eq_3 numeral_2_eq_2)
  then have "map tr_shown rows = map tr_shown [rows ! 0, rows ! 1, rows ! 2]" by (rule arg_cong)
  also have "\<dots> = [True, False, False]" using sh0 sh1 sh2 by simp
  finally have "map tr_shown rows = [True, False, False]" .
  then show ?thesis by (simp only: Let_def rows_def)
qed

end
