(* ===== verification/Components.thy ===== *)
theory Components
  imports JSValue
begin

text \<open>
  The view containers: the chain of parents (\<open>UIUtil.getAncestorOfType\<close>), the breadcrumb
  trail (\<open>ui/UIBreadcumbs.js\<close>), the containers of blocks (\<open>ui/UIContainer.js\<close> and
  \<open>ui/UICollapsible.js\<close>), the actions of demo pages, and the plugins, navigation and workspace of
  the site.
\<close>

section \<open>Parents\<close>

text \<open>
  The parent and the type of a component are read from the components themselves. The loop
  follows the parents until the type fits or there is no parent; on a cycle of parents
  without a component of the type it does not end, which is the value \<open>None\<close>.
\<close>

partial_function (option) getAncestorOfType ::
  "(nat \<Rightarrow> nat option) \<Rightarrow> (nat \<Rightarrow> string option) \<Rightarrow> string \<Rightarrow> nat \<Rightarrow> nat option option" where
  "getAncestorOfType par ty t c =
     (case par c of
        None \<Rightarrow> Some None
      | Some p \<Rightarrow> if ty p = Some t then Some (Some p) else getAncestorOfType par ty t p)"

declare getAncestorOfType.simps [code]

text \<open>The parents of a component, nearest first, up to the root.\<close>

fun parent_chain :: "(nat \<Rightarrow> nat option) \<Rightarrow> nat \<Rightarrow> nat list \<Rightarrow> bool" where
  "parent_chain par c [] = (par c = None)"
| "parent_chain par c (p # ps) = (par c = Some p \<and> parent_chain par p ps)"

text \<open>Adding a component to a container sets its parent.\<close>

definition attach :: "nat \<Rightarrow> nat \<Rightarrow> (nat \<Rightarrow> nat option) \<Rightarrow> nat \<Rightarrow> nat option" where
  "attach c p par = par(c := Some p)"

lemma ancestor_of_chain:
  "parent_chain par c ps \<Longrightarrow> getAncestorOfType par ty t c = Some (find (\<lambda>p. ty p = Some t) ps)"
proof (induction ps arbitrary: c)
  case Nil
  then show ?case by (subst getAncestorOfType.simps) simp
next
  case (Cons p ps)
  then show ?case by (subst getAncestorOfType.simps) simp
qed

lemma chain_attach_other:
  "parent_chain par x ps \<Longrightarrow> x \<noteq> c \<Longrightarrow> c \<notin> set ps \<Longrightarrow> parent_chain (attach c p par) x ps"
  by (induction ps arbitrary: x) (auto simp: attach_def)

lemma chain_attach:
  assumes "parent_chain par p ps" "c \<noteq> p" "c \<notin> set ps"
  shows "parent_chain (attach c p par) c (p # ps)"
  using chain_attach_other [OF assms(1), of c p] assms(2,3) by (auto simp: attach_def)

lemma chain_attach_all:
  assumes "parent_chain par p ps" "c \<noteq> p" "c \<notin> set ps" "parent_chain par x qs"
  shows "\<exists>rs. parent_chain (attach c p par) x rs"
  using assms(4)
proof (induction qs arbitrary: x)
  case Nil
  show ?case
  proof (cases "x = c")
    case True
    then show ?thesis using chain_attach [OF assms(1,2,3)] by blast
  next
    case False
    with Nil show ?thesis by (intro exI [of _ "[]"]) (simp add: attach_def)
  qed
next
  case (Cons q qs)
  show ?case
  proof (cases "x = c")
    case True
    then show ?thesis using chain_attach [OF assms(1,2,3)] by blast
  next
    case False
    from Cons obtain rs where "parent_chain (attach c p par) q rs" by auto
    moreover have "attach c p par x = Some q" using False Cons(2) by (simp add: attach_def)
    ultimately show ?thesis by (intro exI [of _ "q # rs"]) simp
  qed
qed

section \<open>Breadcrumbs\<close>

text \<open>
  A view has a label or none. The trail on the page is a list of buttons, each with its text
  and whether it is drawn disabled, and of separators between them. \<open>bc_content\<close> is the view
  last drawn into the area below the trail.
\<close>

record crumb_view =
  cv_id :: nat
  cv_label :: "string option"

datatype crumb = Button string bool | Separator

record breadcrumbs =
  bc_views :: "crumb_view list"
  bc_trail :: "crumb list"
  bc_content :: "nat option"

definition newBreadcrumbs :: breadcrumbs where
  "newBreadcrumbs = \<lparr>bc_views = [], bc_trail = [], bc_content = None\<rparr>"

definition shown_label :: "crumb_view \<Rightarrow> string" where
  "shown_label v = (case cv_label v of None \<Rightarrow> ''???'' | Some l \<Rightarrow> l)"

fun enable :: "crumb \<Rightarrow> crumb" where
  "enable (Button l d) = Button l False"
| "enable Separator = Separator"

text \<open>
  Pushing a view and going back to one, for views that can be drawn. The workspace (theory
  Navigation) keeps what the area below the trail shows when drawing a view raises.
\<close>

definition pushView :: "crumb_view \<Rightarrow> breadcrumbs \<Rightarrow> breadcrumbs" where
  "pushView v b =
     (let views = bc_views b @ [v];
          trail = bc_trail b @ (if length views > 1 then [Separator] else [])
      in b\<lparr>bc_views := views, bc_trail := map enable trail @ [Button (shown_label v) True],
           bc_content := Some (cv_id v)\<rparr>)"

text \<open>The selectors \<open>a:last-child\<close> and \<open>span:last-child\<close> match only the last element of the trail.\<close>

definition remove_last_button :: "crumb list \<Rightarrow> crumb list" where
  "remove_last_button t = (case rev t of Button _ _ # r \<Rightarrow> rev r | _ \<Rightarrow> t)"

definition remove_last_separator :: "crumb list \<Rightarrow> crumb list" where
  "remove_last_separator t = (case rev t of Separator # r \<Rightarrow> rev r | _ \<Rightarrow> t)"

definition disable_last_button :: "crumb list \<Rightarrow> crumb list" where
  "disable_last_button t = (case rev t of Button l _ # r \<Rightarrow> rev (Button l True # r) | _ \<Rightarrow> t)"

text \<open>The loop of \<open>_removeToLabel\<close>, on the views from the last to the first.\<close>

fun removeLoop :: "string option \<Rightarrow> crumb_view list \<Rightarrow> crumb list \<Rightarrow> nat option \<Rightarrow> breadcrumbs" where
  "removeLoop label [] t c = \<lparr>bc_views = [], bc_trail = t, bc_content = c\<rparr>"
| "removeLoop label (v # vs) t c =
     (if cv_label v = label
      then \<lparr>bc_views = rev (v # vs), bc_trail = disable_last_button t, bc_content = Some (cv_id v)\<rparr>
      else removeLoop label vs (remove_last_separator (remove_last_button t)) c)"

definition removeToLabel :: "string option \<Rightarrow> breadcrumbs \<Rightarrow> breadcrumbs" where
  "removeToLabel label b = removeLoop label (rev (bc_views b)) (bc_trail b) (bc_content b)"

definition backView :: "breadcrumbs \<Rightarrow> breadcrumbs" where
  "backView b =
     (if length (bc_views b) \<le> 1 then b
      else removeToLabel (cv_label (bc_views b ! (length (bc_views b) - 2))) b)"

text \<open>A click on the button with a text.\<close>

definition onSelectView :: "string \<Rightarrow> breadcrumbs \<Rightarrow> breadcrumbs" where
  "onSelectView txt b = removeToLabel (Some (trim txt)) b"

text \<open>
  Drawing the component anew empties the trail and the area, takes the last view off and draws
  it into its old element, which is no longer on the page.
\<close>

definition renderBreadcrumbs :: "breadcrumbs \<Rightarrow> breadcrumbs" where
  "renderBreadcrumbs b = \<lparr>bc_views = butlast (bc_views b), bc_trail = [], bc_content = None\<rparr>"

text \<open>What the page should show for a list of views.\<close>

fun trail_of :: "crumb_view list \<Rightarrow> crumb list" where
  "trail_of [] = []"
| "trail_of [v] = [Button (shown_label v) True]"
| "trail_of (v # w # vs) = Button (shown_label v) False # Separator # trail_of (w # vs)"

definition in_order :: "breadcrumbs \<Rightarrow> bool" where
  "in_order b \<longleftrightarrow> bc_trail b = trail_of (bc_views b) \<and>
     (bc_views b \<noteq> [] \<longrightarrow> bc_content b = Some (cv_id (last (bc_views b))))"

lemma trail_snoc:
  "trail_of (vs @ [v]) = map enable (trail_of vs @ (if vs = [] then [] else [Separator])) @ [Button (shown_label v) True]"
proof (induction vs rule: trail_of.induct)
  case (3 u w vs)
  then show ?case by (cases vs) auto
qed auto

lemma trail_nonempty [simp]: "trail_of vs = [] \<longleftrightarrow> vs = []"
  by (cases vs rule: trail_of.cases) auto

lemma in_order_push: "in_order b \<Longrightarrow> in_order (pushView v b)"
  by (cases "bc_views b = []") (auto simp: in_order_def pushView_def Let_def trail_snoc)

text \<open>A trail whose last button is drawn in either way.\<close>

definition trail_like :: "crumb_view list \<Rightarrow> crumb list \<Rightarrow> bool" where
  "trail_like vs t \<longleftrightarrow> (vs = [] \<and> t = []) \<or>
     (\<exists>us v d. vs = us @ [v] \<and> t = map enable (trail_of us @ (if us = [] then [] else [Separator])) @ [Button (shown_label v) d])"

lemma trail_like_trail: "trail_like vs (trail_of vs)"
  by (cases vs rule: rev_cases) (auto simp: trail_like_def trail_snoc)

lemma trail_like_remove:
  assumes "trail_like (us @ [v]) t"
  shows "trail_like us (remove_last_separator (remove_last_button t))"
proof -
  from assms obtain d where t: "t = map enable (trail_of us @ (if us = [] then [] else [Separator])) @ [Button (shown_label v) d]"
    by (auto simp: trail_like_def)
  show ?thesis
  proof (cases us rule: rev_cases)
    case Nil
    with t show ?thesis by (simp add: remove_last_button_def remove_last_separator_def trail_like_def)
  next
    case (snoc ws w)
    have "map enable (map enable xs) = map enable xs" for xs
    proof -
      have "enable (enable x) = enable x" for x by (cases x) simp_all
      then show ?thesis by simp
    qed
    then have "remove_last_separator (remove_last_button t) =
        map enable (trail_of ws @ (if ws = [] then [] else [Separator])) @ [Button (shown_label w) False]"
      unfolding t snoc trail_snoc by (auto simp: remove_last_button_def remove_last_separator_def)
    with snoc show ?thesis unfolding trail_like_def by blast
  qed
qed

lemma trail_like_disable: "vs \<noteq> [] \<Longrightarrow> trail_like vs t \<Longrightarrow> disable_last_button t = trail_of vs"
  by (auto simp: trail_like_def disable_last_button_def trail_snoc)

lemma in_order_loop:
  "trail_like (rev vs) t \<Longrightarrow> in_order (removeLoop label vs t c)"
proof (induction vs arbitrary: t)
  case Nil
  then show ?case by (simp add: in_order_def trail_like_def)
next
  case (Cons v vs)
  show ?case
  proof (cases "cv_label v = label")
    case True
    with Cons(2) trail_like_disable [of "rev (v # vs)" t] show ?thesis by (simp add: in_order_def)
  next
    case False
    have "trail_like (rev vs) (remove_last_separator (remove_last_button t))"
      using trail_like_remove Cons(2) by simp
    with Cons(1) False show ?thesis by simp
  qed
qed

lemma in_order_removeToLabel: "in_order b \<Longrightarrow> in_order (removeToLabel label b)"
  unfolding removeToLabel_def by (rule in_order_loop) (simp add: in_order_def trail_like_trail)

text \<open>What the loop leaves: the views up to the last one with the label.\<close>

lemma loop_views:
  "bc_views (removeLoop label vs t c) = rev (dropWhile (\<lambda>v. cv_label v \<noteq> label) vs)"
  by (induction vs arbitrary: t) auto

lemma views_removeToLabel:
  "bc_views (removeToLabel label b) = rev (dropWhile (\<lambda>v. cv_label v \<noteq> label) (rev (bc_views b)))"
  by (simp add: removeToLabel_def loop_views)

lemma views_up_to:
  assumes "distinct (map cv_label vs)" "i < length vs"
  shows "rev (dropWhile (\<lambda>v. cv_label v \<noteq> cv_label (vs ! i)) (rev vs)) = take (Suc i) vs"
proof -
  have vs: "rev vs = rev (drop (Suc i) vs) @ vs ! i # rev (take i vs)"
    using arg_cong [OF id_take_nth_drop [OF assms(2)], of rev] by simp
  have "cv_label v \<noteq> cv_label (vs ! i)" if "v \<in> set (drop (Suc i) vs)" for v
  proof -
    from that obtain j where j: "j < length vs" "i < j" "v = vs ! j"
      by (auto simp: in_set_conv_nth) (metis add_Suc_right add_leD1 less_add_Suc1 less_diff_conv add.commute add_Suc)
    then show ?thesis using assms nth_eq_iff_index_eq [of "map cv_label vs" j i] by auto
  qed
  then have "dropWhile (\<lambda>v. cv_label v \<noteq> cv_label (vs ! i)) (rev (drop (Suc i) vs)) = []"
    by (auto simp: dropWhile_eq_Nil_conv)
  then have "dropWhile (\<lambda>v. cv_label v \<noteq> cv_label (vs ! i)) (rev vs) = vs ! i # rev (take i vs)"
    unfolding vs by (subst dropWhile_append2) auto
  then show ?thesis using assms(2) by (simp add: take_Suc_conv_app_nth)
qed

inductive trail_reachable :: "breadcrumbs \<Rightarrow> bool" where
  tr_new: "trail_reachable newBreadcrumbs"
| tr_push: "trail_reachable b \<Longrightarrow> trail_reachable (pushView v b)"
| tr_back: "trail_reachable b \<Longrightarrow> trail_reachable (backView b)"
| tr_select: "trail_reachable b \<Longrightarrow> trail_reachable (onSelectView txt b)"

lemma trail_reachable_in_order: "trail_reachable b \<Longrightarrow> in_order b"
proof (induction rule: trail_reachable.induct)
  case tr_new
  then show ?case by (simp add: newBreadcrumbs_def in_order_def)
qed (auto simp: backView_def onSelectView_def intro: in_order_push in_order_removeToLabel)

text \<open>
  What the workspace relies on: pushing a view, going back to a label, and that a trail in order
  is determined by its views.
\<close>

locale view_trail =
  fixes views :: "'b \<Rightarrow> 'v list"
    and ordered :: "'b \<Rightarrow> bool"
    and push :: "'v \<Rightarrow> 'b \<Rightarrow> 'b"
    and to_label :: "'l \<Rightarrow> 'b \<Rightarrow> 'b"
    and label_of :: "'v \<Rightarrow> 'l"
  assumes views_push: "views (push v b) = views b @ [v]"
    and ordered_push: "ordered b \<Longrightarrow> ordered (push v b)"
    and views_to_label: "views (to_label l b) = rev (dropWhile (\<lambda>v. label_of v \<noteq> l) (rev (views b)))"
    and ordered_to_label: "ordered b \<Longrightarrow> ordered (to_label l b)"
    and determined: "ordered b \<Longrightarrow> ordered c \<Longrightarrow> views b = views c \<Longrightarrow> views b \<noteq> [] \<Longrightarrow> b = c"
begin

lemma pushes_views: "views (foldl (\<lambda>b v. push v b) b vs) = views b @ vs"
  by (induction vs arbitrary: b) (simp_all add: views_push)

lemma ordered_pushes: "ordered b \<Longrightarrow> ordered (foldl (\<lambda>b v. push v b) b vs)"
  by (induction vs arbitrary: b) (simp_all add: ordered_push)

lemma to_label_undoes_pushes:
  assumes "ordered b" "views b \<noteq> []" "\<And>v. v \<in> set vs \<Longrightarrow> label_of v \<noteq> label_of (last (views b))"
  shows "to_label (label_of (last (views b))) (foldl (\<lambda>b v. push v b) b vs) = b"
proof -
  let ?l = "label_of (last (views b))" and ?b = "foldl (\<lambda>b v. push v b) b vs"
  have "dropWhile (\<lambda>v. label_of v \<noteq> ?l) (rev (views b)) = rev (views b)"
    using assms(2) by (cases "views b" rule: rev_cases) simp_all
  then have "dropWhile (\<lambda>v. label_of v \<noteq> ?l) (rev vs @ rev (views b)) = rev (views b)"
    using assms(3) by (subst dropWhile_append2) auto
  then have "views (to_label ?l ?b) = views b" by (simp add: views_to_label pushes_views)
  with assms(1,2) show ?thesis by (intro determined) (simp_all add: ordered_to_label ordered_pushes)
qed

lemma to_label_undoes_push:
  assumes "ordered b" "views b \<noteq> []" "label_of v \<noteq> label_of (last (views b))"
  shows "to_label (label_of (last (views b))) (push v b) = b"
  using to_label_undoes_pushes [of b "[v]"] assms by simp

end

interpretation crumbs: view_trail bc_views in_order pushView removeToLabel cv_label
proof
  show "bc_views (pushView v b) = bc_views b @ [v]" for v b by (simp add: pushView_def Let_def)
  show "b = c" if "in_order b" "in_order c" "bc_views b = bc_views c" "bc_views b \<noteq> []" for b c
    using that by (cases b; cases c) (auto simp: in_order_def)
qed (simp_all add: in_order_push views_removeToLabel in_order_removeToLabel)

section \<open>Containers\<close>

record block =
  bl_id :: nat
  bl_label :: string
  bl_collapsed :: bool

text \<open>\<open>actions\<close> holds the hidden flag of the actions that were hidden or shown explicitly.\<close>

record container =
  components :: "block list"
  actions_hidden :: "(string \<times> bool) list"
  hideHeader :: bool
  hideFooter :: bool

definition clearContainer :: "container \<Rightarrow> container" where
  "clearContainer c = \<lparr>components = [], actions_hidden = [], hideHeader = False, hideFooter = False\<rparr>"

text \<open>A container is made empty.\<close>

definition newContainer :: container where
  "newContainer = clearContainer \<lparr>components = [], actions_hidden = [], hideHeader = False, hideFooter = False\<rparr>"

definition setHideHeader :: "bool \<Rightarrow> container \<Rightarrow> container" where
  "setHideHeader h c = c\<lparr>hideHeader := h\<rparr>"

definition setHideFooter :: "bool \<Rightarrow> container \<Rightarrow> container" where
  "setHideFooter h c = c\<lparr>hideFooter := h\<rparr>"

definition addBlock :: "nat \<Rightarrow> string \<Rightarrow> bool \<Rightarrow> container \<Rightarrow> container" where
  "addBlock i label collapsed c =
     c\<lparr>components := components c @ [\<lparr>bl_id = i, bl_label = label, bl_collapsed = collapsed\<rparr>]\<rparr>"

text \<open>
  \<open>remove\<close> collects the components to keep and then calls the array that holds them, which is
  not a function.
\<close>

definition removeBlock :: "nat \<Rightarrow> (container, unit) prog" where
  "removeBlock i =
     seq (reads (\<lambda>c. filter (\<lambda>b. bl_id b \<noteq> i) (components c))) (\<lambda>holder. throw (TypeError ''holder''))"

definition setActionHidden :: "string \<Rightarrow> bool \<Rightarrow> container \<Rightarrow> container" where
  "setActionHidden name h c = c\<lparr>actions_hidden := obj_put name h (actions_hidden c)\<rparr>"

text \<open>The buttons drawn in the header, or the footer.\<close>

definition header_actions :: "string list \<Rightarrow> container \<Rightarrow> string list" where
  "header_actions config c =
     (if hideHeader c then [] else filter (\<lambda>a. map_of (actions_hidden c) a \<noteq> Some True) config)"

definition footer_actions :: "string list \<Rightarrow> container \<Rightarrow> string list" where
  "footer_actions config c =
     (if hideFooter c then [] else filter (\<lambda>a. map_of (actions_hidden c) a \<noteq> Some True) config)"

definition onToggleBlock :: "nat \<Rightarrow> (container, unit) prog" where
  "onToggleBlock i =
     seq (reads components) (\<lambda>bs.
       if i < length bs
       then update (\<lambda>c. c\<lparr>components := bs[i := (bs ! i)\<lparr>bl_collapsed := \<not> bl_collapsed (bs ! i)\<rparr>]\<rparr>)
       else throw (TypeError ''collapible''))"

definition shown_components :: "container \<Rightarrow> nat list" where
  "shown_components c = map bl_id (filter (\<lambda>b. \<not> bl_collapsed b) (components c))"

text \<open>The handler of the first action of the name is run, if there is one.\<close>

definition onAction :: "(string \<times> 'h) list \<Rightarrow> string \<Rightarrow> 'h option" where
  "onAction actions name = map_option snd (find (\<lambda>(n, h). n = name) actions)"

definition onRunDemo :: "(string \<times> 'h) list \<Rightarrow> string \<Rightarrow> 'h option" where
  "onRunDemo demos name = map_option snd (find (\<lambda>(n, h). n = name) demos)"

text \<open>The class of the highlighted content.\<close>

definition highlightSyntax :: "string option \<Rightarrow> string" where
  "highlightSyntax cfg = (case cfg of None \<Rightarrow> [] | Some l \<Rightarrow> ''lang-'' @ l)"

section \<open>Plugins, navigation, workspace\<close>

record plugin =
  pg_name :: string
  pg_label :: string
  pg_blocks :: nat

definition addPlugin :: "plugin \<Rightarrow> plugin list \<Rightarrow> plugin list" where
  "addPlugin p ps = ps @ [p]"

definition getPlugin :: "string \<Rightarrow> plugin list \<Rightarrow> plugin option" where
  "getPlugin name ps = find (\<lambda>p. pg_name p = name) ps"

definition ClusterPlugin :: plugin where
  "ClusterPlugin = \<lparr>pg_name = ''cluster'', pg_label = ''Cluster'', pg_blocks = 2\<rparr>"

definition RingBearerPlugin :: plugin where
  "RingBearerPlugin = \<lparr>pg_name = ''ringbearer'', pg_label = ''RingBearer'', pg_blocks = 2\<rparr>"

definition YarnPlugin :: plugin where
  "YarnPlugin = \<lparr>pg_name = ''yarn'', pg_label = ''Yarn Application'', pg_blocks = 2\<rparr>"

definition ElasticsearchPlugin :: plugin where
  "ElasticsearchPlugin = \<lparr>pg_name = ''elasticsearch'', pg_label = ''Elasticsearch'', pg_blocks = 1\<rparr>"

definition UIDemoPlugin :: plugin where
  "UIDemoPlugin = \<lparr>pg_name = ''uidemo'', pg_label = ''UI Demo'', pg_blocks = 1\<rparr>"

definition DemandSpikePlugin :: plugin where
  "DemandSpikePlugin = \<lparr>pg_name = ''demandspike'', pg_label = ''DemandSpike'', pg_blocks = 2\<rparr>"

definition registered :: "plugin list" where
  "registered = foldl (\<lambda>ps p. addPlugin p ps) []
     [ClusterPlugin, RingBearerPlugin, YarnPlugin, ElasticsearchPlugin, UIDemoPlugin]"

text \<open>
  The site: the active plugin, the blocks of its navigation that are on the page (\<open>None\<close> when
  only the list of plugins was drawn), and what the workspace holds.
\<close>

record site =
  activePlugin :: "plugin option"
  navigation :: "(string list \<times> nat option) option"
  workspace :: "breadcrumbs option"

definition newSite :: site where
  "newSite = \<lparr>activePlugin = getPlugin ''cluster'' registered, navigation = None, workspace = None\<rparr>"

definition renderNavigation :: "(site, unit) prog" where
  "renderNavigation =
     andthen (update (\<lambda>s. s\<lparr>navigation := Some (map pg_label registered, None)\<rparr>))
       (seq (reads activePlugin) (\<lambda>p. case p of
           None \<Rightarrow> throw (TypeError ''uiNavigation'')
         | Some p \<Rightarrow> update (\<lambda>s. s\<lparr>navigation := Some (map pg_label registered, Some (pg_blocks p))\<rparr>)))"

definition setActivePlugin :: "string \<Rightarrow> (site, unit) prog" where
  "setActivePlugin name =
     andthen (update (\<lambda>s. s\<lparr>activePlugin := getPlugin name registered\<rparr>)) renderNavigation"

text \<open>A new trail is put into the workspace, which draws it, and the component is added to it.\<close>

definition openInWorkspace :: "crumb_view \<Rightarrow> site \<Rightarrow> site" where
  "openInWorkspace v s = s\<lparr>workspace := Some (pushView v (renderBreadcrumbs newBreadcrumbs))\<rparr>"

section \<open>Properties\<close>

text \<open>
  C34: on components whose parents form chains, the search for an ancestor ends and returns the
  nearest one of the type, or \<open>null\<close> when there is none; and adding a component to one that
  does not lie below it keeps all chains finite, so that the search keeps ending everywhere.
\<close>
theorem ancestor_search_ends:
  assumes "parent_chain par c ps"
  shows "getAncestorOfType par ty t c = Some (find (\<lambda>p. ty p = Some t) ps) \<and>
    (\<forall>d x qs. d \<noteq> c \<longrightarrow> d \<notin> set ps \<longrightarrow> parent_chain par x qs \<longrightarrow>
       (\<exists>r. getAncestorOfType (attach d c par) ty t x = Some r))"
  using ancestor_of_chain assms chain_attach_all [OF assms] by metis

theorem ancestor_search_ends_witness:
  "let par = attach 3 2 (attach 2 1 (\<lambda>_. None)); ty = (\<lambda>c. if c = 1 then Some ''UIBreadcumbs'' else None)
   in getAncestorOfType par ty ''UIBreadcumbs'' 3 = Some (Some 1)"
proof -
  let ?par = "attach 3 2 (attach 2 1 (\<lambda>_. None))" and ?ty = "\<lambda>c. if c = (1::nat) then Some ''UIBreadcumbs'' else None"
  have "parent_chain ?par 3 [2, 1]" by (simp add: attach_def)
  from ancestor_search_ends [OF this, of ?ty "''UIBreadcumbs''"] show ?thesis by (simp add: Let_def)
qed

text \<open>
  After any sequence of pushes, steps back and clicks the trail shows one button per view
  in order, separated, with only the last one drawn as the current view, and the area below
  shows the last view.
\<close>
lemma trail_mirrors_views:
  assumes "trail_reachable b"
  shows "bc_trail b = trail_of (bc_views b) \<and>
    (bc_views b \<noteq> [] \<longrightarrow> bc_content b = Some (cv_id (last (bc_views b))))"
  using trail_reachable_in_order [OF assms] by (simp add: in_order_def)

lemma trail_mirrors_views_witness:
  "let v = (\<lambda>i l. \<lparr>cv_id = i, cv_label = Some l\<rparr>);
       b = backView (pushView (v 2 ''Metric'') (pushView (v 1 ''Servers'') newBreadcrumbs))
   in bc_trail b = [Button ''Servers'' True] \<and> bc_content b = Some 1"
proof -
  let ?v = "\<lambda>i l. \<lparr>cv_id = i, cv_label = Some l\<rparr>"
  let ?b = "backView (pushView (?v 2 ''Metric'') (pushView (?v 1 ''Servers'') newBreadcrumbs))"
  have "trail_reachable ?b" by (intro trail_reachable.intros)
  moreover have "bc_views ?b = [?v 1 ''Servers'']" by code_simp
  ultimately have "bc_trail ?b = trail_of [?v 1 ''Servers''] \<and> bc_content ?b = Some 1"
    using trail_mirrors_views [of ?b] by simp
  then show ?thesis by (simp add: shown_label_def Let_def)
qed

text \<open>
  While the labels of the views differ, going back drops exactly the last view, and a
  click on the button of a labelled view returns to that view and keeps the ones before it.
\<close>
lemma back_and_select:
  assumes "distinct (map cv_label (bc_views b))" and "i < length (bc_views b)"
    and "cv_label (bc_views b ! i) = Some l" and "trim l = l"
  shows "bc_views (onSelectView l b) = take (Suc i) (bc_views b) \<and>
    (1 < length (bc_views b) \<longrightarrow> bc_views (backView b) = butlast (bc_views b))"
proof -
  let ?vs = "bc_views b"
  have "bc_views (onSelectView l b) = take (Suc i) ?vs"
    using views_up_to [OF assms(1,2)] assms(3,4) by (simp add: onSelectView_def views_removeToLabel)
  moreover have "bc_views (backView b) = butlast ?vs" if "1 < length ?vs"
  proof -
    let ?k = "length ?vs - 2"
    have "bc_views (backView b) = take (Suc ?k) ?vs"
      using that views_up_to [OF assms(1), of ?k] by (simp add: backView_def views_removeToLabel)
    also have "Suc ?k = length ?vs - 1" using that by simp
    finally show ?thesis by (simp add: butlast_conv_take)
  qed
  ultimately show ?thesis by blast
qed

lemma back_and_select_witness:
  "let v = (\<lambda>i l. \<lparr>cv_id = i, cv_label = Some l\<rparr>);
       b = pushView (v 3 ''C'') (pushView (v 2 ''B'') (pushView (v 1 ''A'') newBreadcrumbs))
   in bc_views (onSelectView ''A'' b) = [v 1 ''A''] \<and> bc_views (backView b) = [v 1 ''A'', v 2 ''B'']"
proof -
  let ?v = "\<lambda>i l. \<lparr>cv_id = i, cv_label = Some l\<rparr>"
  let ?b = "pushView (?v 3 ''C'') (pushView (?v 2 ''B'') (pushView (?v 1 ''A'') newBreadcrumbs))"
  have vs: "bc_views ?b = [?v 1 ''A'', ?v 2 ''B'', ?v 3 ''C'']" by code_simp
  have "trim ''A'' = ''A''" by code_simp
  with back_and_select [of ?b 0 "''A''"] show ?thesis unfolding vs by (simp add: Let_def)
qed

text \<open>
  A view without a label is shown as three question marks, but a click on that button finds
  no view of that label and takes every view off the trail; and when the last two views have
  the same label, going back changes nothing.
\<close>
lemma unlabelled_and_equal_labels:
  assumes "\<forall>v \<in> set (bc_views b). cv_label v \<noteq> Some ''???''"
  shows "bc_views (onSelectView (shown_label \<lparr>cv_id = i, cv_label = None\<rparr>) (pushView \<lparr>cv_id = i, cv_label = None\<rparr> b)) = [] \<and>
    bc_views (backView (pushView \<lparr>cv_id = j, cv_label = l\<rparr> (pushView \<lparr>cv_id = i, cv_label = l\<rparr> b)))
      = bc_views b @ [\<lparr>cv_id = i, cv_label = l\<rparr>, \<lparr>cv_id = j, cv_label = l\<rparr>]"
proof -
  have "trim ''???'' = ''???''" by code_simp
  then show ?thesis
    using assms
    by (auto simp: onSelectView_def views_removeToLabel pushView_def Let_def shown_label_def backView_def nth_append
        dropWhile_eq_Nil_conv)
qed

lemma unlabelled_and_equal_labels_witness:
  "bc_views (onSelectView ''???'' (pushView \<lparr>cv_id = 2, cv_label = None\<rparr>
     (pushView \<lparr>cv_id = 1, cv_label = Some ''A''\<rparr> newBreadcrumbs))) = []"
proof -
  let ?b = "pushView \<lparr>cv_id = 1, cv_label = Some ''A''\<rparr> newBreadcrumbs"
  have "bc_views ?b = [\<lparr>cv_id = 1, cv_label = Some ''A''\<rparr>]" by code_simp
  then show ?thesis using unlabelled_and_equal_labels [of ?b 2] by (simp add: shown_label_def)
qed

text \<open>
  Removing a component from a container always raises and leaves the container as it was.
\<close>
lemma container_remove_raises:
  "removeBlock i c = (Inl (TypeError ''holder''), c)"
  by (simp add: removeBlock_def prog_defs)

text \<open>
  Selecting a plugin draws its navigation exactly when the plugin is one of the five that
  are registered; any other name, the one of the DemandSpike plugin included, leaves the site
  without an active plugin and raises while the navigation is drawn.
\<close>
lemma select_plugin:
  "is_ok (fst (setActivePlugin name s)) = (name = ''cluster'' \<or> name = ''ringbearer'' \<or> name = ''yarn'' \<or>
     name = ''elasticsearch'' \<or> name = ''uidemo'') \<and>
   \<not> is_ok (fst (setActivePlugin (pg_name DemandSpikePlugin) s)) \<and>
   activePlugin (snd (setActivePlugin (pg_name DemandSpikePlugin) s)) = None"
  by (simp add: setActivePlugin_def renderNavigation_def prog_defs registered_def addPlugin_def getPlugin_def
      ClusterPlugin_def RingBearerPlugin_def YarnPlugin_def ElasticsearchPlugin_def UIDemoPlugin_def DemandSpikePlugin_def)

end
