(* ===== verification/Gateway.thy ===== *)
theory Gateway
  imports JSValue
begin

text \<open>
  The gateways to the servers: the synchronous requests of \<open>service/Server.js\<close>, the queries
  on the cluster registration of \<open>service/ClusterGateway.js\<close> and the requests of
  \<open>plugins/elasticsearch/ESGateway.js\<close>.

  \<open>$.ajax\<close> is a parameter of the model: a request changes the world \<open>'w\<close> and either calls
  the success handler with the decoded answer (\<open>Some\<close>) or the error handler (\<open>None\<close>). What
  the error handlers write to the console is not modelled.
\<close>

section \<open>Requests\<close>

record ajax_request =
  rq_type :: string
  rq_url :: string
  rq_dataType :: string
  rq_data :: "string option"

type_synonym 'w ajax = "ajax_request \<Rightarrow> 'w \<Rightarrow> jsval option \<times> 'w"

text \<open>\<open>JSON.stringify\<close>; \<open>undefined\<close> is dropped from objects and becomes \<open>null\<close> in arrays.\<close>

definition hex_digit :: "nat \<Rightarrow> char" where
  "hex_digit d = (if d < 10 then char_of (48 + d) else char_of (87 + d))"

definition json_char :: "char \<Rightarrow> string" where
  "json_char c =
     (let n = of_char c :: nat in
      if n = 34 then [CHR 0x5C, CHR 0x22]
      else if n = 92 then [CHR 0x5C, CHR 0x5C]
      else if n = 8 then [CHR 0x5C, CHR ''b'']
      else if n = 9 then [CHR 0x5C, CHR ''t'']
      else if n = 10 then [CHR 0x5C, CHR ''n'']
      else if n = 12 then [CHR 0x5C, CHR ''f'']
      else if n = 13 then [CHR 0x5C, CHR ''r'']
      else if n < 32 then [CHR 0x5C, CHR ''u'', CHR ''0'', CHR ''0'', hex_digit (n div 16), hex_digit (n mod 16)]
      else [c])"

definition json_string :: "string \<Rightarrow> string" where
  "json_string s = CHR 0x22 # concat (map json_char s) @ [CHR 0x22]"

fun json_text :: "(jsnum \<Rightarrow> string) \<Rightarrow> jsval \<Rightarrow> string" where
  "json_text num_text JUndef = ''null''"
| "json_text num_text JNull = ''null''"
| "json_text num_text (JBool b) = (if b then ''true'' else ''false'')"
| "json_text num_text (JNum n) = (case n of Fin _ \<Rightarrow> num_text n | _ \<Rightarrow> ''null'')"
| "json_text num_text (JStr s) = json_string s"
| "json_text num_text (JArr vs) = ''['' @ join_with '','' (map (json_text num_text) vs) @ '']''"
| "json_text num_text (JObj m) =
     CHR 0x7B # join_with '',''
       (concat (map (\<lambda>(k, v). if v = JUndef then [] else [json_string k @ '':'' @ json_text num_text v]) m)) @ [CHR 0x7D]"

text \<open>The variable \<open>returnData\<close> stays \<open>null\<close> unless the success handler was called.\<close>

definition send :: "'w ajax \<Rightarrow> ajax_request \<Rightarrow> ('w, jsval) prog" where
  "send ajax r w = (case ajax r w of (None, w') \<Rightarrow> (Inr JNull, w') | (Some v, w') \<Rightarrow> (Inr v, w'))"

definition syncGETResource :: "'w ajax \<Rightarrow> string \<Rightarrow> string \<Rightarrow> ('w, jsval) prog" where
  "syncGETResource ajax path dataType =
     send ajax \<lparr>rq_type = ''GET'', rq_url = path, rq_dataType = dataType, rq_data = None\<rparr>"

definition syncPOSTJson :: "(jsnum \<Rightarrow> string) \<Rightarrow> 'w ajax \<Rightarrow> string \<Rightarrow> jsval \<Rightarrow> ('w, jsval) prog" where
  "syncPOSTJson num_text ajax path v =
     send ajax \<lparr>rq_type = ''POST'', rq_url = path, rq_dataType = ''json'', rq_data = Some (json_text num_text v)\<rparr>"

text \<open>\<open>GET\<close> names a variable \<open>params\<close> that does not exist, before the request is sent.\<close>

definition serverGET :: "'w ajax \<Rightarrow> jsval \<Rightarrow> ('w, jsval) prog" where
  "serverGET ajax request = throw (ReferenceError ''params'')"

definition serverPOST :: "(jsnum \<Rightarrow> string) \<Rightarrow> 'w ajax \<Rightarrow> string \<Rightarrow> jsval \<Rightarrow> ('w, jsval) prog" where
  "serverPOST num_text ajax path v =
     send ajax \<lparr>rq_type = ''POST'', rq_url = path, rq_dataType = ''json'', rq_data = Some (json_text num_text v)\<rparr>"

text \<open>A property of any value: \<open>null\<close> and \<open>undefined\<close> have none.\<close>

definition prop_of :: "string \<Rightarrow> jsval \<Rightarrow> jsval result" where
  "prop_of k v =
     (case v of
        JUndef \<Rightarrow> Inl (TypeError k)
      | JNull \<Rightarrow> Inl (TypeError k)
      | JObj m \<Rightarrow> Inr (get_prop m k)
      | _ \<Rightarrow> Inr JUndef)"

definition clusterRequest :: "(jsnum \<Rightarrow> string) \<Rightarrow> 'w ajax \<Rightarrow> string \<Rightarrow> ('w, jsval) prog" where
  "clusterRequest num_text ajax command =
     seq (serverPOST num_text ajax ''/cluster/rest'' (JObj [(''command'', JStr command)]))
       (\<lambda>response. lift_result (prop_of ''data'' response))"

section \<open>Cluster registration\<close>

text \<open>
  The loop \<open>for(i = 0; i < v.length; i++) ... v[i]\<close>: an array or a string has elements, an
  object has none (objects with a property \<open>length\<close> do not occur in the answers).
\<close>

definition elements :: "jsval \<Rightarrow> jsval list result" where
  "elements v =
     (case v of
        JUndef \<Rightarrow> Inl (TypeError ''length'')
      | JNull \<Rightarrow> Inl (TypeError ''length'')
      | JArr vs \<Rightarrow> Inr vs
      | JStr s \<Rightarrow> Inr (map (\<lambda>c. JStr [c]) s)
      | _ \<Rightarrow> Inr [])"

definition bind_result :: "'a result \<Rightarrow> ('a \<Rightarrow> 'b result) \<Rightarrow> 'b result" where
  "bind_result r f = (case r of Inl e \<Rightarrow> Inl e | Inr a \<Rightarrow> f a)"

lemma bind_result_simps [simp]: "bind_result (Inr a) f = f a" "bind_result (Inl e) f = Inl e"
  by (simp_all add: bind_result_def)

fun map_result :: "('a \<Rightarrow> 'b result) \<Rightarrow> 'a list \<Rightarrow> 'b list result" where
  "map_result f [] = Inr []"
| "map_result f (x # xs) = bind_result (f x) (\<lambda>y. bind_result (map_result f xs) (\<lambda>ys. Inr (y # ys)))"

definition serverRegistration :: "jsval \<Rightarrow> jsval list result" where
  "serverRegistration reg = bind_result (prop_of ''serverRegistration'' reg) elements"

definition getMembers :: "jsval \<Rightarrow> jsval list result" where
  "getMembers reg = bind_result (serverRegistration reg) (map_result (prop_of ''clusterMember''))"

text \<open>\<open>$.inArray\<close> is -1 when the second argument is missing.\<close>

definition in_array :: "string \<Rightarrow> jsval \<Rightarrow> bool" where
  "in_array x v =
     (case v of JArr vs \<Rightarrow> JStr x \<in> set vs | JStr s \<Rightarrow> (\<exists>c \<in> set s. x = [c]) | _ \<Rightarrow> False)"

definition getMemberByRole :: "string \<Rightarrow> jsval \<Rightarrow> jsval list result" where
  "getMemberByRole role reg =
     bind_result (serverRegistration reg) (\<lambda>rs.
     bind_result (map_result (\<lambda>r. bind_result (prop_of ''roles'' r) (\<lambda>roles.
         if in_array role roles then bind_result (prop_of ''clusterMember'' r) (\<lambda>m. Inr [m]) else Inr [])) rs)
       (\<lambda>ms. Inr (concat ms)))"

text \<open>The roles are collected as properties of an object, hence without repetition.\<close>

definition getRoleSet :: "(jsnum \<Rightarrow> string) \<Rightarrow> jsval \<Rightarrow> string list result" where
  "getRoleSet num_text reg =
     bind_result (serverRegistration reg) (\<lambda>rs.
     bind_result (map_result (\<lambda>r. bind_result (prop_of ''roles'' r) elements) rs) (\<lambda>roles.
       Inr (obj_keys (foldl (\<lambda>m r. obj_put (js_text num_text r) True m) [] (concat roles)))))"

text \<open>The registration is requested once, when the module is loaded.\<close>

definition newClusterRegistration :: "(jsnum \<Rightarrow> string) \<Rightarrow> 'w ajax \<Rightarrow> ('w, jsval) prog" where
  "newClusterRegistration num_text ajax = clusterRequest num_text ajax ''cluster registration''"

definition gatewayCall :: "(jsnum \<Rightarrow> string) \<Rightarrow> 'w ajax \<Rightarrow> string \<Rightarrow> ('w, jsval) prog" where
  "gatewayCall num_text ajax command = clusterRequest num_text ajax command"

definition gatewayExecute :: "(jsnum \<Rightarrow> string) \<Rightarrow> 'w ajax \<Rightarrow> string \<Rightarrow> ('w, jsval) prog" where
  "gatewayExecute num_text ajax command = clusterRequest num_text ajax command"

section \<open>Elasticsearch\<close>

definition gatewayAddr :: string where
  "gatewayAddr = ''http://127.0.0.1:9200''"

definition esGET :: "'w ajax \<Rightarrow> string \<Rightarrow> ('w, jsval) prog" where
  "esGET ajax path = syncGETResource ajax (gatewayAddr @ path) ''json''"

definition esPOST :: "(jsnum \<Rightarrow> string) \<Rightarrow> 'w ajax \<Rightarrow> string \<Rightarrow> jsval \<Rightarrow> ('w, jsval) prog" where
  "esPOST num_text ajax path v = syncPOSTJson num_text ajax (gatewayAddr @ path) v"

definition indexQuery :: "'w ajax \<Rightarrow> string \<Rightarrow> ('w, jsval) prog" where
  "indexQuery ajax index = esGET ajax (''/'' @ index @ ''/_mapping'')"

definition search_body :: "string \<Rightarrow> jsval" where
  "search_body query =
     JObj [(''from'', JNum (Fin 0)), (''size'', JNum (Fin 250)),
       (''query'', JObj [(''query_string'',
          JObj [(''default_field'', JStr ''_all''), (''query'', JStr query)])])]"

definition esSearch :: "(jsnum \<Rightarrow> string) \<Rightarrow> 'w ajax \<Rightarrow> string \<Rightarrow> string \<Rightarrow> ('w, jsval) prog" where
  "esSearch num_text ajax index query = esPOST num_text ajax (''/'' @ index @ ''/_search'') (search_body query)"

definition clusterHealth :: "'w ajax \<Rightarrow> ('w, jsval) prog" where
  "clusterHealth ajax = esGET ajax ''/_cluster/health''"

definition clusterStats :: "'w ajax \<Rightarrow> ('w, jsval) prog" where
  "clusterStats ajax = esGET ajax ''/_cluster/stats''"

definition esNodes :: "'w ajax \<Rightarrow> ('w, jsval) prog" where
  "esNodes ajax = esGET ajax ''/_nodes''"

definition esIndices :: "'w ajax \<Rightarrow> ('w, jsval) prog" where
  "esIndices ajax = esGET ajax ''/_stats/indices,store,docs''"

definition esStats :: "'w ajax \<Rightarrow> ('w, jsval) prog" where
  "esStats ajax = esGET ajax ''/_stats''"

text \<open>The keys of \<open>result.indices\<close>; a loop over \<open>null\<close> or \<open>undefined\<close> visits nothing.\<close>

definition keys_of :: "jsval \<Rightarrow> string list" where
  "keys_of v =
     (case v of JObj m \<Rightarrow> obj_keys m | JArr vs \<Rightarrow> map show_nat [0..<length vs]
      | JStr s \<Rightarrow> map show_nat [0..<length s] | _ \<Rightarrow> [])"

definition availableIndices :: "'w ajax \<Rightarrow> ('w, string list) prog" where
  "availableIndices ajax =
     seq (esGET ajax ''/_stats/indices'') (\<lambda>result.
     seq (lift_result (prop_of ''indices'' result)) (\<lambda>indices. ret (keys_of indices)))"

section \<open>Facts\<close>

lemma map_result_ok: "(\<And>x. x \<in> set xs \<Longrightarrow> f x = Inr (g x)) \<Longrightarrow> map_result f xs = Inr (map g xs)"
  by (induction xs) (auto simp: bind_result_def)

text \<open>The answer the cluster gives: for each server its member and its roles.\<close>

definition registration :: "(jsval \<times> string list) list \<Rightarrow> jsval" where
  "registration ms =
     JObj [(''serverRegistration'', JArr (map (\<lambda>(m, rs).
       JObj [(''clusterMember'', m), (''roles'', JArr (map JStr rs))]) ms))]"

lemma serverRegistration_of:
  "serverRegistration (registration ms) =
     Inr (map (\<lambda>(m, rs). JObj [(''clusterMember'', m), (''roles'', JArr (map JStr rs))]) ms)"
  by (simp add: serverRegistration_def registration_def prop_of_def get_prop_def bind_result_def elements_def)

lemma map_result_registration:
  assumes "\<And>m rs. f (JObj [(''clusterMember'', m), (''roles'', JArr (map JStr rs))]) = Inr (g m rs)"
  shows "map_result f (map (\<lambda>(m, rs). JObj [(''clusterMember'', m), (''roles'', JArr (map JStr rs))]) ms)
    = Inr (map (\<lambda>(m, rs). g m rs) ms)"
  by (induction ms) (auto simp: bind_result_def assms)

lemma keys_collect:
  "set (obj_keys (foldl (\<lambda>m r. obj_put r True m) m0 xs)) = set (obj_keys m0) \<union> set xs"
  "obj_wf m0 \<Longrightarrow> obj_wf (foldl (\<lambda>m r. obj_put r True m) m0 xs)"
  by (induction xs arbitrary: m0) (auto simp: obj_keys_put)

text \<open>What the three queries return for such an answer.\<close>

lemma members_of_registration: "getMembers (registration ms) = Inr (map fst ms)"
  unfolding getMembers_def serverRegistration_of
  by (simp add: bind_result_def map_result_registration [where g = "\<lambda>m rs. m"] prop_of_def get_prop_def case_prod_beta)

lemma role_of_registration:
  "getMemberByRole role (registration ms) = Inr (map fst (filter (\<lambda>(m, rs). role \<in> set rs) ms))"
proof -
  have "map_result (\<lambda>r. bind_result (prop_of ''roles'' r) (\<lambda>roles.
         if in_array role roles then bind_result (prop_of ''clusterMember'' r) (\<lambda>m. Inr [m]) else Inr []))
      (map (\<lambda>(m, rs). JObj [(''clusterMember'', m), (''roles'', JArr (map JStr rs))]) ms)
    = Inr (map (\<lambda>(m, rs). if role \<in> set rs then [m] else []) ms)"
    by (rule map_result_registration) (auto simp: prop_of_def get_prop_def bind_result_def in_array_def)
  moreover have "concat (map (\<lambda>(m, rs). if role \<in> set rs then [m] else []) ms)
      = map fst (filter (\<lambda>(m, rs). role \<in> set rs) ms)"
    by (induction ms) auto
  ultimately show ?thesis by (simp add: getMemberByRole_def serverRegistration_of bind_result_def)
qed

lemma roles_of_registration:
  "\<exists>roles. getRoleSet num_text (registration ms) = Inr roles \<and> distinct roles \<and> set roles = (\<Union>(m, rs) \<in> set ms. set rs)"
proof -
  have roles: "map_result (\<lambda>r. bind_result (prop_of ''roles'' r) elements)
      (map (\<lambda>(m, rs). JObj [(''clusterMember'', m), (''roles'', JArr (map JStr rs))]) ms)
    = Inr (map (\<lambda>(m, rs). map JStr rs) ms)"
    by (rule map_result_registration) (auto simp: prop_of_def get_prop_def bind_result_def elements_def)
  let ?all = "concat (map snd ms)"
  have "foldl (\<lambda>m r. obj_put (js_text num_text r) True m) m0 (map JStr xs) = foldl (\<lambda>m r. obj_put r True m) m0 xs" for m0 xs
    by (induction xs arbitrary: m0) simp_all
  moreover have "concat (map (\<lambda>(m, rs). map JStr rs) ms) = map JStr ?all"
    by (induction ms) auto
  ultimately have "getRoleSet num_text (registration ms)
      = Inr (obj_keys (foldl (\<lambda>m r. obj_put r True m) [] ?all))"
    by (simp add: getRoleSet_def serverRegistration_of roles)
  moreover have "distinct (obj_keys (foldl (\<lambda>m r. obj_put r True m) [] ?all))"
    using keys_collect(2) [OF obj_wf_Nil, of ?all] by (simp add: obj_wf_def)
  moreover have "set (obj_keys (foldl (\<lambda>m r. obj_put r True m) [] ?all)) = (\<Union>(m, rs) \<in> set ms. set rs)"
    unfolding keys_collect(1) by (force simp: obj_keys_def)
  ultimately show ?thesis by blast
qed

section \<open>Properties\<close>

text \<open>
  On an answer of the cluster the three queries agree: the members of a role are the members
  of the servers with that role, in the order of the answer; the role set has each role once,
  and exactly those roles that some member has.
\<close>
lemma registration_queries_agree:
  "getMembers (registration ms) = Inr (map fst ms) \<and>
   getMemberByRole role (registration ms) = Inr (map fst (filter (\<lambda>(m, rs). role \<in> set rs) ms)) \<and>
   (\<exists>roles. getRoleSet num_text (registration ms) = Inr roles \<and> distinct roles \<and>
      (role \<in> set roles) = (getMemberByRole role (registration ms) \<noteq> Inr []))"
proof -
  obtain roles where "getRoleSet num_text (registration ms) = Inr roles" "distinct roles"
    "set roles = (\<Union>(m, rs) \<in> set ms. set rs)"
    using roles_of_registration by blast
  then show ?thesis
    by (fastforce simp: members_of_registration role_of_registration filter_empty_conv)
qed

text \<open>
  A command is sent as one POST whose body is the JSON text of the command; its result is
  the data of the answer, and when the request fails, the code that would report the missing
  data raises instead. The function for GET requests raises before it sends anything.
\<close>
lemma cluster_request_outcomes:
  "clusterRequest num_text ajax command w =
     (case ajax \<lparr>rq_type = ''POST'', rq_url = ''/cluster/rest'', rq_dataType = ''json'',
         rq_data = Some (CHR 0x7B # json_string ''command'' @ '':'' @ json_string command @ [CHR 0x7D])\<rparr> w of
        (None, w') \<Rightarrow> (Inl (TypeError ''data''), w')
      | (Some response, w') \<Rightarrow> (prop_of ''data'' response, w')) \<and>
   serverGET ajax request w = (Inl (ReferenceError ''params''), w)"
  by (auto simp: clusterRequest_def serverPOST_def send_def serverGET_def prog_defs prop_of_def
      split: prod.split option.split)

text \<open>
  A search sends one POST to the search path of the index with the fixed window of 250 hits
  and the text of the query, whatever characters the text has, as one JSON string.
\<close>
lemma search_sends_query:
  "esSearch num_text ajax index query w =
     (case ajax \<lparr>rq_type = ''POST'', rq_url = ''http://127.0.0.1:9200/'' @ index @ ''/_search'', rq_dataType = ''json'',
         rq_data = Some (CHR 0x7B # json_string ''from'' @ '':'' @ num_text (Fin 0) @ '','' @
           json_string ''size'' @ '':'' @ num_text (Fin 250) @ '','' @ json_string ''query'' @ '':'' @
           CHR 0x7B # json_string ''query_string'' @ '':'' @
           CHR 0x7B # json_string ''default_field'' @ '':'' @ json_string ''_all'' @ '','' @
           json_string ''query'' @ '':'' @ json_string query @ [CHR 0x7D, CHR 0x7D, CHR 0x7D])\<rparr> w of
        (None, w') \<Rightarrow> (Inr JNull, w')
      | (Some response, w') \<Rightarrow> (Inr response, w'))"
  by (simp add: esSearch_def esPOST_def syncPOSTJson_def send_def search_body_def gatewayAddr_def)

end
