(* ===== verification/Demo.thy ===== *)
theory Demo
  imports SharedArrays TableEdit TableTree Components Gateway
begin

text \<open>
  The demos of the components (\<open>plugins/uidemo\<close>): a page with three forms over copies of one bean,
  a table of 151 beans, and a tree. The copies of the bean are shallow, so the forms share an array;
  they run over the store of references. The first section shows what sharing does in general.
\<close>

section \<open>A shared array\<close>

text \<open>All references are to arrays that were made.\<close>

definition refs_made :: "ref_store \<Rightarrow> bool" where
  "refs_made s \<longleftrightarrow> (\<forall>a k q. map_of (rs_beans s a) k = Some (Ref q) \<longrightarrow> q < rs_next s)"

lemma assign_made: "refs_made s \<Longrightarrow> refs_made (assign_value a k v s)"
  by (cases v) (auto simp: refs_made_def assign_value_def put_ref_def less_Suc_eq split: if_splits)

lemma value_other:
  assumes "refs_made s" "(b, j) \<noteq> (a, k)"
  shows "map_option (deref (assign_value a k v s)) (map_of (rs_beans (assign_value a k v s) b) j) = map_option (deref s) (map_of (rs_beans s b) j)"
proof -
  have "map_of (rs_beans s b) j \<noteq> Some (Ref (rs_next s))"
    using assms(1) unfolding refs_made_def by (metis less_irrefl)
  then show ?thesis using assms(2)
    by (cases v; cases "map_of (rs_beans s b) j")
       (auto simp: assign_value_def put_ref_def deref_def split: ref_value.split)
qed

lemma value_assigned: "get_prop (value_bean (assign_value a k v s) a) k = v"
  by (cases v) (simp_all add: get_prop_def map_of_value assign_value_def put_ref_def deref_def)

lemma get_value_other:
  "refs_made s \<Longrightarrow> (b, j) \<noteq> (a, k) \<Longrightarrow> get_prop (value_bean (assign_value a k v s) b) j = get_prop (value_bean s b) j"
  using value_other [of s b j a k v] by (simp add: get_prop_def map_of_value)

text \<open>Drawing fills properties without a value and leaves the others.\<close>

definition holds :: "nat \<Rightarrow> string \<Rightarrow> jsval \<Rightarrow> ref_form \<Rightarrow> bool" where
  "holds b j w r \<longleftrightarrow> refs_made (rf_store r) \<and> get_prop (value_bean (rf_store r) b) j = w"

lemma keeps_on_ui [keep_rules]: "keeps (holds b j w) (on_ui m)"
  by (auto simp: keeps_def on_ui_def holds_def split: prod.split)

lemma keeps_read_bean [keep_rules]: "keeps (holds b j w) (read_bean a)"
  by (simp add: read_bean_def keeps_on_ui)

lemma keeps_draw:
  assumes "\<not> nullish w"
  shows "keeps (holds b j w) (ref_draw a fs)"
proof (induction fs)
  case (Cons f fs)
  have step: "holds b j w (snd (ref_draw a (f # fs) r))" if r: "holds b j w r" for r
  proof -
    let ?b = "value_bean (rf_store r) a"
    let ?fill = "fc_options f = None \<and> fc_multiple f \<noteq> None \<and> nullish (get_prop ?b (fc_field f))"
    let ?r1 = "if ?fill then r\<lparr>rf_store := assign_value a (fc_field f) (JArr [JStr []]) (rf_store r)\<rparr> else r"
    have "holds b j w ?r1"
    proof (cases ?fill)
      case True
      with r assms have "(b, j) \<noteq> (a, fc_field f)" by (auto simp: holds_def)
      with r True show ?thesis by (simp add: holds_def assign_made get_value_other)
    next
      case False
      then have "?r1 = r" by (rule if_not_P)
      with r show ?thesis by (simp add: holds_def)
    qed
    with keepsD [OF Cons.IH this] r show ?thesis
      by (auto simp: seq_def read_bean_run andthen_def whenever_def in_store_def update_def ret_def throw_def holds_def)
  qed
  then show ?case by (simp add: keeps_def)
qed (simp add: keep_rules)

lemma keeps_render: "\<not> nullish w \<Longrightarrow> keeps (holds b j w) (ref_render cfg)"
  unfolding ref_render_def ref_render_block_def by (intro keep_rules keeps_draw)

text \<open>A text typed into an entry of a repeated field writes into the array of the field.\<close>

lemma change_entry_run:
  assumes "map_of (beanStates (rf_ui r)) name = Some st" "getBeanConfig cfg name = Some fs"
    and "split_input_name inp = (k, Some (int i))" "getBeanFieldConfig fs k = Some f" "fc_multiple f = Some True"
    and "map_of (rs_beans (rf_store r) (bs_bean st)) k = Some (Ref q)" "rs_arrays (rf_store r) q = vs" "i < length vs"
  shows "ref_onChangeInput nt cfg name inp val r = (Inr (),
     (if equals_string nt (vs ! i) val then r
      else r\<lparr>rf_ui := snd (keep_origin name (value_bean (rf_store r) (bs_bean st)) (rf_ui r))\<rparr>)
        \<lparr>rf_store := (rf_store r)\<lparr>rs_arrays := (rs_arrays (rf_store r))(q := vs[i := JStr val])\<rparr>\<rparr>)"
proof -
  have v: "get_prop (value_bean (rf_store r) (bs_bean st)) k = JArr vs"
    using assms(6,7) by (simp add: get_prop_def map_of_value deref_def)
  have entry: "index_get (JArr vs) (Some (int i)) = vs ! i" using assms(8) by (simp add: index_get_def js_index_def)
  have set: "index_set (JArr vs) (Some (int i)) (JStr val) = JArr (vs[i := JStr val])" using assms(8) by (simp add: index_set_def)
  show ?thesis
    unfolding ref_onChangeInput_def
    using assms(1-7) v entry set
    by (auto simp: seq_def on_ui_def get_state_def get_config_def read_bean_run Let_def andthen_def whenever_def in_store_def update_def
        ret_def write_inside_def value_form_def keep_origin_def set_state_def)
qed

text \<open>A copy of a copy.\<close>

lemma deep_copy_twice: "deep_copy (deep_copy v) = deep_copy v"
proof (induction v rule: deep_copy.induct)
  case (1 vs)
  let ?ws = "rev (dropWhile (\<lambda>v. v = JUndef) (rev (map deep_copy vs)))"
  have "deep_copy w = w" if "w \<in> set ?ws" for w
    using that 1 by (auto dest!: set_dropWhileD)
  then have "map deep_copy ?ws = ?ws" by (rule map_idI)
  then show ?case by (simp only: deep_copy.simps rev_rev_ident dropWhile_idem)
next
  case (2 m)
  let ?n = "filter (\<lambda>(k, v). v \<noteq> JUndef) (map (\<lambda>(k, v). (k, deep_copy v)) m)"
  have "map (\<lambda>(k, v). (k, deep_copy v)) ?n = ?n"
    using 2 by (intro map_idI) auto
  moreover have "filter (\<lambda>(k, v). v \<noteq> JUndef) ?n = ?n" by (rule filter_True) auto
  ultimately show ?case by (simp only: deep_copy.simps)
qed simp_all

text \<open>A bean that is replaced, with new arrays.\<close>

lemma assign_all_values:
  assumes "refs_made s" "distinct (map fst m)"
  shows "refs_made (assign_all a m s) \<and> get_prop (value_bean (assign_all a m s) b) j =
    (if b = a \<and> j \<in> set (map fst m) then get_prop m j else get_prop (value_bean s b) j)"
  using assms
proof (induction m arbitrary: s)
  case (Cons p m)
  obtain k v where p: "p = (k, v)" by (cases p)
  from Cons.prems have k: "k \<notin> set (map fst m)" "distinct (map fst m)" by (simp_all add: p)
  note IH = Cons.IH [OF assign_made [OF Cons.prems(1)] k(2), of a k v]
  show ?case
  proof (cases "b = a \<and> j = k")
    case True
    then show ?thesis using IH k by (simp add: p value_assigned) (simp add: get_prop_def)
  next
    case False
    then have "get_prop (value_bean (assign_value a k v s) b) j = get_prop (value_bean s b) j"
      by (intro get_value_other Cons.prems) auto
    with False IH show ?thesis by (auto simp: p get_prop_def)
  qed
qed simp

lemma replace_values:
  assumes "refs_made s" "obj_wf m"
  shows "refs_made (replace_bean a m s)"
    and "get_prop (value_bean (replace_bean a m s) b) j = (if b = a then get_prop m j else get_prop (value_bean s b) j)"
proof -
  let ?s = "s\<lparr>rs_beans := (rs_beans s)(a := [])\<rparr>"
  have made: "refs_made ?s" using assms(1) by (auto simp: refs_made_def split: if_splits)
  have val: "get_prop (value_bean ?s b) j = (if b = a then JUndef else get_prop (value_bean s b) j)" for b
    by (simp add: get_prop_def map_of_value)
  have none: "get_prop m j = JUndef" if "j \<notin> set (map fst m)"
    using that by (simp add: get_prop_def map_of_eq_None_iff [symmetric])
  show "refs_made (replace_bean a m s)"
    and "get_prop (value_bean (replace_bean a m s) b) j = (if b = a then get_prop m j else get_prop (value_bean s b) j)"
    using assign_all_values [OF made, of m a b j] assms(2) none
    by (auto simp: replace_bean_def val obj_wf_def obj_keys_def)
qed

text \<open>A change of an entry that several fields refer to, and its restoring.\<close>

lemma shared_change:
  assumes "map_of (beanStates (rf_ui r)) name = Some st" "origin st = None" "getBeanConfig cfg name = Some fs"
    and "split_input_name inp = (k, Some (int i))" "getBeanFieldConfig fs k = Some f" "fc_multiple f = Some True"
    and "map_of (rs_beans (rf_store r) (bs_bean st)) k = Some (Ref q)" "rs_arrays (rf_store r) q = vs" "i < length vs"
    and "\<not> equals_string nt (vs ! i) val" "refs_made (rf_store r)" "\<And>a. obj_wf (rs_beans (rf_store r) a)"
  defines "r' \<equiv> snd (ref_onChangeInput nt cfg name inp val r)"
  shows "(\<forall>b j. map_of (rs_beans (rf_store r) b) j = Some (Ref q) \<longrightarrow>
       get_prop (value_bean (rf_store r') b) j = JArr (vs[i := JStr val]) \<and>
       get_prop (value_bean (rf_store (snd (ref_restoreBeanState cfg name r'))) b) j =
         (if b = bs_bean st then deep_copy (JArr vs) else JArr (vs[i := JStr val]))) \<and>
    (\<forall>b j. map_of (rs_beans (rf_store r) b) j \<noteq> Some (Ref q) \<longrightarrow>
       get_prop (value_bean (rf_store r') b) j = get_prop (value_bean (rf_store r) b) j)"
proof -
  let ?a = "bs_bean st" and ?b = "value_bean (rf_store r) (bs_bean st)"
  let ?s = "(rf_store r)\<lparr>rs_arrays := (rs_arrays (rf_store r))(q := vs[i := JStr val])\<rparr>"
  let ?st = "st\<lparr>origin := Some (copy_obj ?b)\<rparr>"
  have r': "r' = r\<lparr>rf_ui := snd (keep_origin name ?b (rf_ui r)), rf_store := ?s\<rparr>"
    using change_entry_run [OF assms(1,3-9), of nt val] assms(10) by (simp add: r'_def)
  have changed: "get_prop (value_bean ?s b) j = (if map_of (rs_beans (rf_store r) b) j = Some (Ref q)
      then JArr (vs[i := JStr val]) else get_prop (value_bean (rf_store r) b) j)" for b j
    by (cases "map_of (rs_beans (rf_store r) b) j")
       (auto simp: get_prop_def map_of_value deref_def split: ref_value.split)
  have kept: "map_of (beanStates (rf_ui r')) name = Some ?st"
    using assms(1,2) by (simp add: r' keep_origin_def set_state_def update_def value_form_def map_of_obj_upd)
  let ?t = "replace_bean ?a (copy_obj (copy_obj ?b)) ?s"
  have made: "refs_made ?s" using assms(11) by (simp add: refs_made_def)
  have wf: "obj_wf ?b" using assms(12) by (simp add: value_bean_def obj_wf_def obj_keys_def case_prod_beta o_def)
  let ?c = "copy_obj (copy_obj ?b)"
  have copies: "obj_wf ?c" "get_prop ?c j = deep_copy (get_prop ?b j)" for j
    using wf by (simp_all add: obj_wf_copy get_prop_copy deep_copy_twice)
  let ?t = "r'\<lparr>rf_store := replace_bean ?a ?c ?s\<rparr>"
  have "ref_restoreBeanState cfg name r' = ref_render cfg ?t"
    using kept by (simp add: ref_restoreBeanState_def seq_def on_ui_def get_state_def andthen_def in_store_def update_def value_form_def r')
  moreover have "holds b j (get_prop (value_bean (rf_store ?t) b) j) ?t" for b j
    using replace_values(1) [OF made copies(1)] by (simp add: holds_def)
  ultimately have restored: "get_prop (value_bean (rf_store (snd (ref_restoreBeanState cfg name r'))) b) j = w"
    if "\<not> nullish w" "get_prop (value_bean (rf_store ?t) b) j = w" for b j w
    using keepsD [OF keeps_render [OF that(1)], of b j ?t cfg] that(2) by (simp add: holds_def)
  have old: "get_prop (value_bean (rf_store r) b) j = JArr vs" if "map_of (rs_beans (rf_store r) b) j = Some (Ref q)" for b j
    using that assms(8) by (simp add: get_prop_def map_of_value deref_def)
  have "get_prop (value_bean (rf_store (snd (ref_restoreBeanState cfg name r'))) b) j =
      (if b = ?a then deep_copy (JArr vs) else JArr (vs[i := JStr val]))"
    if "map_of (rs_beans (rf_store r) b) j = Some (Ref q)" for b j
    using that by (intro restored) (auto simp: replace_values(2) [OF made copies(1)] copies(2) changed old)
  with changed show ?thesis by (simp add: r')
qed

text \<open>
  C17: Sharing. A text typed into an entry of a repeated field shows in every field of every bean that
  refers to the same array, and in no other. When the block had no copy to restore, restoring it gives
  its bean an array with the old entries, while all other fields that share the array keep the text.\<close>
theorem shared_arrays_change_together:
  assumes "map_of (beanStates (rf_ui r)) name = Some st" "origin st = None" "getBeanConfig cfg name = Some fs"
    and "split_input_name inp = (k, Some (int i))" "getBeanFieldConfig fs k = Some f" "fc_multiple f = Some True"
    and "map_of (rs_beans (rf_store r) (bs_bean st)) k = Some (Ref q)" "rs_arrays (rf_store r) q = vs" "i < length vs"
    and "\<not> equals_string nt (vs ! i) val" "refs_made (rf_store r)" "\<And>a. obj_wf (rs_beans (rf_store r) a)"
  shows "let r' = snd (ref_onChangeInput nt cfg name inp val r) in
    (\<forall>b j. map_of (rs_beans (rf_store r) b) j = Some (Ref q) \<longrightarrow>
       get_prop (value_bean (rf_store r') b) j = JArr (vs[i := JStr val]) \<and>
       get_prop (value_bean (rf_store (snd (ref_restoreBeanState cfg name r'))) b) j =
         (if b = bs_bean st then deep_copy (JArr vs) else JArr (vs[i := JStr val]))) \<and>
    (\<forall>b j. map_of (rs_beans (rf_store r) b) j \<noteq> Some (Ref q) \<longrightarrow>
       get_prop (value_bean (rf_store r') b) j = get_prop (value_bean (rf_store r) b) j)"
  unfolding Let_def by (rule shared_change [OF assms])

section \<open>The configurations of the forms\<close>

text \<open>The actions of the page, each with its label and the line it prints.\<close>

definition MyUICollabsible :: "(string \<times> string \<times> string) list" where
  "MyUICollabsible = [(''back'', ''Back'', ''on click back''), (''save'', ''Save'', ''on click save'')]"

definition validated :: "string \<Rightarrow> string option \<Rightarrow> int option \<Rightarrow> int option \<Rightarrow> form_field \<Rightarrow> form_field" where
  "validated name msg lo hi f =
     f\<lparr>fc_validator := Some \<lparr>v_name = name, v_errorMsg = msg, v_from = lo, v_to = hi\<rparr>\<rparr>"

definition demo_options :: "obj option \<Rightarrow> option_item list option" where
  "demo_options b = Some [\<lparr>opt_label = ''Option 1'', opt_value = JStr ''opt1''\<rparr>, \<lparr>opt_label = ''Option 2'', opt_value = JStr ''opt2''\<rparr>]"

definition autocomplete_custom :: custom_config where
  "autocomplete_custom =
     \<lparr>cu_field = ''autocomplete'',
      cu_search = (\<lambda>term b. Inr [(JStr ''value 1'', ''Value(1)''), (JStr ''value 2'', ''Value(2)'')]),
      cu_set = obj_put ''autocomplete'',
      cu_display = (\<lambda>b. if nullish (get_prop b ''autocomplete'') then JNull else get_prop b ''autocomplete'')\<rparr>"

text \<open>The search prints a property of the bean, which it does not get when an input is left.\<close>

definition nested_custom :: custom_config where
  "nested_custom =
     \<lparr>cu_field = ''customField'',
      cu_search = (\<lambda>term b. case b of None \<Rightarrow> Inl (TypeError ''input'')
        | Some _ \<Rightarrow> Inr [(JObj [(''field'', JStr ''custom 1'')], ''Custom(1)''), (JObj [(''field'', JStr ''custom 2'')], ''Custom(2)'')]),
      cu_set = obj_put ''nestedObject'',
      cu_display = (\<lambda>b. case prop_of ''field'' (get_prop b ''nestedObject'') of Inl _ \<Rightarrow> JNull | Inr v \<Rightarrow> v)\<rparr>"

definition SingleUIBean_fields :: "form_field list" where
  "SingleUIBean_fields =
    [(text_field ''selectOption'' ''Select Option'')\<lparr>fc_options := Some demo_options\<rparr>,
     validated ''empty'' (Some ''custom error message'') None None ((text_field ''input'' ''Input'')\<lparr>fc_required := True\<rparr>),
     validated ''integer'' (Some ''Expect an integer from 0 to 100'') (Some 0) (Some 100)
       ((text_field ''intInput'' ''Integer Input'')\<lparr>fc_default := JNum (Fin 0)\<rparr>),
     validated ''integer'' None None (Some 100)
       ((text_field ''multipleIntInput'' ''Multiple Int Input'')\<lparr>fc_multiple := Some True, fc_default := JArr [JNum (Fin 10), JNum (Fin 15)]\<rparr>),
     validated ''number'' (Some ''Expect a number from 0 to 100'') (Some 0) (Some 100)
       ((text_field ''numberInput'' ''Number Input'')\<lparr>fc_default := JNum (Fin 0)\<rparr>),
     validated ''email'' None None None ((text_field ''email'' ''Email'')\<lparr>fc_required := True\<rparr>),
     validated ''empty'' None None None ((text_field ''multipleInput'' ''Multiple Input'')\<lparr>fc_multiple := Some True\<rparr>),
     (text_field ''autocomplete'' ''Autocomplete'')\<lparr>ff_custom := Some autocomplete_custom\<rparr>,
     (text_field ''customField'' ''Custom Field'')\<lparr>ff_custom := Some nested_custom\<rparr>,
     (text_field ''textarea'' ''Text Area'')\<lparr>ff_textarea := True\<rparr>]"

definition SingleUIBean :: form_config where
  "SingleUIBean = \<lparr>cf_type = None, cf_beans = [(''singleBean'', map field_config.truncate SingleUIBean_fields)]\<rparr>"

definition SingleUIBean_edit :: "(string \<times> string \<times> string) list" where
  "SingleUIBean_edit = [(''save'', ''Save'', ''on save..............''), (''cancel'', ''Cancel'', ''on cancel..............'')]"

definition SingleUIBean_view :: "(string \<times> string \<times> string) list" where
  "SingleUIBean_view = [(''more'', ''More'', ''on more....'')]"

text \<open>The key \<open>option\<close> of the first field is not one the form reads, so the field is a plain input.\<close>

definition MultipleUIBean_fields :: "string \<Rightarrow> form_field list" where
  "MultipleUIBean_fields label =
    [text_field ''option'' (label @ '' Option''),
     text_field ''input'' (label @ '' Input''),
     (text_field ''multipleInput'' (label @ '' Multiple Input''))\<lparr>fc_multiple := Some True\<rparr>,
     (text_field ''textarea'' (label @ '' Text Area''))\<lparr>ff_textarea := True\<rparr>]"

definition MultipleUIBean :: form_config where
  "MultipleUIBean = \<lparr>cf_type = Some ''multiple'',
     cf_beans = [(''bean1'', map field_config.truncate (MultipleUIBean_fields ''Bean 1'')),
       (''bean2'', map field_config.truncate (MultipleUIBean_fields ''Bean 2''))]\<rparr>"

text \<open>Nor does the form read the key \<open>type\<close> of a field.\<close>

definition ArrayUIBean_fields :: "form_field list" where
  "ArrayUIBean_fields =
    [text_field ''option'' ''Option'', text_field ''input'' ''Input'',
     (text_field ''multipleInput'' ''Multiple Input'')\<lparr>fc_multiple := Some True\<rparr>,
     text_field ''textarea'' ''Text Area'']"

definition ArrayUIBean :: form_config where
  "ArrayUIBean = \<lparr>cf_type = Some ''array'', cf_beans = [(''bean'', map field_config.truncate ArrayUIBean_fields)]\<rparr>"

section \<open>The page of the forms\<close>

datatype demo_form = SingleForm | MultipleForm | ArrayForm

fun demo_config :: "demo_form \<Rightarrow> form_config" where
  "demo_config SingleForm = SingleUIBean"
| "demo_config MultipleForm = MultipleUIBean"
| "demo_config ArrayForm = ArrayUIBean"

text \<open>The forms of the page and the store their beans live in.\<close>

record demo_page =
  dp_forms :: "demo_form \<Rightarrow> ui_bean"
  dp_store :: ref_store
  dp_blocks :: container

definition in_form :: "demo_form \<Rightarrow> (ref_form, 'a) prog \<Rightarrow> (demo_page, 'a) prog" where
  "in_form k m p =
     (case m \<lparr>rf_ui = dp_forms p k, rf_store = dp_store p\<rparr> of
        (x, r) \<Rightarrow> (x, p\<lparr>dp_forms := (dp_forms p)(k := rf_ui r), dp_store := rf_store r\<rparr>))"

definition demo_bean :: "(string \<times> ref_value) list" where
  "demo_bean =
    [(''option'', Prim (JStr ''opt2'')), (''input'', Prim (JStr ''Input Field'')), (''multipleInput'', Ref 0),
     (''textarea'', Prim (JStr ''Text areaaaaaaaa aaaaaaaaa aaa aaaaaaaaaa aa aaa'')),
     (''nestedObject'', Prim (JObj [(''field'', JStr ''nested object field'')]))]"

text \<open>The bean of the page has the address 0; its copies will have the addresses 1 to 4.\<close>

definition demo_start :: demo_page where
  "demo_start =
     \<lparr>dp_forms = (\<lambda>_. empty_form (\<lambda>_. []) 5),
      dp_store = \<lparr>rs_beans = (\<lambda>_. [])(0 := demo_bean), rs_arrays = (\<lambda>_. [])(0 := [JStr ''input 1'', JStr ''input 2'']), rs_next = 1\<rparr>,
      dp_blocks = \<lparr>components = [], actions_hidden = [], hideHeader = False, hideFooter = False\<rparr>\<rparr>"

text \<open>\<open>jQuery.extend({}, bean)\<close>: the copy gets the values, and so the same arrays.\<close>

definition copy_refs :: "nat \<Rightarrow> nat \<Rightarrow> (demo_page, unit) prog" where
  "copy_refs a b = update (\<lambda>p. p\<lparr>dp_store := (dp_store p)\<lparr>rs_beans :=
     (rs_beans (dp_store p))(b := filter (\<lambda>(k, v). v \<noteq> Prim JUndef) (rs_beans (dp_store p) a))\<rparr>\<rparr>)"

definition add_form :: "nat \<Rightarrow> string \<Rightarrow> (demo_page, unit) prog" where
  "add_form i label = update (\<lambda>p. p\<lparr>dp_blocks := addBlock i label False (dp_blocks p)\<rparr>)"

definition UIBeanDemo :: "(demo_page, unit) prog" where
  "UIBeanDemo =
     andthen (in_form SingleForm (ref_bind_bean SingleUIBean ''singleBean'' 0 True))
    (andthen (add_form 0 ''UIBean Single'')
    (andthen (copy_refs 0 1)
    (andthen (in_form MultipleForm (ref_bind_bean MultipleUIBean ''bean1'' 1 False))
    (andthen (copy_refs 0 2)
    (andthen (in_form MultipleForm (ref_bind_bean MultipleUIBean ''bean2'' 2 False))
    (andthen (add_form 1 ''UIBean Multiple'')
    (andthen (copy_refs 0 3)
    (andthen (copy_refs 0 4)
    (andthen (in_form ArrayForm (ref_bind_array ArrayUIBean ''bean'' [3, 4]))
      (add_form 2 ''UIBean Array''))))))))))"

text \<open>Showing the page draws its forms in turn; then the user acts in one form after the other.\<close>

definition show_demo :: "(demo_page, unit) prog" where
  "show_demo = for_each [SingleForm, MultipleForm, ArrayForm] (\<lambda>k. in_form k (ref_render (demo_config k)))"

definition demo_events :: "(jsnum \<Rightarrow> string) \<Rightarrow> (demo_form \<times> form_event) list \<Rightarrow> (demo_page, unit) prog" where
  "demo_events nt es = for_each es (\<lambda>(k, e). in_form k (ref_events nt (demo_config k) [e]))"

section \<open>The forms share their arrays\<close>

text \<open>The bean after it was bound: the defaults are filled in, the default array is a new one.\<close>

definition bound_demo_bean :: "(string \<times> ref_value) list" where
  "bound_demo_bean = demo_bean @ [(''selectOption'', Prim (JStr ''opt1'')), (''intInput'', Prim (JNum (Fin 0))),
     (''multipleIntInput'', Ref 1), (''numberInput'', Prim (JNum (Fin 0)))]"

definition demo_store :: "nat \<Rightarrow> ref_store" where
  "demo_store n = \<lparr>rs_beans = foldl (\<lambda>h a. h(a := bound_demo_bean)) (\<lambda>_. []) [0..<n],
     rs_arrays = (\<lambda>_. [])(0 := [JStr ''input 1'', JStr ''input 2''], 1 := [JNum (Fin 10), JNum (Fin 15)]), rs_next = 2\<rparr>"

definition demo_states :: "demo_form \<Rightarrow> (string \<times> bean_state) list" where
  "demo_states k = (case k of
       SingleForm \<Rightarrow> [(''singleBean'', new_state 0 False True)]
     | MultipleForm \<Rightarrow> [(''bean1'', new_state 1 False True), (''bean2'', new_state 2 False False)]
     | ArrayForm \<Rightarrow> [(''bean_0'', new_state 3 False True), (''bean_1'', new_state 4 False False)])"

lemma bind_demo_bean:
  "ref_bind_bean SingleUIBean ''singleBean'' 0 True \<lparr>rf_ui = empty_form (\<lambda>_. []) 5, rf_store = dp_store demo_start\<rparr> =
     (Inr (), \<lparr>rf_ui = (empty_form (\<lambda>_. []) 5)\<lparr>beanStates := demo_states SingleForm\<rparr>, rf_store = demo_store 1\<rparr>)"
  by (simp add: ref_bind_bean_def demo_start_def andthen_def whenever_def seq_def on_ui_def get_config_def
      getBeanConfig_def SingleUIBean_def SingleUIBean_fields_def text_field_def validated_def field_config.truncate_def
      read_bean_run value_form_def empty_form_def value_bean_def demo_bean_def deref_def get_prop_def
      in_store_def update_def ret_def assign_value_def put_ref_def demo_options_def bound_demo_bean_def demo_store_def demo_states_def)

lemma copy_demo_bean [simp]: "filter (\<lambda>(k, v). v \<noteq> Prim JUndef) bound_demo_bean = bound_demo_bean"
  by (simp add: bound_demo_bean_def demo_bean_def)

lemma bind_demo_copies:
  "ref_bind_bean MultipleUIBean name a False r =
     (Inr (), r\<lparr>rf_ui := (rf_ui r)\<lparr>beanStates := obj_put name (new_state a False (beanStates (rf_ui r) = [])) (beanStates (rf_ui r))\<rparr>\<rparr>)"
  by (simp add: ref_bind_bean_def andthen_def whenever_def seq_def on_ui_def update_def ret_def value_form_def)

lemma bind_demo_array:
  "ref_bind_array ArrayUIBean ''bean'' [3, 4] \<lparr>rf_ui = empty_form (\<lambda>_. []) 5, rf_store = t\<rparr> =
     (Inr (), \<lparr>rf_ui = (empty_form (\<lambda>_. []) 5)\<lparr>beanStates := demo_states ArrayForm, beanArray := Some [3, 4], beanName := ''bean''\<rparr>,
        rf_store = t\<rparr>)"
proof -
  have names: "indexed_name ''bean'' 0 = ''bean_0''" "indexed_name ''bean'' (Suc 0) = ''bean_1''" "indexed_name ''bean'' (Suc (Suc 0)) = ''bean_2''"
    by code_simp+
  show ?thesis
    by (simp add: ref_bind_array_def ArrayUIBean_def andthen_def seq_def on_ui_def update_def ret_def value_form_def upt_rec
        names toggleBean_def reads_def set_state_def obj_upd_def demo_states_def new_state_def empty_form_def)
qed

definition demo_made :: demo_page where
  "demo_made =
     \<lparr>dp_forms = (\<lambda>_. empty_form (\<lambda>_. []) 5)
        (SingleForm := (empty_form (\<lambda>_. []) 5)\<lparr>beanStates := demo_states SingleForm\<rparr>,
         MultipleForm := (empty_form (\<lambda>_. []) 5)\<lparr>beanStates := demo_states MultipleForm\<rparr>,
         ArrayForm := (empty_form (\<lambda>_. []) 5)\<lparr>beanStates := demo_states ArrayForm, beanArray := Some [3, 4], beanName := ''bean''\<rparr>),
      dp_store = demo_store 5,
      dp_blocks = \<lparr>components = [\<lparr>bl_id = 0, bl_label = ''UIBean Single'', bl_collapsed = False\<rparr>,
          \<lparr>bl_id = 1, bl_label = ''UIBean Multiple'', bl_collapsed = False\<rparr>, \<lparr>bl_id = 2, bl_label = ''UIBean Array'', bl_collapsed = False\<rparr>],
        actions_hidden = [], hideHeader = False, hideFooter = False\<rparr>\<rparr>"

lemma demo_store_bean: "a < n \<Longrightarrow> rs_beans (demo_store n) a = bound_demo_bean"
proof -
  have "foldl (\<lambda>h a. h(a := bound_demo_bean)) h xs a = (if a \<in> set xs then bound_demo_bean else h a)" for h :: "nat \<Rightarrow> _" and xs
    by (induction xs arbitrary: h) auto
  then show "a < n \<Longrightarrow> ?thesis" by (simp add: demo_store_def)
qed

lemma UIBeanDemo_run: "UIBeanDemo demo_start = (Inr (), demo_made)"
proof -
  have start: "demo_start = \<lparr>dp_forms = \<lambda>_. empty_form (\<lambda>_. []) 5, dp_store = dp_store demo_start,
      dp_blocks = \<lparr>components = [], actions_hidden = [], hideHeader = False, hideFooter = False\<rparr>\<rparr>"
    by (simp add: demo_start_def)
  have store: "(demo_store (Suc 0))\<lparr>rs_beans := (rs_beans (demo_store (Suc 0)))
      (Suc 0 := bound_demo_bean, 2 := bound_demo_bean, 3 := bound_demo_bean, 4 := bound_demo_bean)\<rparr> = demo_store 5"
    by (simp add: demo_store_def eval_nat_numeral upt_rec)
  have empty: "beanStates (empty_form h n) = []" for h n by (simp add: empty_form_def)
  show ?thesis
    unfolding UIBeanDemo_def
    by (subst start)
       (simp add: andthen_def seq_def in_form_def bind_demo_bean bind_demo_copies bind_demo_array copy_refs_def add_form_def update_def
         demo_store_bean store
         demo_made_def addBlock_def fun_upd_twist demo_states_def empty)
qed

lemma demo_store_ok: "refs_made (demo_store 5)" "obj_wf (rs_beans (demo_store 5) a)"
proof -
  have beans: "rs_beans (demo_store 5) b = (if b < 5 then bound_demo_bean else [])" for b
    by (simp add: demo_store_def eval_nat_numeral upt_rec)
  have "map_of bound_demo_bean k = Some (Ref q) \<Longrightarrow> q < 2" for k q
    by (auto simp: bound_demo_bean_def demo_bean_def split: if_splits)
  then show "refs_made (demo_store 5)"
    by (auto simp: refs_made_def beans) (simp add: demo_store_def)
  show "obj_wf (rs_beans (demo_store 5) a)"
    by (simp add: beans bound_demo_bean_def demo_bean_def obj_wf_def obj_keys_def)
qed

section \<open>Events in the demo\<close>

text \<open>A form that is drawn again without a change.\<close>

definition still :: "form_config \<Rightarrow> ref_form \<Rightarrow> bool" where
  "still cfg r \<longleftrightarrow> distinct (obj_keys (beanStates (rf_ui r))) \<and>
     list_all (\<lambda>(n, st). case getBeanConfig cfg n of None \<Rightarrow> False
       | Some fs \<Rightarrow> editMode st \<longrightarrow> (let b = value_bean (rf_store r) (bs_bean st) in
           list_all (\<lambda>f. drawable b f \<and> fill_repeated b f = b) fs)) (beanStates (rf_ui r))"

lemma on_ui_simps:
  "on_ui (reads g) r = (Inr (g (value_form r)), r)"
  "map_of (beanStates (rf_ui r)) n = Some st \<Longrightarrow> on_ui (get_state n) r = (Inr st, r)"
  "getBeanConfig cfg n = Some fs \<Longrightarrow> on_ui (get_config cfg n) r = (Inr fs, r)"
  "on_ui (set_state n f) r = (Inr (), r\<lparr>rf_ui := (rf_ui r)\<lparr>beanStates := obj_upd n f (beanStates (rf_ui r))\<rparr>\<rparr>)"
  by (simp_all add: on_ui_def reads_def get_state_def get_config_def ret_def set_state_def update_def value_form_def)

lemma for_each_still: "(\<And>x. x \<in> set xs \<Longrightarrow> m x r = (Inr (), r)) \<Longrightarrow> for_each xs m r = (Inr (), r)"
  by (induction xs) (simp_all add: ret_def andthen_def seq_def)

lemma still_render:
  assumes "still cfg r"
  shows "ref_render cfg r = (Inr (), r)"
proof -
  have block: "\<exists>st fs. map_of (beanStates (rf_ui r)) n = Some st \<and> getBeanConfig cfg n = Some fs \<and>
      (editMode st \<longrightarrow> (let b = value_bean (rf_store r) (bs_bean st) in list_all (\<lambda>f. drawable b f \<and> fill_repeated b f = b) fs))"
    if "n \<in> set (obj_keys (beanStates (rf_ui r)))" for n
  proof -
    from that obtain st where st: "(n, st) \<in> set (beanStates (rf_ui r))" by (auto simp: obj_keys_def)
    then have "map_of (beanStates (rf_ui r)) n = Some st" using assms by (simp add: still_def obj_keys_def)
    with st assms show ?thesis by (fastforce simp: still_def list_all_iff split: option.splits)
  qed
  have draw: "ref_draw a fs r = (Inr (), r)"
    if "list_all (\<lambda>f. drawable (value_bean (rf_store r) a) f \<and> fill_repeated (value_bean (rf_store r) a) f = value_bean (rf_store r) a) fs" for a fs
    using that
  proof (induction fs)
    case (Cons f fs)
    have "\<not> (fc_options f = None \<and> fc_multiple f \<noteq> None \<and> nullish (get_prop (value_bean (rf_store r) a) (fc_field f)))"
    proof
      assume none: "fc_options f = None \<and> fc_multiple f \<noteq> None \<and> nullish (get_prop (value_bean (rf_store r) a) (fc_field f))"
      then have "get_prop (fill_repeated (value_bean (rf_store r) a) f) (fc_field f) = JArr [JStr []]"
        by (simp add: fill_repeated_def)
      moreover from Cons.prems have "fill_repeated (value_bean (rf_store r) a) f = value_bean (rf_store r) a" by simp
      ultimately show False using none by simp
    qed
    with Cons show ?case by (auto simp: seq_def read_bean_run andthen_def whenever_def ret_def)
  qed (simp add: ret_def)
  have "on_ui (render_tabs cfg) r = (Inr (), r)"
  proof -
    have "for_each xs (\<lambda>name. seq (get_config cfg name) (\<lambda>_. ret ())) s = (Inr (), s)"
      if "set xs \<subseteq> set (obj_keys (beanStates (rf_ui r)))" for xs s
    proof (rule for_each_still)
      show "seq (get_config cfg x) (\<lambda>_. ret ()) s = (Inr (), s)" if "x \<in> set xs" for x
      proof -
        have "x \<in> set (obj_keys (beanStates (rf_ui r)))" using that \<open>set xs \<subseteq> _\<close> by blast
        from block [OF this] show ?thesis by (auto simp: seq_def get_config_def ret_def)
      qed
    qed
    then show ?thesis
      by (auto simp: on_ui_def render_tabs_def ret_def seq_def reads_def value_form_def)
  qed
  moreover have "ref_render_block cfg n r = (Inr (), r)" if "n \<in> set (obj_keys (beanStates (rf_ui r)))" for n
    using block [OF that] draw
    by (auto simp: ref_render_block_def seq_def on_ui_simps whenever_def ret_def Let_def)
  ultimately show ?thesis
    by (simp add: ref_render_def andthen_def seq_def on_ui_simps for_each_still value_form_def)
qed

lemma edit_click:
  assumes "map_of (beanStates (rf_ui r)) name = Some st" "\<not> editMode st" "\<not> readOnly st"
  defines "r' \<equiv> r\<lparr>rf_ui := (rf_ui r)\<lparr>beanStates := obj_upd name (\<lambda>b. b\<lparr>editMode := True\<rparr>) (beanStates (rf_ui r))\<rparr>\<rparr>"
  assumes "still cfg r'"
  shows "ref_events nt cfg [EditClick name] r = (Inr (), r')"
  using assms(1-3) still_render [OF assms(5)]
  by (simp add: seq_def on_ui_simps andthen_def whenever_def ref_onEditMode_def r'_def [symmetric] ret_def value_form_def)

text \<open>The five blocks of the page, with the addresses of their beans.\<close>

definition demo_blocks :: "(demo_form \<times> string \<times> nat) list" where
  "demo_blocks =
    [(SingleForm, ''singleBean'', 0), (MultipleForm, ''bean1'', 1), (MultipleForm, ''bean2'', 2),
     (ArrayForm, ''bean_0'', 3), (ArrayForm, ''bean_1'', 4)]"

definition form_at :: "demo_form \<Rightarrow> ref_form" where
  "form_at k = \<lparr>rf_ui = dp_forms demo_made k, rf_store = demo_store 5\<rparr>"

definition value_demo :: obj where
  "value_demo =
    [(''option'', JStr ''opt2''), (''input'', JStr ''Input Field''), (''multipleInput'', JArr [JStr ''input 1'', JStr ''input 2'']),
     (''textarea'', JStr ''Text areaaaaaaaa aaaaaaaaa aaa aaaaaaaaaa aa aaa''),
     (''nestedObject'', JObj [(''field'', JStr ''nested object field'')]), (''selectOption'', JStr ''opt1''),
     (''intInput'', JNum (Fin 0)), (''multipleIntInput'', JArr [JNum (Fin 10), JNum (Fin 15)]), (''numberInput'', JNum (Fin 0))]"

lemma value_demo_store: "a < 5 \<Longrightarrow> value_bean (demo_store 5) a = value_demo"
  by (simp add: value_bean_def demo_store_bean)
     (simp add: bound_demo_bean_def demo_bean_def value_demo_def deref_def demo_store_def)

lemma demo_configs:
  "getBeanConfig SingleUIBean ''singleBean'' = Some (map field_config.truncate SingleUIBean_fields)"
  "getBeanConfig MultipleUIBean ''bean1'' = Some (map field_config.truncate (MultipleUIBean_fields ''Bean 1''))"
  "getBeanConfig MultipleUIBean ''bean2'' = Some (map field_config.truncate (MultipleUIBean_fields ''Bean 2''))"
  "getBeanConfig ArrayUIBean ''bean_0'' = Some (map field_config.truncate ArrayUIBean_fields)"
  "getBeanConfig ArrayUIBean ''bean_1'' = Some (map field_config.truncate ArrayUIBean_fields)"
proof -
  have "before_last CHR ''_'' ''bean_0'' = ''bean''" "before_last CHR ''_'' ''bean_1'' = ''bean''" by code_simp+
  then show "getBeanConfig SingleUIBean ''singleBean'' = Some (map field_config.truncate SingleUIBean_fields)"
    "getBeanConfig MultipleUIBean ''bean1'' = Some (map field_config.truncate (MultipleUIBean_fields ''Bean 1''))"
    "getBeanConfig MultipleUIBean ''bean2'' = Some (map field_config.truncate (MultipleUIBean_fields ''Bean 2''))"
    "getBeanConfig ArrayUIBean ''bean_0'' = Some (map field_config.truncate ArrayUIBean_fields)"
    "getBeanConfig ArrayUIBean ''bean_1'' = Some (map field_config.truncate ArrayUIBean_fields)"
    by (simp_all add: getBeanConfig_def SingleUIBean_def MultipleUIBean_def ArrayUIBean_def)
qed

lemma demo_fields_still:
  assumes "fs \<in> {SingleUIBean_fields, MultipleUIBean_fields l, ArrayUIBean_fields}"
  shows "list_all (\<lambda>f. drawable value_demo f \<and> fill_repeated value_demo f = value_demo) (map field_config.truncate fs)"
  using assms
  by (auto simp: SingleUIBean_fields_def MultipleUIBean_fields_def ArrayUIBean_fields_def text_field_def validated_def
      field_config.truncate_def drawable_def demo_options_def fill_repeated_def value_demo_def get_prop_def)

text \<open>What a block of the page is made of.\<close>

lemma repeated_field:
  assumes "fs \<in> {SingleUIBean_fields, MultipleUIBean_fields l, ArrayUIBean_fields}"
  shows "\<exists>f. getBeanFieldConfig (map field_config.truncate fs) ''multipleInput'' = Some f \<and> fc_multiple f = Some True \<and>
    fc_options f = None \<and> fc_field f = ''multipleInput'' \<and> f \<in> set (map field_config.truncate fs)"
proof -
  let ?gs = "map field_config.truncate fs"
  have all: "\<forall>f \<in> set ?gs. fc_field f = ''multipleInput'' \<longrightarrow> fc_multiple f = Some True \<and> fc_options f = None"
    and ex: "\<exists>f \<in> set ?gs. fc_field f = ''multipleInput''"
    using assms
    by (auto simp: SingleUIBean_fields_def MultipleUIBean_fields_def ArrayUIBean_fields_def text_field_def validated_def field_config.truncate_def)
  from ex obtain f where f: "find (\<lambda>f. fc_field f = ''multipleInput'') ?gs = Some f"
    by (cases "find (\<lambda>f. fc_field f = ''multipleInput'') ?gs") (auto simp: find_None_iff)
  then have "f \<in> set ?gs" "fc_field f = ''multipleInput''" by (auto simp: find_Some_iff)
  with f all show ?thesis unfolding getBeanFieldConfig_def by blast
qed

lemma demo_states_still:
  "still (demo_config k) ((form_at k)\<lparr>rf_ui := (rf_ui (form_at k))\<lparr>beanStates := map (\<lambda>(n, st). (n, st\<lparr>editMode := d n\<rparr>)) (demo_states k)\<rparr>\<rparr>)"
proof -
  have drawn: "list_all (\<lambda>f. drawable value_demo f \<and> fill_repeated value_demo f = value_demo) (map field_config.truncate fs)"
    if "fs \<in> {SingleUIBean_fields, MultipleUIBean_fields ''Bean 1'', MultipleUIBean_fields ''Bean 2'', ArrayUIBean_fields}" for fs
    using that demo_fields_still [of fs "''Bean 1''"] demo_fields_still [of fs "''Bean 2''"] by blast
  show ?thesis
    by (cases k) (simp_all add: still_def demo_states_def demo_configs drawn value_demo_store form_at_def new_state_def obj_keys_def Let_def)
qed

lemma demo_block:
  assumes "(k, name, a) \<in> set demo_blocks"
  shows "a < 5 \<and> (\<exists>sel. map_of (demo_states k) name = Some (new_state a False sel)) \<and>
    (\<exists>fs l. getBeanConfig (demo_config k) name = Some (map field_config.truncate fs) \<and>
       fs \<in> {SingleUIBean_fields, MultipleUIBean_fields l, ArrayUIBean_fields})"
  using assms by (auto simp: demo_blocks_def demo_states_def demo_configs)

lemma multiple_name: "split_input_name ''multipleInput@0'' = (''multipleInput'', Some (int 0))"
  by code_simp

text \<open>The block in edit mode, and the change of the first entry.\<close>

definition editing :: "demo_form \<Rightarrow> string \<Rightarrow> ref_form" where
  "editing k name =
     (form_at k)\<lparr>rf_ui := (rf_ui (form_at k))\<lparr>beanStates := obj_upd name (\<lambda>b. b\<lparr>editMode := True\<rparr>) (demo_states k)\<rparr>\<rparr>"

lemma demo_states_eq: "beanStates (rf_ui (form_at k)) = demo_states k" "rf_store (form_at k) = demo_store 5"
  by (cases k; simp add: form_at_def demo_made_def)+

lemma editing_still: "still (demo_config k) (editing k name)"
proof -
  have off: "(n, st) \<in> set (demo_states k) \<Longrightarrow> \<not> editMode st" for n st
    by (cases k) (auto simp: demo_states_def new_state_def)
  have "obj_upd name (\<lambda>b. b\<lparr>editMode := True\<rparr>) (demo_states k) = map (\<lambda>(n, st). (n, st\<lparr>editMode := n = name\<rparr>)) (demo_states k)"
    using off by (auto simp: obj_upd_def)
  with demo_states_still [of k "\<lambda>n. n = name"] show ?thesis by (simp add: editing_def)
qed

lemma demo_edit:
  fixes nt :: "jsnum \<Rightarrow> string"
  assumes "(k, name, a) \<in> set demo_blocks" "val \<noteq> ''input 1''"
  defines "r \<equiv> snd (ref_onChangeInput nt (demo_config k) name ''multipleInput@0'' val (editing k name))"
  shows "andthen (ref_events nt (demo_config k) [EditClick name]) (ref_events nt (demo_config k) [ChangeText name ''multipleInput@0'' val]) (form_at k)
      = (Inr (), r)"
    and "\<And>b. b < 5 \<Longrightarrow> get_prop (value_bean (rf_store r) b) ''multipleInput'' = JArr [JStr val, JStr ''input 2'']"
    and "\<And>b. b < 5 \<Longrightarrow> get_prop (value_bean (rf_store (snd (ref_events nt (demo_config k) [RestoreClick name] r))) b) ''multipleInput''
      = (if b = a then JArr [JStr ''input 1'', JStr ''input 2''] else JArr [JStr val, JStr ''input 2''])"
proof -
  from demo_block [OF assms(1)] obtain sel fs l where a: "a < 5" and st: "map_of (demo_states k) name = Some (new_state a False sel)"
    and fs: "getBeanConfig (demo_config k) name = Some (map field_config.truncate fs)"
    and mem: "fs \<in> {SingleUIBean_fields, MultipleUIBean_fields l, ArrayUIBean_fields}"
    by blast
  from repeated_field [OF mem] obtain f where f: "getBeanFieldConfig (map field_config.truncate fs) ''multipleInput'' = Some f"
    "fc_multiple f = Some True" "fc_options f = None" "fc_field f = ''multipleInput''" "f \<in> set (map field_config.truncate fs)"
    by blast
  let ?e = "editing k name" and ?st = "(new_state a False sel)\<lparr>editMode := True\<rparr>"
  have store: "rf_store ?e = demo_store 5" by (simp add: editing_def demo_states_eq)
  have est: "map_of (beanStates (rf_ui ?e)) name = Some ?st" using st by (simp add: editing_def map_of_obj_upd)
  have ref: "map_of (rs_beans (demo_store 5) b) ''multipleInput'' = Some (Ref 0)" if "b < 5" for b
    using that by (simp add: demo_store_bean bound_demo_bean_def demo_bean_def)
  have array: "rs_arrays (demo_store 5) 0 = [JStr ''input 1'', JStr ''input 2'']" by (simp add: demo_store_def)
  have "ref_events nt (demo_config k) [EditClick name] (form_at k) = (Inr (), ?e)"
    using edit_click [of "form_at k" name "new_state a False sel" "demo_config k" nt] st editing_still [of k name]
    by (simp add: demo_states_eq editing_def new_state_def)
  moreover have "possible (demo_config k) (value_form ?e) (ChangeText name ''multipleInput@0'' val)"
  proof -
    have "''multipleInput@0'' = item_name ''multipleInput'' 0" by code_simp
    then have "''multipleInput@0'' \<in> set (if fc_options f = None \<and> fc_multiple f \<noteq> None
       then map (item_name (fc_field f)) [0..<(case get_prop value_demo (fc_field f) of JArr vs \<Rightarrow> length vs | _ \<Rightarrow> 0)] else [fc_field f])"
      using f(2-4) by (simp add: value_demo_def get_prop_def)
    then have "''multipleInput@0'' \<in> set (input_names (map field_config.truncate fs) value_demo)"
      using f(5) unfolding input_names_def set_concat set_map by blast
    with est fs a show ?thesis by (simp add: in_edit_mode_def value_form_def store value_demo_store new_state_def)
  qed
  moreover have run: "ref_onChangeInput nt (demo_config k) name ''multipleInput@0'' val ?e = (Inr (), r)"
    using change_entry_run [OF est fs multiple_name f(1,2), where q = 0 and vs = "[JStr ''input 1'', JStr ''input 2'']" and nt = nt and val = val]
      ref [OF a] array by (simp add: r_def store new_state_def)
  ultimately show "andthen (ref_events nt (demo_config k) [EditClick name]) (ref_events nt (demo_config k) [ChangeText name ''multipleInput@0'' val]) (form_at k)
      = (Inr (), r)"
    by (simp add: andthen_def seq_def on_ui_simps whenever_def ret_def del: ref_events.simps(2)) (simp add: andthen_def seq_def on_ui_simps whenever_def ret_def)
  have diff: "\<not> equals_string nt ([JStr ''input 1'', JStr ''input 2''] ! 0) val" using assms(2) by (auto simp: equals_string_def)
  have change: "get_prop (value_bean (rf_store r) b) ''multipleInput'' = JArr [JStr val, JStr ''input 2''] \<and>
      get_prop (value_bean (rf_store (snd (ref_restoreBeanState (demo_config k) name r))) b) ''multipleInput'' =
        (if b = a then deep_copy (JArr [JStr ''input 1'', JStr ''input 2'']) else JArr [JStr val, JStr ''input 2''])" if "b < 5" for b
    using shared_change [OF est _ fs multiple_name f(1,2), where q = 0 and vs = "[JStr ''input 1'', JStr ''input 2'']" and nt = nt and val = val]
      ref [OF a] ref [OF that] array diff demo_store_ok by (simp add: r_def store new_state_def)
  then show "\<And>b. b < 5 \<Longrightarrow> get_prop (value_bean (rf_store r) b) ''multipleInput'' = JArr [JStr val, JStr ''input 2'']" by blast
  have "in_edit_mode (value_form r) name"
  proof -
    have "r = (if equals_string nt (JStr ''input 1'') val then ?e else ?e\<lparr>rf_ui := snd (keep_origin name (value_bean (rf_store ?e) a) (rf_ui ?e))\<rparr>)
        \<lparr>rf_store := (rf_store ?e)\<lparr>rs_arrays := (rs_arrays (rf_store ?e))(0 := [JStr val, JStr ''input 2''])\<rparr>\<rparr>"
      using change_entry_run [OF est fs multiple_name f(1,2), where q = 0 and vs = "[JStr ''input 1'', JStr ''input 2'']" and nt = nt and val = val]
        ref [OF a] array by (simp add: r_def store new_state_def)
    with est show ?thesis by (auto simp: in_edit_mode_def value_form_def keep_origin_def set_state_def update_def map_of_obj_upd)
  qed
  then have "snd (ref_events nt (demo_config k) [RestoreClick name] r) = snd (ref_restoreBeanState (demo_config k) name r)"
    by (simp add: andthen_def seq_def on_ui_simps whenever_def ret_def split: prod.split sum.split)
  with change show "\<And>b. b < 5 \<Longrightarrow> get_prop (value_bean (rf_store (snd (ref_events nt (demo_config k) [RestoreClick name] r))) b) ''multipleInput''
      = (if b = a then JArr [JStr ''input 1'', JStr ''input 2''] else JArr [JStr val, JStr ''input 2''])"
    by simp
qed

definition demo_shown :: demo_page where
  "demo_shown = snd (andthen UIBeanDemo show_demo demo_start)"

definition five_inputs :: "demo_page \<Rightarrow> jsval list" where
  "five_inputs p = map (\<lambda>a. get_prop (value_bean (dp_store p) a) ''multipleInput'') [0..<5]"

lemma form_at_made:
  "\<lparr>rf_ui = dp_forms demo_made k, rf_store = dp_store demo_made\<rparr> = form_at k"
  "rf_ui (form_at k) = dp_forms demo_made k" "rf_store (form_at k) = dp_store demo_made"
  by (simp_all add: form_at_def demo_made_def)

lemma ref_form_parts [simp]: "\<lparr>rf_ui = rf_ui r, rf_store = rf_store r\<rparr> = (r :: ref_form)"
  by (cases r) simp

lemma demo_shown_run: "andthen UIBeanDemo show_demo demo_start = (Inr (), demo_made)"
proof -
  have "in_form k (ref_render (demo_config k)) demo_made = (Inr (), demo_made)" for k
  proof -
    have "map (\<lambda>(n, st). (n, st\<lparr>editMode := False\<rparr>)) (demo_states k) = demo_states k"
      by (cases k) (simp_all add: demo_states_def new_state_def)
    with demo_states_still [of k "\<lambda>_. False"] have "still (demo_config k) (form_at k)"
      by (simp add: demo_states_eq [symmetric])
    from still_render [OF this] show ?thesis by (simp add: in_form_def form_at_made)
  qed
  then have "show_demo demo_made = (Inr (), demo_made)" unfolding show_demo_def by (intro for_each_still) simp
  then show ?thesis by (simp add: andthen_def seq_def UIBeanDemo_run)
qed

lemma demo_events_two:
  assumes "andthen (ref_events nt (demo_config k) [e1]) (ref_events nt (demo_config k) [e2]) (form_at k) = (Inr (), r)"
  shows "demo_events nt [(k, e1), (k, e2)] demo_made = (Inr (), demo_made\<lparr>dp_forms := (dp_forms demo_made)(k := rf_ui r), dp_store := rf_store r\<rparr>)"
proof -
  obtain r1 where r1: "ref_events nt (demo_config k) [e1] (form_at k) = (Inr (), r1)" "ref_events nt (demo_config k) [e2] r1 = (Inr (), r)"
    using assms by (auto simp: andthen_def seq_def split: prod.splits sum.splits)
  then show ?thesis
    by (simp add: demo_events_def andthen_def seq_def in_form_def form_at_made ret_def del: ref_events.simps(2))
qed

text \<open>
  The demo of the forms. The page is made and shown without an error. A text typed into the first
  entry of the repeated input of any of its five blocks appears in all five, since their beans share
  the array; restoring the block gives only its own bean the old entries back.\<close>
lemma demo_forms_share_array:
  assumes "(k, name, a) \<in> set demo_blocks" "val \<noteq> ''input 1''"
  shows "let edit = demo_events nt [(k, EditClick name), (k, ChangeText name ''multipleInput@0'' val)];
       p = snd (edit demo_shown)
     in is_ok (fst (andthen UIBeanDemo show_demo demo_start)) \<and> is_ok (fst (edit demo_shown)) \<and>
        five_inputs demo_shown = replicate 5 (JArr [JStr ''input 1'', JStr ''input 2'']) \<and>
        five_inputs p = replicate 5 (JArr [JStr val, JStr ''input 2'']) \<and>
        five_inputs (snd (demo_events nt [(k, RestoreClick name)] p)) =
          (replicate 5 (JArr [JStr val, JStr ''input 2'']))[a := JArr [JStr ''input 1'', JStr ''input 2'']]"
proof -
  note edit = demo_edit [OF assms, where nt = nt]
  have five: "five_inputs p = map g [0..<5]" if "\<And>b. b < 5 \<Longrightarrow> get_prop (value_bean (dp_store p) b) ''multipleInput'' = g b" for p g
    using that by (auto simp: five_inputs_def)
  have shown: "demo_shown = demo_made" by (simp add: demo_shown_def demo_shown_run)
  let ?r = "snd (ref_onChangeInput nt (demo_config k) name ''multipleInput@0'' val (editing k name))"
  let ?p = "demo_made\<lparr>dp_forms := (dp_forms demo_made)(k := rf_ui ?r), dp_store := rf_store ?r\<rparr>"
  have start: "five_inputs demo_made = map (\<lambda>b. JArr [JStr ''input 1'', JStr ''input 2'']) [0..<5]"
    by (rule five) (simp add: demo_made_def value_demo_store, simp add: value_demo_def get_prop_def)
  have typed: "five_inputs ?p = map (\<lambda>b. JArr [JStr val, JStr ''input 2'']) [0..<5]"
    by (rule five) (simp add: edit(2))
  have "dp_store (snd (demo_events nt [(k, RestoreClick name)] ?p)) = rf_store (snd (ref_events nt (demo_config k) [RestoreClick name] ?r))"
    by (simp add: demo_events_def in_form_def andthen_def seq_def ret_def case_prod_beta split: sum.split del: ref_events.simps(2))
  then have restored: "five_inputs (snd (demo_events nt [(k, RestoreClick name)] ?p)) =
      map (\<lambda>b. if b = a then JArr [JStr ''input 1'', JStr ''input 2''] else JArr [JStr val, JStr ''input 2'']) [0..<5]"
    by (intro five) (simp only: edit(3))
  have updated: "map (\<lambda>b. if b = a then x else y) [0..<5] = (replicate 5 y)[a := x]" for x y :: jsval
    by (rule nth_equalityI) (auto simp: nth_list_update)
  show ?thesis
    unfolding Let_def shown demo_events_two [OF edit(1)] snd_conv fst_conv start typed restored updated
    by (simp add: demo_shown_run map_replicate_trivial)
qed

lemma demo_forms_share_array_witness:
  "five_inputs (snd (demo_events (\<lambda>_. []) [(ArrayForm, EditClick ''bean_1''), (ArrayForm, ChangeText ''bean_1'' ''multipleInput@0'' ''new'')] demo_shown))
     = replicate 5 (JArr [JStr ''new'', JStr ''input 2''])"
proof -
  have block: "(ArrayForm, ''bean_1'', 4) \<in> set demo_blocks" by (simp add: demo_blocks_def)
  show ?thesis using demo_forms_share_array [OF block, of "''new''" "\<lambda>_. []"] by (simp add: Let_def)
qed

theorem shared_arrays_change_together_witness:
  "get_prop (value_bean (rf_store (snd (ref_onChangeInput (\<lambda>_. []) MultipleUIBean ''bean1'' ''multipleInput@0'' ''new'' (form_at MultipleForm)))) 4)
     ''multipleInput'' = JArr [JStr ''new'', JStr ''input 2'']"
proof -
  have 1: "map_of (beanStates (rf_ui (form_at MultipleForm))) ''bean1'' = Some (new_state 1 False True)"
    by (simp add: demo_states_eq demo_states_def)
  have 2: "origin (new_state 1 False True) = None" by (simp add: new_state_def)
  obtain f where 3: "getBeanFieldConfig (map field_config.truncate (MultipleUIBean_fields ''Bean 1'')) ''multipleInput'' = Some f" "fc_multiple f = Some True"
    using repeated_field [of "MultipleUIBean_fields ''Bean 1''" "''Bean 1''"] by auto
  have 4: "map_of (rs_beans (rf_store (form_at MultipleForm)) b) ''multipleInput'' = Some (Ref 0)" if "b < 5" for b
    using that by (simp add: demo_states_eq demo_store_bean bound_demo_bean_def demo_bean_def)
  have 5: "map_of (rs_beans (rf_store (form_at MultipleForm)) (bs_bean (new_state 1 False True))) ''multipleInput'' = Some (Ref 0)"
    using 4 [of 1] by (simp add: new_state_def)
  have 6: "rs_arrays (rf_store (form_at MultipleForm)) 0 = [JStr ''input 1'', JStr ''input 2'']"
    by (simp add: demo_states_eq demo_store_def)
  have 7: "\<not> equals_string (\<lambda>_. []) ([JStr ''input 1'', JStr ''input 2''] ! 0) ''new''" by (simp add: equals_string_def)
  have 8: "refs_made (rf_store (form_at MultipleForm))" "\<And>a. obj_wf (rs_beans (rf_store (form_at MultipleForm)) a)"
    using demo_store_ok by (simp_all add: demo_states_eq)
  from shared_arrays_change_together [OF 1 2 demo_configs(2) multiple_name 3 5 6 _ 7 8] 4 [of 4]
  show ?thesis by (simp add: Let_def)
qed

end
