(* ===== verification/DemoTables.thy ===== *)
theory DemoTables
  imports Demo
begin

text \<open>
  The demos of the table and of the tree (\<open>plugins/uidemo/UITableDemo.js\<close>, \<open>UITableTreeDemo.js\<close>):
  their configurations, with the handlers they give, their beans and their nodes. Before, what a
  table over any beans shows on a page and what its handlers do to the bean of a row.
\<close>

section \<open>A page of a table\<close>

text \<open>A table that gets its beans, is drawn and then shows a page.\<close>

definition open_page_of :: "nat list \<Rightarrow> int \<Rightarrow> (ui_table, unit) prog" where
  "open_page_of beans page = andthen (setBeans beans) (andthen renderTable (onSelectPage page))"

definition items_of :: "nat list \<Rightarrow> table_item list" where
  "items_of beans = map (\<lambda>(i, a). \<lparr>it_id = i, it_bean = a\<rparr>) (enumerate 0 beans)"

definition pager_on :: "int \<Rightarrow> nat list \<Rightarrow> int \<Rightarrow> table_item page_list" where
  "pager_on n beans page = (newPageList n (items_of beans))
     \<lparr>currentPage := page, currentListPage := Some (page_at n (items_of beans) page)\<rparr>"

definition rows_on :: "table_field list \<Rightarrow> (nat \<Rightarrow> (string \<times> jsval) list) \<Rightarrow> int \<Rightarrow> nat list \<Rightarrow> int \<Rightarrow> row_view list" where
  "rows_on fs h n beans page = map (row_of fs h ((page - 1) * n)) (enumerate 0 (page_at n (items_of beans) page))"

definition table_on :: "table_field list \<Rightarrow> bool \<Rightarrow> int option \<Rightarrow> (nat \<Rightarrow> (string \<times> jsval) list) \<Rightarrow> nat list \<Rightarrow> int \<Rightarrow> ui_table" where
  "table_on fs toolbar rows h beans page =
     (let n = (case rows of None \<Rightarrow> 10 | Some n \<Rightarrow> n) in
      (new_table fs toolbar rows h)
        \<lparr>tb_beans := Some beans, tb_items := Some (items_of beans), tb_pageSize := n, tb_next := length beans,
         tb_pages := Some (pager_on n beans page), tb_shares := True,
         tb_filterVal := (if toolbar then Some [] else None),
         tb_filterField := (if toolbar then map_option tf_field (find tf_filterable fs) else None),
         tb_rows := rows_on fs h n beans page\<rparr>)"

lemma items_of_simps [simp]:
  "length (items_of beans) = length beans" "i < length beans \<Longrightarrow> items_of beans ! i = \<lparr>it_id = i, it_bean = beans ! i\<rparr>"
  by (simp_all add: items_of_def nth_enumerate_eq)

lemma pager_on_wf:
  assumes "0 < n" "1 \<le> page" "page \<le> page_count n (length beans)"
  shows "pl_wf (pager_on n beans page)"
  using pl_wf_newPageList [OF assms(1), of "items_of beans"] assms
  by (simp add: pager_on_def pl_wf_def newPageList_def)

lemma pager_parts [simp]:
  "pl_list (pager_on n beans page) = items_of beans" "currentPage (pager_on n beans page) = page"
  "pageSize (pager_on n beans page) = n" "getFrom (pager_on n beans page) = (page - 1) * n"
  by (simp_all add: pager_on_def newPageList_def getFrom_def)

lemma render_on:
  assumes "pl_wf p" "tb_pages t = Some p" "tb_shares t" "tb_items t = Some (pl_list p)"
  shows "renderRows t = (Inr (), t
     \<lparr>tb_pages := Some (p\<lparr>currentListPage := Some (page_at (pageSize p) (pl_list p) (currentPage p))\<rparr>),
      tb_rows := map (row_of (tb_fields t) (tb_heap t) (getFrom p)) (enumerate 0 (page_at (pageSize p) (pl_list p) (currentPage p)))\<rparr>)"
proof -
  have "on_pages (reads getFrom) t = (Inr (getFrom p), t)"
    using assms by (simp add: on_pages_run reads_def)
  moreover have "on_pages currentPageItems t = (Inr (Some (page_at (pageSize p) (pl_list p) (currentPage p))),
      t\<lparr>tb_pages := Some (p\<lparr>currentListPage := Some (page_at (pageSize p) (pl_list p) (currentPage p))\<rparr>)\<rparr>)"
    using assms currentPageItems_wf [OF assms(1)] by (simp add: on_pages_run)
  ultimately show ?thesis by (simp add: renderRows_def seq_def update_def)
qed

lemma open_page_run:
  assumes "0 < (case rows of None \<Rightarrow> 10 | Some n \<Rightarrow> n)" "1 \<le> page"
    and "page \<le> page_count (case rows of None \<Rightarrow> 10 | Some n \<Rightarrow> n) (length beans)"
  shows "open_page_of beans page (new_table fs toolbar rows h) = (Inr (), table_on fs toolbar rows h beans page)"
proof -
  let ?n = "(case rows of None \<Rightarrow> 10 | Some n \<Rightarrow> n) :: int"
  let ?t0 = "(new_table fs toolbar rows h)\<lparr>tb_beans := Some beans, tb_items := Some (items_of beans), tb_pageSize := ?n,
      tb_next := length beans, tb_pages := Some (newPageList ?n (items_of beans)), tb_shares := True\<rparr>"
  have set: "setBeans beans (new_table fs toolbar rows h) = (Inr (), ?t0)"
    unfolding setBeans_run by (subst filterBeans_off) (auto simp: new_table_def config_page_size_def items_of_def)
  let ?f = "\<lambda>t. t\<lparr>tb_filterVal := (if toolbar then Some [] else None),
      tb_filterField := (if toolbar then map_option tf_field (find tf_filterable fs) else None)\<rparr>"
  have wf1: "pl_wf (newPageList ?n (items_of beans))" using assms(1) by (rule pl_wf_newPageList)
  have size: "pageSize (newPageList ?n (items_of beans)) = ?n" "pl_list (newPageList ?n (items_of beans)) = items_of beans"
    "currentPage (newPageList ?n (items_of beans)) = 1"
    by (simp_all add: newPageList_def)
  let ?p1 = "(newPageList ?n (items_of beans))\<lparr>currentListPage := Some (page_at ?n (items_of beans) 1)\<rparr>"
  have render: "renderTable ?t0 = (Inr (), (?f ?t0)\<lparr>tb_pages := Some ?p1, tb_rows := rows_on fs h ?n beans 1\<rparr>)"
    using render_on [OF wf1, of "?f ?t0"]
    by (auto simp: renderTable_def andthen_def seq_def update_def new_table_def size rows_on_def getFrom_def)
  let ?t1 = "(?f ?t0)\<lparr>tb_pages := Some ?p1, tb_rows := rows_on fs h ?n beans 1\<rparr>"
  have wf2: "pl_wf ?p1" using wf1 by (simp add: pl_wf_def size)
  have avail: "availablePage ?p1 = page_count ?n (length beans)" using wf1 by (simp add: pl_wf_def size)
  have get: "getPage page ?p1 = (Inr (Some (page_at ?n (items_of beans) page)), pager_on ?n beans page)"
    using getPage_in [OF wf2 assms(2)] assms(3) avail by (simp add: size pager_on_def)
  have sel: "onSelectPage page ?t1 = renderRows (?t1\<lparr>tb_pages := Some (pager_on ?n beans page)\<rparr>)"
    using assms(2,3) avail get
    by (simp add: onSelectPage_def seq_def on_pages_run reads_def size new_table_def)
  let ?u = "?t1\<lparr>tb_pages := Some (pager_on ?n beans page)\<rparr>"
  have "renderRows ?u = (Inr (), ?u
      \<lparr>tb_pages := Some ((pager_on ?n beans page)\<lparr>currentListPage := Some (page_at ?n (items_of beans) page)\<rparr>), tb_rows := rows_on fs h ?n beans page\<rparr>)"
    using render_on [OF pager_on_wf [OF assms], of ?u] by (simp add: rows_on_def new_table_def)
  moreover have "(pager_on ?n beans page)\<lparr>currentListPage := Some (page_at ?n (items_of beans) page)\<rparr> = pager_on ?n beans page"
    by (simp add: pager_on_def)
  ultimately have "renderRows ?u = (Inr (), table_on fs toolbar rows h beans page)"
    by (simp add: table_on_def new_table_def Let_def)
  with sel show ?thesis by (simp add: open_page_of_def andthen_def seq_def set render)
qed

section \<open>Marking the bean of a row\<close>

text \<open>The bean of a row of a page.\<close>

definition bean_at :: "int \<Rightarrow> nat list \<Rightarrow> int \<Rightarrow> nat \<Rightarrow> nat" where
  "bean_at n beans page row = beans ! (nat ((page - 1) * n) + row)"

definition marked :: "string \<Rightarrow> nat \<Rightarrow> (nat \<Rightarrow> (string \<times> jsval) list) \<Rightarrow> nat \<Rightarrow> (string \<times> jsval) list" where
  "marked st a h = h(a := obj_put ''persistableState'' (JStr st) (h a))"

lemma item_at:
  assumes "row < length (page_at n (items_of beans) page)"
  shows "nat ((page - 1) * n) + row < length beans"
    and "page_at n (items_of beans) page ! row = \<lparr>it_id = nat ((page - 1) * n) + row, it_bean = bean_at n beans page row\<rparr>"
  using assms by (auto simp: page_at_def bean_at_def)

lemma get_on:
  assumes "row < length (page_at n (items_of beans) page)" "n = (case rows of None \<Rightarrow> 10 | Some n \<Rightarrow> n)"
  shows "tableGetItem (int row) (table_on fs toolbar rows h beans page) = (Inr (bean_at n beans page row), table_on fs toolbar rows h beans page)"
proof -
  let ?t = "table_on fs toolbar rows h beans page"
  have pages: "tb_pages ?t = Some (pager_on n beans page)" "tb_shares ?t" "tb_items ?t = Some (items_of beans)"
    using assms(2) by (simp_all add: table_on_def Let_def)
  have "getItemOnCurrentPage (int row) (pager_on n beans page)
      = (Inr (Some \<lparr>it_id = nat ((page - 1) * n) + row, it_bean = bean_at n beans page row\<rparr>), pager_on n beans page)"
    using assms(1) item_at(2) [OF assms(1)]
    by (simp add: getItemOnCurrentPage_def prog_defs pager_on_def js_index_def)
  then show ?thesis using pages by (simp add: tableGetItem_def shown_item_def on_pages_run seq_def ret_def)
qed

text \<open>The counters after one bean of a table without marks was marked.\<close>

lemma count_one_mark:
  assumes "distinct beans" "row < length beans" "\<And>a. a \<in> set beans \<Longrightarrow> get_prop (h a) ''persistableState'' = JUndef"
  shows "length (filter (\<lambda>x. persistable (marked st (beans ! row) h (it_bean x)) st') (items_of beans)) = (if st = st' then 1 else 0)"
proof -
  have "persistable (marked st (beans ! row) h (beans ! i)) st' \<longleftrightarrow> i = row \<and> st = st'" if "i < length beans" for i
    using assms that nth_eq_iff_index_eq [OF assms(1) that assms(2)] assms(3) [OF nth_mem [OF that]]
    by (auto simp: persistable_def marked_def)
  then have "{i. i < length beans \<and> persistable (marked st (beans ! row) h (it_bean (items_of beans ! i))) st'} = (if st = st' then {row} else {})"
    using assms(2) by auto
  then show ?thesis by (simp add: length_filter_conv_card)
qed

lemma mark_on:
  fixes fs :: "table_field list" and toolbar :: bool and h :: "nat \<Rightarrow> (string \<times> jsval) list" and st :: string
  assumes "0 < n" "n = (case rows of None \<Rightarrow> 10 | Some n \<Rightarrow> n)" "1 \<le> page" "page \<le> page_count n (length beans)"
    and "row < length (page_at n (items_of beans) page)"
  defines "t \<equiv> table_on fs toolbar rows h beans page" and "h' \<equiv> marked st (bean_at n beans page row) h"
  shows "mark_item st (int row) t = (Inr (), t\<lparr>tb_heap := h', tb_counts := Some (count_marks h' (items_of beans)), tb_rows := rows_on fs h' n beans page\<rparr>)"
proof -
  let ?t = "t\<lparr>tb_heap := h', tb_counts := Some (count_marks h' (items_of beans))\<rparr>"
  have parts: "tb_pages t = Some (pager_on n beans page)" "tb_shares t" "tb_items t = Some (items_of beans)" "tb_fields t = fs" "tb_heap t = h"
    using assms(2) by (simp_all add: t_def table_on_def Let_def new_table_def)
  have "tableGetItem (int row) t = (Inr (bean_at n beans page row), t)" unfolding t_def by (rule get_on [OF assms(5,2)])
  then have "mark_item st (int row) t = renderRows ?t"
    using parts
    by (simp add: mark_item_def seq_def andthen_def set_mark_def update_def updateBeanStateCount_def get_items_def h'_def marked_def)
  also have "renderRows ?t = (Inr (), ?t\<lparr>tb_rows := rows_on fs h' n beans page\<rparr>)"
    using render_on [OF pager_on_wf [OF assms(1,3,4)], of ?t] parts
    by (simp add: rows_on_def) (simp add: pager_on_def)
  finally show ?thesis by simp
qed

lemma status_at:
  assumes "distinct beans" "r < length beans" "i < length beans" "\<And>a. a \<in> set beans \<Longrightarrow> get_prop (h a) ''persistableState'' = JUndef"
  shows "status_class (h (beans ! i)) = ''ui-origin-text''"
    and "status_class (marked ''DELETED'' (beans ! r) h (beans ! i)) = (if i = r then ''ui-deleted-text'' else ''ui-origin-text'')"
  using assms nth_eq_iff_index_eq [OF assms(1,3,2)] assms(4) [OF nth_mem [OF assms(3)]]
  by (auto simp: status_class_def persistable_def marked_def)

lemma rows_parts:
  assumes "i < length (page_at n (items_of beans) page)"
  shows "rows_on fs h n beans page ! i = row_of fs h ((page - 1) * n) (i, \<lparr>it_id = nat ((page - 1) * n) + i, it_bean = bean_at n beans page i\<rparr>)"
  using assms item_at(2) [OF assms] by (simp add: rows_on_def nth_enumerate_eq)

lemma length_rows [simp]: "length (rows_on fs h n beans page) = length (page_at n (items_of beans) page)"
  by (simp add: rows_on_def)

text \<open>
  C9: Deleting a row. Of a table over different unmarked beans, page \<open>page\<close> shows the beans from
  the page's offset on, numbered, with the cells of their columns; deleting row \<open>row\<close> marks exactly the
  bean at the offset plus the row, counts one deletion, and draws the page again with that row and no
  other as deleted, its cells unchanged.\<close>
theorem delete_row_on_page:
  assumes "0 < n" "n = (case rows of None \<Rightarrow> 10 | Some n \<Rightarrow> n)" "1 \<le> page" "page \<le> page_count n (length beans)"
    and "distinct beans" "\<And>a. a \<in> set beans \<Longrightarrow> get_prop (h a) ''persistableState'' = JUndef"
    and "row < length (page_at n beans page)"
    and "\<And>f b v. f \<in> set fs \<Longrightarrow> field_value f (obj_put ''persistableState'' v b) = field_value f b"
  shows "let t0 = new_table fs toolbar rows h;
             t = snd (open_page_of beans page t0);
             t' = snd (markDeletedItemOnCurrentPage (int row) t);
             a = page_at n beans page ! row;
             cells = (\<lambda>b. map (\<lambda>f. field_value f (h b)) (filter tf_toggled fs))
    in is_ok (fst (open_page_of beans page t0)) \<and> is_ok (fst (markDeletedItemOnCurrentPage (int row) t)) \<and>
       map rv_number (tb_rows t) = map (\<lambda>i. (page - 1) * n + int i + 1) [0..<length (page_at n beans page)] \<and>
       map rv_cells (tb_rows t) = map cells (page_at n beans page) \<and> map rv_cells (tb_rows t') = map cells (page_at n beans page) \<and>
       tb_heap t' = h(a := obj_put ''persistableState'' (JStr ''DELETED'') (h a)) \<and>
       tb_counts t' = Some (0, 0, 1) \<and> tb_items t' = tb_items t \<and>
       map rv_status (tb_rows t') = (replicate (length (page_at n beans page)) ''ui-origin-text'')[row := ''ui-deleted-text'']"
proof -
  let ?t = "table_on fs toolbar rows h beans page" and ?len = "length (page_at n beans page)"
  let ?a = "page_at n beans page ! row" and ?o = "nat ((page - 1) * n)"
  have len: "length (page_at n (items_of beans) page) = ?len" by (simp add: page_at_def)
  have at: "page_at n beans page ! i = beans ! (?o + i)" "?o + i < length beans" if "i < ?len" for i
    using that by (auto simp: page_at_def)
  have opened: "open_page_of beans page (new_table fs toolbar rows h) = (Inr (), ?t)"
    using assms(1-4) by (intro open_page_run) simp_all
  let ?h = "marked ''DELETED'' ?a h"
  have mark: "markDeletedItemOnCurrentPage (int row) ?t = (Inr (), ?t\<lparr>tb_heap := ?h,
      tb_counts := Some (count_marks ?h (items_of beans)), tb_rows := rows_on fs ?h n beans page\<rparr>)"
    using mark_on [OF assms(1-4)] assms(7) at(1) [OF assms(7)]
    by (simp add: markDeletedItemOnCurrentPage_def len bean_at_def)
  have row: "rows_on fs g n beans page ! i = row_of fs g ((page - 1) * n) (i, \<lparr>it_id = ?o + i, it_bean = beans ! (?o + i)\<rparr>)"
    if "i < ?len" for g i using rows_parts [of i n beans page fs g] that by (simp add: len bean_at_def)
  have cell: "field_value f (marked ''DELETED'' ?a h b) = field_value f (h b)" if "f \<in> set fs" for f b
    using assms(8) [OF that] by (simp add: marked_def)
  have counts: "count_marks ?h (items_of beans) = (0, 0, 1)"
    using count_one_mark [OF assms(5) at(2) [OF assms(7)], where h = h and st = "''DELETED''"] assms(6) at(1) [OF assms(7)]
    by (simp add: count_marks_def)
  have numbers: "map rv_number (rows_on fs h n beans page) = map (\<lambda>i. (page - 1) * n + int i + 1) [0..<?len]"
    by (rule nth_equalityI) (simp_all add: len row row_of_def)
  have cells: "map rv_cells (rows_on fs g n beans page) = map (\<lambda>b. map (\<lambda>f. field_value f (h b)) (filter tf_toggled fs)) (page_at n beans page)"
    if "\<And>f b. f \<in> set fs \<Longrightarrow> field_value f (g b) = field_value f (h b)" for g
    by (rule nth_equalityI) (simp_all add: len row row_of_def at that)
  have status: "map rv_status (rows_on fs ?h n beans page) = (replicate ?len ''ui-origin-text'')[row := ''ui-deleted-text'']"
  proof (rule nth_equalityI)
    fix i
    assume "i < length (map rv_status (rows_on fs ?h n beans page))"
    then have i: "i < ?len" by (simp add: len)
    show "map rv_status (rows_on fs ?h n beans page) ! i = (replicate ?len ''ui-origin-text'')[row := ''ui-deleted-text''] ! i"
      using status_at(2) [OF assms(5) at(2) [OF assms(7)] at(2) [OF i] assms(6)] at(1) [OF assms(7)] i
      by (simp add: len row row_of_def nth_list_update)
  qed (simp add: len)
  have "tb_rows ?t = rows_on fs h n beans page" using assms(2) by (simp add: table_on_def Let_def)
  then show ?thesis
    unfolding Let_def opened snd_conv fst_conv mark
    using numbers cells [of h] cells [of ?h] cell status counts by (simp add: marked_def)
qed

section \<open>The demo of the table\<close>

definition nested_display :: "obj \<Rightarrow> jsval" where
  "nested_display b = cu_display nested_custom b"

definition demo_column :: "string \<Rightarrow> string \<Rightarrow> bool \<Rightarrow> table_field" where
  "demo_column label name filterable =
     \<lparr>tf_field = name, tf_label = label, tf_toggled = True, tf_filterable = filterable, tf_display = None\<rparr>"

definition UITableDemo_columns :: "table_field list" where
  "UITableDemo_columns =
    [demo_column ''Bean'' ''bean'' True, demo_column ''Option'' ''option'' True,
     demo_column ''Multiple Input'' ''multipleInput'' False, demo_column ''Text Area'' ''textarea'' False,
     (demo_column ''Custom Field'' ''customField'' False)\<lparr>tf_display := Some nested_display\<rparr>]"

text \<open>The same fields, as the form of the popup reads them.\<close>

definition UITableDemo_fields :: "form_field list" where
  "UITableDemo_fields =
    [(text_field ''bean'' ''Bean'')\<lparr>fc_default := JStr ''default value''\<rparr>, text_field ''option'' ''Option'',
     validated ''empty'' None None None ((text_field ''multipleInput'' ''Multiple Input'')
       \<lparr>fc_multiple := Some True, fc_default := JArr [JStr ''val1'', JStr ''val2'']\<rparr>),
     text_field ''textarea'' ''Text Area'', (text_field ''customField'' ''Custom Field'')\<lparr>ff_custom := Some nested_custom\<rparr>]"

text \<open>A click on a cell reads the bean and prints it; a column without a handler is not drawn as a link.\<close>

definition print_bean :: "int \<Rightarrow> (table_edit, unit) prog" where
  "print_bean row = seq (in_table (tableGetItem row)) (\<lambda>a. ret ())"

definition UITableDemo_clicks :: "(int \<Rightarrow> (table_edit, unit) prog) list" where
  "UITableDemo_clicks =
     (let none = (\<lambda>row. throw (TypeError ''onClick'')) in [print_bean, none, none, none, print_bean])"

definition UITableDemo_actions :: "(int \<Rightarrow> (table_edit, unit) prog) list" where
  "UITableDemo_actions =
    [\<lambda>row. in_table (markDeletedItemOnCurrentPage row),
     table_onEditBean (map field_config.truncate UITableDemo_fields) ''Contact Bean'']"

definition UITableDemo_toolbar :: "(table_edit, unit) prog list" where
  "UITableDemo_toolbar = [table_onAddBean (map field_config.truncate UITableDemo_fields) ''Contact Bean'']"

definition demo_row :: "nat \<Rightarrow> obj" where
  "demo_row i =
    [(''bean'', JStr (''bean '' @ show_nat i)), (''option'', JStr (''opt'' @ show_nat (i mod 2 + 1))),
     (''multipleInput'', JArr [JStr ''input 1'', JStr ''input 2'']), (''textarea'', JStr (''Textarea '' @ show_nat i)),
     (''nestedObject'', JObj [(''field'', JStr (''nested field '' @ show_nat i))]), (''peristableState'', JStr ''ORIGIN'')]"

definition demo_table :: ui_table where
  "demo_table = new_table UITableDemo_columns True None demo_row"

definition UITableDemo :: "(ui_table, unit) prog" where
  "UITableDemo = setBeans [0..<151]"

lemma demo_displays:
  assumes "f \<in> set UITableDemo_columns"
  shows "field_value f (obj_put ''persistableState'' v b) = field_value f b"
  using assms
  by (auto simp: UITableDemo_columns_def demo_column_def field_value_def get_prop_put nested_display_def nested_custom_def)

theorem delete_row_on_page_witness:
  "let t = snd (open_page_of [0..<151] 16 demo_table); t' = snd (markDeletedItemOnCurrentPage 0 t) in
   map rv_number (tb_rows t) = [151] \<and> map rv_status (tb_rows t') = [''ui-deleted-text''] \<and> tb_counts t' = Some (0, 0, 1)"
proof -
  have page: "page_at 10 [0..<151] 16 = [150]" by (simp add: page_at_def)
  have 1: "(10 :: int) = (case None of None \<Rightarrow> 10 | Some n \<Rightarrow> n)" by simp
  have 2: "(16 :: int) \<le> page_count 10 (length [0..<151])" by (simp add: page_count_def) code_simp
  have 3: "get_prop (demo_row a) ''persistableState'' = JUndef" for a by (simp add: demo_row_def get_prop_def)
  have 4: "0 < length (page_at 10 [0..<151] 16)" by (simp add: page)
  from delete_row_on_page [OF _ 1 _ 2 distinct_upt 3 4 demo_displays, where toolbar = True]
  show ?thesis by (simp add: Let_def page demo_table_def)
qed

section \<open>The demo of the tree\<close>

definition UITableTreeDemo_columns :: "table_field list" where
  "UITableTreeDemo_columns =
    [demo_column ''Bean'' ''bean'' True, demo_column ''Col 1'' ''col1'' False, demo_column ''Col 2'' ''col2'' False,
     (demo_column ''Custom Field'' ''customField'' False)\<lparr>tf_display := Some nested_display\<rparr>]"

text \<open>The labels of the actions; a click on one has no handler in the view.\<close>

definition UITableTreeDemo_actions :: "string list" where
  "UITableTreeDemo_actions = [''Delete'', ''Mod'']"

definition tree_bean :: "string \<Rightarrow> obj" where
  "tree_bean name = [(''bean'', JStr name), (''col1'', JStr ''col 1''), (''col2'', JStr ''col 2''),
     (''nestedObject'', JObj [(''field'', JStr ''nested field '')])]"

definition UITableTreeDemo :: "obj node list" where
  "UITableTreeDemo =
     addChildAt [0, 0] (tree_bean ''bean-1-1-1'')
      (addChildAt [0] (tree_bean ''bean-1-2'')
       (addChildAt [0] (tree_bean ''bean-1-1'')
        (addNode (tree_bean ''bean-2'') (addNode (tree_bean ''bean-1'') []))))"

text \<open>
  The cells of a node's row: whether the cell has the icon that opens and closes the row, whether it
  is a link, and what it shows. The icon is in the first column of the configuration only.
\<close>

definition tree_cells :: "table_field list \<Rightarrow> string list \<Rightarrow> obj node \<Rightarrow> (bool \<times> bool \<times> jsval) list" where
  "tree_cells fs links n =
     map (\<lambda>(j, f). (j = 0 \<and> node_children n \<noteq> [], tf_field f \<in> set links, field_value f (node_bean n)))
       (filter (\<lambda>(j, f). tf_toggled f) (enumerate 0 fs))"

text \<open>The tree is drawn with its two roots; opening the first one shows its children, not theirs.\<close>

lemma tree_demo_drawn:
  "let rows = renderNodes 0 False UITableTreeDemo; view = map (\<lambda>r. (tr_id r, tr_depth r, tr_shown r)) in
   view rows = [(''id-0'', 0, True), (''id-0-0'', 1, False), (''id-0-0-0'', 2, False), (''id-0-1'', 1, False), (''id-1'', 0, True)] \<and>
   view (onToggle 0 rows) = [(''id-0'', 0, True), (''id-0-0'', 1, True), (''id-0-0-0'', 2, False), (''id-0-1'', 1, True), (''id-1'', 0, True)]"
  by code_simp

lemma tree_demo_cells:
  "map (\<lambda>nid. map_option (tree_cells UITableTreeDemo_columns [''bean'']) (findNodes nid UITableTreeDemo)) [''id-0'', ''id-0-0-0''] =
   [Some [(True, True, JStr ''bean-1''), (False, False, JStr ''col 1''), (False, False, JStr ''col 2''), (False, False, JStr ''nested field '')],
    Some [(False, True, JStr ''bean-1-1-1''), (False, False, JStr ''col 1''), (False, False, JStr ''col 2''), (False, False, JStr ''nested field '')]] \<and>
   tree_onBeanFieldClick (map tf_field UITableTreeDemo_columns) 0 ''id-0-1'' UITableTreeDemo = Inr ''on click node id-0-1, field = bean''"
  by code_simp

end
