(* ===== verification/Deploy.thy ===== *)
theory Deploy
  imports JSValue
begin

text \<open>
  The deployment scripts of \<open>app/jscript\<close>: the cluster modules, each with its installation by
  role, by server and its removal, the Yara module, and the three scripts that deploy a
  cluster. A script is modelled by the calls it makes, in order, when each of them returns;
  the shell that runs the commands is not part of the repository.

  The interface \<open>cluster_module\<close> states what a deployment relies on, and is interpreted on the
  modules that keep it.
\<close>

section \<open>Calls and commands\<close>

datatype call =
    H1 string
  | Exec string
  | Metric string
  | ListModules string

fun commands :: "call list \<Rightarrow> string list" where
  "commands [] = []"
| "commands (Exec c # cs) = c # commands cs"
| "commands (_ # cs) = commands cs"

lemma commands_append [simp]: "commands (a @ b) = commands a @ commands b"
  by (induction a rule: commands.induct) auto

text \<open>
  A command line is read as words separated by blanks; an option is followed by its value.
\<close>

function words :: "string \<Rightarrow> string list" where
  "words [] = []"
| "words (c # s) =
     (if c = CHR '' '' then words s
      else (c # takeWhile (\<lambda>d. d \<noteq> CHR '' '') s) # words (dropWhile (\<lambda>d. d \<noteq> CHR '' '') s))"
  by pat_completeness auto
termination
  by (relation "measure length") (auto simp: le_imp_less_Suc length_dropWhile_le)

fun option_value :: "string \<Rightarrow> string list \<Rightarrow> string option" where
  "option_value k (a # b # r) = (if a = k then Some b else option_value k (b # r))"
| "option_value k _ = None"

definition one_word :: "string \<Rightarrow> bool" where
  "one_word w \<longleftrightarrow> w \<noteq> [] \<and> CHR '' '' \<notin> set w"

lemma takeWhile_none: "\<forall>d \<in> set s. P d \<Longrightarrow> takeWhile P s = s"
  by (induction s) auto

lemma words_dropWhile_none: "\<forall>d \<in> set s. P d \<Longrightarrow> words (dropWhile P s) = []"
  by (induction s) auto

lemma words_one: "one_word w \<Longrightarrow> words w = [w]"
proof (cases w)
  case (Cons c s)
  assume "one_word w"
  then have n: "\<forall>d \<in> set s. d \<noteq> CHR '' ''" and c: "c \<noteq> CHR '' ''"
    using Cons by (auto simp: one_word_def)
  have "words (c # s) = [c # s]"
    using c by (simp add: words_dropWhile_none [OF n] takeWhile_none [OF n])
  with Cons show ?thesis by simp
qed (simp add: one_word_def)

lemma words_blank: "words (u @ CHR '' '' # v) = words u @ words v"
proof (induction u rule: words.induct)
  case (2 c s)
  show ?case
  proof (cases "c = CHR '' ''")
    case False
    show ?thesis
    proof (cases "CHR '' '' \<in> set s")
      case True
      have "takeWhile (\<lambda>d. d \<noteq> CHR '' '') (s @ CHR '' '' # v) = takeWhile (\<lambda>d. d \<noteq> CHR '' '') s"
        using True by (simp add: takeWhile_append1)
      moreover have "dropWhile (\<lambda>d. d \<noteq> CHR '' '') (s @ CHR '' '' # v) = dropWhile (\<lambda>d. d \<noteq> CHR '' '') s @ CHR '' '' # v"
        using True by (simp add: dropWhile_append1)
      ultimately show ?thesis using 2(2) [OF False] False by simp
    next
      case s: False
      then have n: "\<forall>d \<in> set s. d \<noteq> CHR '' ''" by auto
      have "takeWhile (\<lambda>d. d \<noteq> CHR '' '') (s @ CHR '' '' # v) = s"
        "dropWhile (\<lambda>d. d \<noteq> CHR '' '') (s @ CHR '' '' # v) = CHR '' '' # v"
        using n by (auto simp: takeWhile_append2 dropWhile_append2)
      then show ?thesis
        using False by (simp add: takeWhile_none [OF n] words_dropWhile_none [OF n])
    qed
  qed (use 2(1) in simp)
qed simp

text \<open>Commands are written as chunks, of which one of two neighbours has a blank at the seam.\<close>

lemma words_seam:
  "v \<noteq> [] \<Longrightarrow> hd v = CHR '' '' \<Longrightarrow> words (u @ v) = words u @ words v"
  "u \<noteq> [] \<Longrightarrow> last u = CHR '' '' \<Longrightarrow> words (u @ v) = words u @ words v"
proof -
  show "v \<noteq> [] \<Longrightarrow> hd v = CHR '' '' \<Longrightarrow> words (u @ v) = words u @ words v"
    by (cases v) (auto simp: words_blank)
  assume "u \<noteq> []" "last u = CHR '' ''"
  then obtain u' where u: "u = u' @ [CHR '' '']" by (metis append_butlast_last_id)
  have "words u = words u'" using words_blank [of u' "[]"] by (simp add: u)
  then show "words (u @ v) = words u @ words v" using words_blank [of u' v] by (simp add: u)
qed

fun seams :: "string list \<Rightarrow> bool" where
  "seams (u # v # r) = (u \<noteq> [] \<and> v \<noteq> [] \<and> (last u = CHR '' '' \<or> hd v = CHR '' '') \<and> seams (v # r))"
| "seams _ = True"

definition line :: "string list \<Rightarrow> string" where
  "line ps = concat ps"

lemma words_concat: "seams ps \<Longrightarrow> words (concat ps) = concat (map words ps)"
proof (induction ps rule: seams.induct)
  case (1 u v r)
  have "hd (concat (v # r)) = hd v" "concat (v # r) \<noteq> []" using 1(2) by (auto simp: hd_append)
  with 1(2) have "words (u @ concat (v # r)) = words u @ words (concat (v # r))"
    by (metis seams.simps(1) words_seam)
  with 1 show ?case by simp
qed auto

lemma words_line: "seams ps \<Longrightarrow> words (line ps) = concat (map words ps)"
  by (simp only: line_def words_concat)

lemma option_value_append: "option_value k xs = Some v \<Longrightarrow> option_value k (xs @ ys) = Some v"
  by (induction k xs rule: option_value.induct) (auto split: if_splits)

lemma one_word_scan:
  "one_word w \<Longrightarrow> takeWhile (\<lambda>d. d \<noteq> CHR '' '') w = w"
  "one_word w \<Longrightarrow> words (dropWhile (\<lambda>d. d \<noteq> CHR '' '') w) = []"
  by (auto intro!: takeWhile_none words_dropWhile_none simp: one_word_def)

lemma one_word_show_int [simp]: "one_word (show_int k)"
  using show_int_no_space [of "CHR '' ''" k] by (auto simp: one_word_def is_space_def show_int_def)

lemma one_word_int: "one_word w \<Longrightarrow> one_word (w @ show_int k)"
  using show_int_no_space [of "CHR '' ''" k] by (auto simp: one_word_def is_space_def show_int_def)

section \<open>Modules\<close>

record kafka_config =
  kafka_port :: int
  kafka_zookeeperConnect :: string
  kafka_serverRole :: string
  kafka_servers :: "string list"

definition KAFKA_DEFAULT_CONFIG :: kafka_config where
  "KAFKA_DEFAULT_CONFIG =
     \<lparr>kafka_port = 9092, kafka_zookeeperConnect = ''127.0.0.1:2181'', kafka_serverRole = ''kafka'',
      kafka_servers = [''kafka1'']\<rparr>"

definition KafkaCluster :: "kafka_config option \<Rightarrow> kafka_config" where
  "KafkaCluster config = (case config of Some c \<Rightarrow> c | None \<Rightarrow> KAFKA_DEFAULT_CONFIG)"

definition kafka_installByRole :: "kafka_config \<Rightarrow> call list" where
  "kafka_installByRole c =
     [H1 ''Install the module Kafka on the kafka role servers'',
      Exec (line [''module install   --member-role '', kafka_serverRole c,
        ''  --autostart --module Kafka --timeout 30000  -Pmodule.data.drop=true  '',
        ''-Pkafka:port='' @ show_int (kafka_port c), ''  '',
        ''-Pkafka:zookeeper.connect='' @ kafka_zookeeperConnect c,
        ''  -Pkafka:default.replication.factor=2  -Pkafka:controller.socket.timeout.ms=90000'',
        ''  -Pkafka:controlled.shutdown.enable=true  -Pcontrolled.shutdown.max.retries=3'',
        ''  -Pkafka:controlled.shutdown.retry.backoff.ms=60000''])]"

definition kafka_installByServer :: "kafka_config \<Rightarrow> call list" where
  "kafka_installByServer c =
     concat (map (\<lambda>(i, server).
       [H1 (''Install the module Kafka on the '' @ server @ '' server''),
        Exec (line [''module install   --member-name '', server,
          ''  --autostart --module Kafka --timeout 30000  -Pmodule.data.drop=true  '',
          ''-Pkafka:port='' @ show_int (kafka_port c + int i), ''  '',
          ''-Pkafka:zookeeper.connect='' @ kafka_zookeeperConnect c,
          ''  -Pkafka:default.replication.factor=2  -Pkafka:controller.socket.timeout.ms=3000'',
          ''  -Pcontrolled.shutdown.max.retries=3  -Pkafka:controlled.shutdown.retry.backoff.ms=3000''])])
       (enumerate 0 (kafka_servers c)))"

definition kafka_uninstall :: "kafka_config \<Rightarrow> call list" where
  "kafka_uninstall c =
     [Exec (line [''module uninstall   --member-role '', kafka_serverRole c, ''  --module Kafka --timeout 40000''])]"

definition kafka_metric :: "kafka_config \<Rightarrow> call list" where
  "kafka_metric c = [Metric (line [''server metric  --member-role '', kafka_serverRole c, ''  --filter *Kafka*''])]"

record zookeeper_config =
  zk_listenPort :: int
  zk_serverRole :: string
  zk_servers :: "string list"

definition ZOOKEEPER_DEFAULT_CONFIG :: zookeeper_config where
  "ZOOKEEPER_DEFAULT_CONFIG =
     \<lparr>zk_listenPort = 2181, zk_serverRole = ''zookeeper'', zk_servers = [''zookeeper1'']\<rparr>"

definition ZookeeperCluster :: "zookeeper_config option \<Rightarrow> zookeeper_config" where
  "ZookeeperCluster config = (case config of Some c \<Rightarrow> c | None \<Rightarrow> ZOOKEEPER_DEFAULT_CONFIG)"

definition zookeeper_installByRole :: "zookeeper_config \<Rightarrow> call list" where
  "zookeeper_installByRole c =
     [H1 ''Install the module Zookeeper on the zookeeper role servers'',
      Exec (line [''module install   --member-role '', zk_serverRole c,
        ''  --autostart --module Zookeeper  -Pmodule.data.drop=true  '', ''-Pzk:clientPort='' @ show_int (zk_listenPort c)])]"

definition zookeeper_installByServer :: "zookeeper_config \<Rightarrow> call list" where
  "zookeeper_installByServer c =
     concat (map (\<lambda>(i, server).
       [H1 (''Install the module Zookeeper on the '' @ server @ '' server''),
        Exec (line [''module install  --member-name '', server,
          ''  --autostart --module Zookeeper  -Pmodule.data.drop=true  '',
          ''-Pzk:clientPort='' @ show_int (zk_listenPort c + int i)])])
       (enumerate 0 (zk_servers c)))"

definition zookeeper_uninstall :: "zookeeper_config \<Rightarrow> call list" where
  "zookeeper_uninstall c =
     [Exec (line [''module uninstall  --member-role '', zk_serverRole c, ''  --module Zookeeper --timeout 20000''])]"

record consumer_config =
  kc_serverRole :: string
  kc_servers :: "string list"
  kc_zookeeperConnect :: string

definition CONSUMER_DEFAULT_CONFIG :: consumer_config where
  "CONSUMER_DEFAULT_CONFIG =
     \<lparr>kc_serverRole = ''generic'', kc_servers = [''generic''], kc_zookeeperConnect = ''127.0.0.1:2181''\<rparr>"

definition KafkaConsumerCluster :: "consumer_config option \<Rightarrow> consumer_config" where
  "KafkaConsumerCluster config = (case config of Some c \<Rightarrow> c | None \<Rightarrow> CONSUMER_DEFAULT_CONFIG)"

definition consumer_installByRole :: "consumer_config \<Rightarrow> call list" where
  "consumer_installByRole c =
     [H1 ''Install the module KafkaConsumer'',
      Exec (line [''module install   --member-role '', kc_serverRole c,
        ''  --autostart --module KafkaConsumer  -Pmodule.data.drop=true  '',
        ''-Pkafka:zookeeper.connect='' @ kc_zookeeperConnect c])]"

definition consumer_installByServer :: "consumer_config \<Rightarrow> call list" where
  "consumer_installByServer c =
     concat (map (\<lambda>server.
       [H1 (''Install the module KafkaConsumer on the '' @ server @ '' server''),
        Exec (line [''module install   --member-name '', server,
          ''  --autostart --module KafkaConsumer  -Pmodule.data.drop=true  '',
          ''-Pkafka:zookeeper.connect='' @ kc_zookeeperConnect c])])
       (kc_servers c))"

definition consumer_uninstall :: "consumer_config \<Rightarrow> call list" where
  "consumer_uninstall c =
     [Exec (line [''module uninstall   --member-role '', kc_serverRole c, ''  --module KafkaConsumer''])]"

record sparkngin_config =
  sp_serverRole :: string
  sp_servers :: "string list"
  sp_httpListenPort :: int
  sp_forwarderClass :: string
  sp_kafkaBroker :: string

definition SPARKNGIN_DEFAULT_CONFIG :: sparkngin_config where
  "SPARKNGIN_DEFAULT_CONFIG =
     \<lparr>sp_serverRole = ''sparkngin'', sp_servers = [''sparkngin1''], sp_httpListenPort = 8080,
      sp_forwarderClass = ''com.neverwinterdp.sparkngin.http.NullDevMessageForwarder'',
      sp_kafkaBroker = ''127.0.0.1:9092''\<rparr>"

definition SparknginCluster :: "sparkngin_config option \<Rightarrow> sparkngin_config" where
  "SparknginCluster config = (case config of Some c \<Rightarrow> c | None \<Rightarrow> SPARKNGIN_DEFAULT_CONFIG)"

definition sparkngin_installByRole :: "sparkngin_config \<Rightarrow> call list" where
  "sparkngin_installByRole c =
     [H1 ''Install the module sparkngin on the sparkngin role servers'',
      Exec (line [''module install   --member-role '', sp_serverRole c,
        ''  --autostart --module Sparkngin  -Pmodule.data.drop=true  '',
        ''-Psparkngin:http-listen-port='' @ show_int (sp_httpListenPort c), ''  '',
        ''-Psparkngin:forwarder-class='' @ sp_forwarderClass c,
        ''  -Psparkngin:forwarder-reconnect=30000  '',
        ''-Pkafka-producer:metadata.broker.list='' @ sp_kafkaBroker c])]"

definition sparkngin_installByServer :: "sparkngin_config \<Rightarrow> call list" where
  "sparkngin_installByServer c =
     concat (map (\<lambda>(i, server).
       [H1 (''Install the module Sparkngin on the '' @ server @ '' server''),
        Exec (line [''module install   --member-name '', server,
          ''  --autostart --module Sparkngin  -Pmodule.data.drop=true  '',
          ''-Psparkngin:http-listen-port='' @ show_int (sp_httpListenPort c + int i), ''  '',
          ''-Psparkngin:forwarder-class='' @ sp_forwarderClass c,
          ''  -Psparkngin:forwarder-reconnect=30000  '',
          ''-Pkafka-producer:metadata.broker.list='' @ sp_kafkaBroker c])])
       (enumerate 0 (sp_servers c)))"

definition sparkngin_uninstall :: "sparkngin_config \<Rightarrow> call list" where
  "sparkngin_uninstall c =
     [Exec (line [''module uninstall   --member-role '', sp_serverRole c, ''  --module Sparkngin --timeout 20000''])]"

record plain_config =
  pc_serverRole :: string
  pc_servers :: "string list"

definition DEMAND_SPIKE_DEFAULT_CONFIG :: plain_config where
  "DEMAND_SPIKE_DEFAULT_CONFIG = \<lparr>pc_serverRole = ''ringbearer'', pc_servers = [''ringbearer1'']\<rparr>"

definition RingBearerCluster :: "plain_config option \<Rightarrow> plain_config" where
  "RingBearerCluster config = (case config of Some c \<Rightarrow> c | None \<Rightarrow> DEMAND_SPIKE_DEFAULT_CONFIG)"

definition ringbearer_installByRole :: "plain_config \<Rightarrow> call list" where
  "ringbearer_installByRole c =
     [H1 ''Install the module RingBearer on the ringbearer role servers'',
      Exec (line [''module install   --member-role '', pc_serverRole c,
        ''  --autostart --module RingBearer  -Pmodule.data.drop=true''])]"

definition ringbearer_installByServer :: "plain_config \<Rightarrow> call list" where
  "ringbearer_installByServer c =
     concat (map (\<lambda>server.
       [H1 (''Install the module RingBearer on the '' @ server @ '' server''),
        Exec (line [''module install   --member-name '', server,
          ''  --autostart --module RingBearer  -Pmodule.data.drop=true''])])
       (pc_servers c))"

definition ringbearer_uninstall :: "plain_config \<Rightarrow> call list" where
  "ringbearer_uninstall c =
     [H1 (''Uninstall the module RingBearer on the server role '' @ pc_serverRole c),
      Exec (line [''module uninstall   --member-role '', pc_serverRole c, ''  --module RingBearer --timeout 20000''])]"

text \<open>The command that submits a job given as its JSON text, when the response passes the assertion.\<close>

definition ringbearer_submit :: "plain_config \<Rightarrow> string \<Rightarrow> string" where
  "ringbearer_submit c jsonJOB =
     line [''ringbearer submit '', ''  --member-role '' @ pc_serverRole c, ''  #{data '' @ jsonJOB @ ''}#'']"

definition ES_DEFAULT_CONFIG :: plain_config where
  "ES_DEFAULT_CONFIG = \<lparr>pc_serverRole = ''elasticsearch'', pc_servers = [''elasticsearch'']\<rparr>"

definition ElasticSearchCluster :: "plain_config option \<Rightarrow> plain_config" where
  "ElasticSearchCluster config = (case config of Some c \<Rightarrow> c | None \<Rightarrow> ES_DEFAULT_CONFIG)"

text \<open>The word before the name of the module lacks its dashes.\<close>

definition es_installByRole :: "plain_config \<Rightarrow> call list" where
  "es_installByRole c =
     [H1 (''Install the module ElasticSearch by server role '' @ pc_serverRole c),
      Exec (line [''module install  --member-role '', pc_serverRole c,
        ''  --autostart module ElasticSearch --timeout 30000  -Pmodule.data.drop=true''])]"

definition es_installByServer :: "plain_config \<Rightarrow> call list" where
  "es_installByServer c =
     concat (map (\<lambda>server.
       [H1 (''Install the module ElasticSearch by server name '' @ server),
        Exec (line [''module install  --member-name '', server,
          ''  --autostart --module ElasticSearch --timeout 30000  -Pmodule.data.drop=true''])])
       (pc_servers c))"

definition es_uninstall :: "plain_config \<Rightarrow> call list" where
  "es_uninstall c =
     [Exec (line [''module uninstall   --member-role '', pc_serverRole c, ''  --module ElasticSearch --timeout 30000''])]"

record http_config =
  http_listenPort :: int
  http_webappDir :: string
  http_serverRole :: string
  http_servers :: "string list"

definition HTTP_DEFAULT_CONFIG :: http_config where
  "HTTP_DEFAULT_CONFIG =
     \<lparr>http_listenPort = 8080, http_webappDir = ''webapp'', http_serverRole = ''generic'',
      http_servers = [''generic'']\<rparr>"

definition HttpCluster :: "http_config option \<Rightarrow> http_config" where
  "HttpCluster config = (case config of Some c \<Rightarrow> c | None \<Rightarrow> HTTP_DEFAULT_CONFIG)"

definition http_routes :: string where
  "http_routes = concat [''  -Phttp:route.names=cluster-rest,yarn-app-history'',
     ''  -Phttp:route.cluster-rest.handler=com.neverwinterdp.server.gateway.http.HttpGatewayRouteHandler'',
     ''  -Phttp:route.cluster-rest.path=/cluster/rest'',
     ''  -Phttp:route.yarn-app-history.handler=com.neverwinterdp.hadoop.yarn.app.history.AppHistoryRouteHandler'',
     ''  -Phttp:route.yarn-app-history.path=/yarn-app/history.*'']"

definition http_installByRole :: "http_config \<Rightarrow> call list" where
  "http_installByRole c =
     [H1 (''Install the module HttpGateway by server role '' @ http_serverRole c),
      Exec (line [''module install   --member-role '', http_serverRole c,
        ''  --autostart --module Http  -Pmodule.data.drop=true  '',
        ''-Phttp:port='' @ show_int (http_listenPort c), ''  '', ''-Phttp:www-dir='' @ http_webappDir c, http_routes])]"

definition http_installByServer :: "http_config \<Rightarrow> call list" where
  "http_installByServer c =
     concat (map (\<lambda>(i, server).
       [H1 (''Install the module HttpGateway by server name '' @ server),
        Exec (line [''module install   --member-name '', server,
          ''  --autostart --module Http  -Pmodule.data.drop=true  '',
          ''-Phttp:port='' @ show_int (http_listenPort c + int i), ''  '', ''-Phttp:www-dir='' @ http_webappDir c, http_routes])])
       (enumerate 0 (http_servers c)))"

definition http_uninstall :: "http_config \<Rightarrow> call list" where
  "http_uninstall c =
     [Exec (line [''module uninstall   --member-role '', http_serverRole c, ''  --module HttpGateway --timeout 20000''])]"

record yara_config =
  yara_rpcPort :: int
  yara_rpcHost :: string
  yara_server :: string

definition YARA_DEFAULT_CONFIG :: yara_config where
  "YARA_DEFAULT_CONFIG = \<lparr>yara_rpcPort = 8463, yara_rpcHost = ''127.0.0.1'', yara_server = ''generic''\<rparr>"

definition YaraModule :: "yara_config option \<Rightarrow> yara_config" where
  "YaraModule config = (case config of Some c \<Rightarrow> c | None \<Rightarrow> YARA_DEFAULT_CONFIG)"

definition yara_install :: "yara_config \<Rightarrow> call list" where
  "yara_install c =
     [H1 (''Install the module YaraServer on the server '' @ yara_server c),
      Exec (line [''module install  -Pmodule.data.drop=true '', ''-Pyara:rpc.port='' @ show_int (yara_rpcPort c),
        '' --autostart --module YaraServer --member-name '', yara_server c]),
      H1 ''Install the module YaraClient on all the servers '',
      Exec (line [''module install  -Pmodule.data.drop=true '', ''-Pyara:rpc.host='' @ yara_rpcHost c, '' '',
        ''-Pyara:rpc.port='' @ show_int (yara_rpcPort c), '' --autostart --module YaraClient --timeout 10000''])]"

definition yara_uninstall :: "yara_config \<Rightarrow> call list" where
  "yara_uninstall c =
     [Exec (line [''module uninstall   --member-name '', yara_server c, ''  --module YaraServer --timeout 20000'']),
      Exec ''module uninstall  --module YaraClient --timeout 20000'']"

section \<open>The interface of a module\<close>

definition opt :: "string \<Rightarrow> string \<Rightarrow> string option" where
  "opt k cmd = option_value k (words cmd)"

lemma per_server:
  assumes "\<And>i s. s \<in> set xs \<Longrightarrow> f (g i s) = k s"
  shows "map f (commands (concat (map (\<lambda>(i, s). [H1 (h i s), Exec (g i s)]) (enumerate n xs)))) = map k xs"
  using assms by (induction xs arbitrary: n) auto

lemma per_server_plain:
  "commands (concat (map (\<lambda>s. [H1 (h s), Exec (g s)]) xs)) = map g xs"
  by (induction xs) auto

lemma per_server_index:
  "commands (concat (map (\<lambda>(i, s). [H1 (h i s), Exec (g i s)]) (enumerate n xs))) =
   map (\<lambda>(i, s). g i s) (enumerate n xs)"
  by (induction xs arbitrary: n) auto

text \<open>A name is one word that is not read as an option.\<close>

definition is_name :: "string \<Rightarrow> bool" where
  "is_name w \<longleftrightarrow> one_word w \<and> hd w \<noteq> CHR ''-''"

lemma is_name_simps [simp]:
  "is_name w \<Longrightarrow> w \<noteq> []" "is_name w \<Longrightarrow> words w = [w]" "is_name w \<Longrightarrow> w \<noteq> CHR ''-'' # r"
  by (auto simp: is_name_def words_one one_word_def)

lemmas command_simps = opt_def words_line

text \<open>The modules that the commands name, and the lists of servers that are read as names.\<close>

definition modules_of :: "call list \<Rightarrow> string set" where
  "modules_of cs = {m. Some m \<in> set (map (opt ''--module'') (commands cs))}"

definition server_names :: "string list \<Rightarrow> bool" where
  "server_names ss \<longleftrightarrow> ss \<noteq> [] \<and> list_all is_name ss"

lemma modules_of_append: "modules_of (a @ b) = modules_of a \<union> modules_of b"
  by (auto simp: modules_of_def)

lemma modules_of_one: "map (opt ''--module'') (commands cs) = [Some m] \<Longrightarrow> modules_of cs = {m}"
  by (auto simp: modules_of_def)

text \<open>
  A module that is installed on named servers; one that can be removed by the same name; one
  whose servers can be named by their role.
\<close>

locale server_module =
  fixes byServer :: "'c \<Rightarrow> call list" and servers :: "'c \<Rightarrow> string list" and name :: string
  assumes byServer_targets:
      "list_all is_name (servers c) \<Longrightarrow> map (opt ''--member-name'') (commands (byServer c)) = map Some (servers c)"
    and byServer_module:
      "list_all is_name (servers c) \<Longrightarrow> map (opt ''--module'') (commands (byServer c)) = map (\<lambda>_. Some name) (servers c)"
begin

lemma one_command_per_server:
  "list_all is_name (servers c) \<Longrightarrow> length (commands (byServer c)) = length (servers c)"
  by (metis byServer_targets length_map)

lemma modules_installed:
  "list_all is_name (servers c) \<Longrightarrow> servers c \<noteq> [] \<Longrightarrow>
   set (map (opt ''--module'') (commands (byServer c))) = {Some name}"
  by (auto simp only: byServer_module set_map image_constant_conv set_empty if_False)

lemma modules_of_byServer: "server_names (servers c) \<Longrightarrow> modules_of (byServer c) = {name}"
proof -
  assume "server_names (servers c)"
  then have "set (map (opt ''--module'') (commands (byServer c))) = {Some name}"
    by (intro modules_installed) (simp_all add: server_names_def)
  then show ?thesis by (simp only: modules_of_def) simp
qed

lemma servers_targeted:
  "list_all is_name (servers c) \<Longrightarrow>
   set (map (opt ''--member-name'') (commands (byServer c))) = Some ` set (servers c)"
  by (simp only: byServer_targets set_map)

end

locale removable_module = server_module byServer servers name
  for byServer :: "'c \<Rightarrow> call list" and servers :: "'c \<Rightarrow> string list" and name :: string +
  fixes uninstall :: "'c \<Rightarrow> call list" and role :: "'c \<Rightarrow> string"
  assumes uninstall_module: "is_name (role c) \<Longrightarrow> map (opt ''--module'') (commands (uninstall c)) = [Some name]"
    and uninstall_role: "is_name (role c) \<Longrightarrow> map (opt ''--member-role'') (commands (uninstall c)) = [Some (role c)]"
begin

lemma modules_of_uninstall: "is_name (role c) \<Longrightarrow> modules_of (uninstall c) = {name}"
  by (intro modules_of_one uninstall_module)

lemma removes_what_it_installs:
  "list_all is_name (servers c) \<Longrightarrow> is_name (role c) \<Longrightarrow>
   set (map (opt ''--module'') (commands (byServer c))) \<subseteq> set (map (opt ''--module'') (commands (uninstall c)))"
  by (auto simp only: byServer_module uninstall_module set_map set_simps)

end

locale cluster_module = removable_module byServer servers name uninstall role
  for byServer :: "'c \<Rightarrow> call list" and servers :: "'c \<Rightarrow> string list" and name :: string
    and uninstall :: "'c \<Rightarrow> call list" and role :: "'c \<Rightarrow> string" +
  fixes byRole :: "'c \<Rightarrow> call list"
  assumes byRole_role: "is_name (role c) \<Longrightarrow> map (opt ''--member-role'') (commands (byRole c)) = [Some (role c)]"
    and byRole_module: "is_name (role c) \<Longrightarrow> map (opt ''--module'') (commands (byRole c)) = [Some name]"
begin

lemma modules_of_byRole: "is_name (role c) \<Longrightarrow> modules_of (byRole c) = {name}"
  by (intro modules_of_one byRole_module)

lemma removal_targets_the_role:
  "is_name (role c) \<Longrightarrow>
   map (\<lambda>cmd. (opt ''--member-role'' cmd, opt ''--module'' cmd)) (commands (uninstall c)) =
   map (\<lambda>cmd. (opt ''--member-role'' cmd, opt ''--module'' cmd)) (commands (byRole c))"
proof -
  assume r: "is_name (role c)"
  have "\<And>cs. map (\<lambda>cmd. (opt ''--member-role'' cmd, opt ''--module'' cmd)) cs =
      zip (map (opt ''--member-role'') cs) (map (opt ''--module'') cs)"
    by (simp add: zip_map_map zip_same_conv_map)
  with r show ?thesis by (simp only: uninstall_module uninstall_role byRole_role byRole_module)
qed

end

interpretation kafka: cluster_module kafka_installByServer kafka_servers "''Kafka''" kafka_uninstall
    kafka_serverRole kafka_installByRole
  by unfold_locales
    (simp_all add: kafka_installByServer_def kafka_uninstall_def kafka_installByRole_def command_simps
      per_server list_all_iff)

interpretation zookeeper: cluster_module zookeeper_installByServer zk_servers "''Zookeeper''" zookeeper_uninstall
    zk_serverRole zookeeper_installByRole
  by unfold_locales
    (simp_all add: zookeeper_installByServer_def zookeeper_uninstall_def zookeeper_installByRole_def command_simps
      per_server list_all_iff)

interpretation consumer: cluster_module consumer_installByServer kc_servers "''KafkaConsumer''" consumer_uninstall
    kc_serverRole consumer_installByRole
  by unfold_locales
    (simp_all add: consumer_installByServer_def consumer_uninstall_def consumer_installByRole_def command_simps
      per_server_plain list_all_iff)

interpretation sparkngin: cluster_module sparkngin_installByServer sp_servers "''Sparkngin''" sparkngin_uninstall
    sp_serverRole sparkngin_installByRole
  by unfold_locales
    (simp_all add: sparkngin_installByServer_def sparkngin_uninstall_def sparkngin_installByRole_def command_simps
      per_server list_all_iff)

interpretation ringbearer: cluster_module ringbearer_installByServer pc_servers "''RingBearer''" ringbearer_uninstall
    pc_serverRole ringbearer_installByRole
  by unfold_locales
    (simp_all add: ringbearer_installByServer_def ringbearer_uninstall_def ringbearer_installByRole_def command_simps
      per_server_plain list_all_iff)

text \<open>The command by role of ElasticSearch names no module, and HttpGateway is no module that was installed.\<close>

interpretation elasticsearch: removable_module es_installByServer pc_servers "''ElasticSearch''" es_uninstall pc_serverRole
  by unfold_locales
    (simp_all add: es_installByServer_def es_uninstall_def command_simps per_server_plain list_all_iff)

interpretation http: server_module http_installByServer http_servers "''Http''"
  by unfold_locales
    (simp_all add: http_installByServer_def command_simps per_server list_all_iff http_routes_def)

end
