(* ===== verification/Scripts.thy ===== *)
theory Scripts
  imports Deploy "HOL-Library.Sublist"
begin

text \<open>
  The scripts that deploy a cluster (\<open>local-deploy.js\<close>, \<open>min-cluster-deploy.js\<close> and
  \<open>minimum-cluster-deploy.js\<close>) over the modules of \<open>Deploy\<close>, and the facts about what they install,
  remove and connect.
\<close>

section \<open>Environments\<close>

record deployment =
  dp_http :: http_config
  dp_es :: plain_config
  dp_zk :: zookeeper_config
  dp_kafka :: kafka_config
  dp_consumer :: consumer_config
  dp_sparkngin :: sparkngin_config
  dp_ringbearer :: plain_config

definition local_kafkaConnect :: string where
  "local_kafkaConnect = ''127.0.0.1:9092,127.0.0.1:9093,127.0.0.1:9094''"

definition local_env :: "string \<Rightarrow> deployment" where
  "local_env appDir =
     \<lparr>dp_http = HttpCluster (Some \<lparr>http_listenPort = 8080, http_webappDir = appDir @ ''/../../../src/main/webapp'',
        http_serverRole = ''generic'', http_servers = [''generic'']\<rparr>),
      dp_es = ElasticSearchCluster (Some \<lparr>pc_serverRole = ''elasticsearch'',
        pc_servers = [''elasticsearch1'', ''elasticsearch2'']\<rparr>),
      dp_zk = ZookeeperCluster None,
      dp_kafka = KafkaCluster (Some \<lparr>kafka_port = 9092, kafka_zookeeperConnect = ''127.0.0.1:2181'',
        kafka_serverRole = ''kafka'', kafka_servers = [''kafka1'', ''kafka2'', ''kafka3'']\<rparr>),
      dp_consumer = KafkaConsumerCluster (Some \<lparr>kc_serverRole = ''generic'', kc_servers = [''generic''],
        kc_zookeeperConnect = ''127.0.0.1:2181''\<rparr>),
      dp_sparkngin = SparknginCluster (Some \<lparr>sp_serverRole = ''sparkngin'', sp_servers = [''sparkngin1''],
        sp_httpListenPort = 7080, sp_forwarderClass = ''com.neverwinterdp.sparkngin.KafkaMessageForwarder'',
        sp_kafkaBroker = local_kafkaConnect\<rparr>),
      dp_ringbearer = RingBearerCluster None\<rparr>"

definition local_yara :: yara_config where
  "local_yara = YaraModule (Some \<lparr>yara_rpcPort = 8463, yara_rpcHost = ''127.0.0.1'', yara_server = ''generic''\<rparr>)"

definition local_install :: "deployment \<Rightarrow> yara_config \<Rightarrow> call list" where
  "local_install e y =
     http_installByServer (dp_http e) @ es_installByServer (dp_es e) @ zookeeper_installByServer (dp_zk e) @
     kafka_installByServer (dp_kafka e) @ consumer_installByServer (dp_consumer e) @
     sparkngin_installByServer (dp_sparkngin e) @ ringbearer_installByServer (dp_ringbearer e) @
     yara_install y @ [Exec ''module list'']"

text \<open>The three scripts remove the modules in the same order; the local one removes Yara besides.\<close>

definition cluster_uninstall :: "deployment \<Rightarrow> call list" where
  "cluster_uninstall e =
     ringbearer_uninstall (dp_ringbearer e) @ sparkngin_uninstall (dp_sparkngin e) @ kafka_uninstall (dp_kafka e) @
     consumer_uninstall (dp_consumer e) @ zookeeper_uninstall (dp_zk e) @ http_uninstall (dp_http e) @
     es_uninstall (dp_es e)"

definition local_uninstall :: "deployment \<Rightarrow> yara_config \<Rightarrow> call list" where
  "local_uninstall e y = cluster_uninstall e @ yara_uninstall y"

definition min_kafkaConnect :: string where
  "min_kafkaConnect = ''kafka-1:9092,kafka-2:9092''"

definition cluster_env :: "string \<Rightarrow> string \<Rightarrow> deployment" where
  "cluster_env forwarderClass appDir =
     \<lparr>dp_http = HttpCluster (Some \<lparr>http_listenPort = 8080, http_webappDir = appDir @ ''/webapp'',
        http_serverRole = ''generic'', http_servers = [''generic'']\<rparr>),
      dp_es = ElasticSearchCluster (Some \<lparr>pc_serverRole = ''generic'', pc_servers = [''generic'']\<rparr>),
      dp_zk = ZookeeperCluster (Some \<lparr>zk_listenPort = 2181, zk_serverRole = ''zookeeper'', zk_servers = [''zookeeper-1'']\<rparr>),
      dp_kafka = KafkaCluster (Some \<lparr>kafka_port = 9092, kafka_zookeeperConnect = ''zookeeper-1:2181'',
        kafka_serverRole = ''kafka'', kafka_servers = [''kafka-1'', ''kafka-2'']\<rparr>),
      dp_consumer = KafkaConsumerCluster (Some \<lparr>kc_serverRole = ''generic'', kc_servers = [''generic''],
        kc_zookeeperConnect = ''zookeeper-1:2181''\<rparr>),
      dp_sparkngin = SparknginCluster (Some \<lparr>sp_serverRole = ''sparkngin'', sp_servers = [''sparkngin-1''],
        sp_httpListenPort = 7080, sp_forwarderClass = forwarderClass, sp_kafkaBroker = min_kafkaConnect\<rparr>),
      dp_ringbearer = RingBearerCluster (Some \<lparr>pc_serverRole = ''generic'', pc_servers = [''generic'']\<rparr>)\<rparr>"

definition min_env :: "string \<Rightarrow> deployment" where
  "min_env = cluster_env ''com.neverwinterdp.sparkngin.KafkaMessageForwarder''"

definition minimum_env :: "string \<Rightarrow> deployment" where
  "minimum_env = cluster_env ''com.neverwinterdp.sparkngin.http.KafkaMessageForwarder''"

definition min_install :: "deployment \<Rightarrow> call list" where
  "min_install e =
     http_installByRole (dp_http e) @ es_installByRole (dp_es e) @ zookeeper_installByRole (dp_zk e) @
     kafka_installByRole (dp_kafka e) @ consumer_installByRole (dp_consumer e) @
     sparkngin_installByRole (dp_sparkngin e) @ ringbearer_installByRole (dp_ringbearer e) @
     [ListModules ''module list'']"

definition minimum_install :: "deployment \<Rightarrow> call list" where
  "minimum_install e =
     http_installByServer (dp_http e) @ es_installByServer (dp_es e) @ zookeeper_installByServer (dp_zk e) @
     kafka_installByServer (dp_kafka e) @ consumer_installByServer (dp_consumer e) @
     sparkngin_installByServer (dp_sparkngin e) @ ringbearer_installByServer (dp_ringbearer e) @
     [ListModules ''module list'']"

text \<open>The names and roles of an environment are names, and every module has a server.\<close>

definition named :: "deployment \<Rightarrow> bool" where
  "named e \<longleftrightarrow>
     list_all is_name [http_serverRole (dp_http e), pc_serverRole (dp_es e), zk_serverRole (dp_zk e),
       kafka_serverRole (dp_kafka e), kc_serverRole (dp_consumer e), sp_serverRole (dp_sparkngin e),
       pc_serverRole (dp_ringbearer e)] \<and>
     list_all server_names [http_servers (dp_http e), pc_servers (dp_es e), zk_servers (dp_zk e),
       kafka_servers (dp_kafka e), kc_servers (dp_consumer e), sp_servers (dp_sparkngin e),
       pc_servers (dp_ringbearer e)]"

lemma named_environments [simp]:
  "named (local_env d)" "named (cluster_env f d)" "named (min_env d)" "named (minimum_env d)"
  by (simp_all add: named_def server_names_def is_name_def one_word_def local_env_def cluster_env_def
      min_env_def minimum_env_def HttpCluster_def ElasticSearchCluster_def ZookeeperCluster_def
      KafkaCluster_def KafkaConsumerCluster_def SparknginCluster_def RingBearerCluster_def
      ZOOKEEPER_DEFAULT_CONFIG_def DEMAND_SPIKE_DEFAULT_CONFIG_def)

section \<open>What is installed and removed\<close>

lemma modules_of_list [simp]: "modules_of [Exec ''module list''] = {}" "modules_of [ListModules s] = {}"
  by (simp_all add: modules_of_def opt_def)

lemmas modules_by_server =
  http.modules_of_byServer elasticsearch.modules_of_byServer zookeeper.modules_of_byServer
  kafka.modules_of_byServer consumer.modules_of_byServer sparkngin.modules_of_byServer
  ringbearer.modules_of_byServer

lemmas modules_by_role =
  zookeeper.modules_of_byRole kafka.modules_of_byRole consumer.modules_of_byRole
  sparkngin.modules_of_byRole ringbearer.modules_of_byRole

lemmas modules_removed =
  elasticsearch.modules_of_uninstall zookeeper.modules_of_uninstall kafka.modules_of_uninstall
  consumer.modules_of_uninstall sparkngin.modules_of_uninstall ringbearer.modules_of_uninstall

text \<open>The two modules without a uniform name, and the Yara module, which has two names.\<close>

lemma modules_of_es_by_role: "is_name (pc_serverRole p) \<Longrightarrow> modules_of (es_installByRole p) = {}"
  by (simp add: modules_of_def es_installByRole_def command_simps)

lemma modules_of_http_by_role: "is_name (http_serverRole h) \<Longrightarrow> modules_of (http_installByRole h) = {''Http''}"
  by (simp add: modules_of_def http_installByRole_def command_simps http_routes_def)

lemma modules_of_http_removed: "is_name (http_serverRole h) \<Longrightarrow> modules_of (http_uninstall h) = {''HttpGateway''}"
  by (simp add: modules_of_def http_uninstall_def command_simps)

lemma modules_of_yara_installed:
  "is_name (yara_server y) \<Longrightarrow> one_word (yara_rpcHost y) \<Longrightarrow> modules_of (yara_install y) = {''YaraServer'', ''YaraClient''}"
  by (auto simp add: modules_of_def yara_install_def command_simps one_word_scan)

lemma modules_of_yara_removed:
  "is_name (yara_server y) \<Longrightarrow> modules_of (yara_uninstall y) = {''YaraServer'', ''YaraClient''}"
  by (auto simp add: modules_of_def yara_uninstall_def command_simps)

lemmas module_sets =
  modules_of_append modules_by_server modules_by_role modules_removed modules_of_es_by_role
  modules_of_http_by_role modules_of_http_removed modules_of_yara_installed modules_of_yara_removed

text \<open>
  C35: What the uninstallation leaves behind. In every environment whose servers and roles are
  names, the local installation installs nine modules, and the uninstallation names each of them
  again except Http, which it removes under the name HttpGateway that nothing was installed
  under.\<close>
theorem uninstall_leaves_http:
  assumes "named e" "is_name (yara_server y)" "one_word (yara_rpcHost y)"
  shows "modules_of (local_install e y) =
      {''Http'', ''ElasticSearch'', ''Zookeeper'', ''Kafka'', ''KafkaConsumer'', ''Sparkngin'', ''RingBearer'',
       ''YaraServer'', ''YaraClient''} \<and>
    modules_of (local_install e y) - modules_of (local_uninstall e y) = {''Http''} \<and>
    modules_of (local_uninstall e y) - modules_of (local_install e y) = {''HttpGateway''}"
proof -
  have "modules_of (local_install e y) =
      {''Http'', ''ElasticSearch'', ''Zookeeper'', ''Kafka'', ''KafkaConsumer'', ''Sparkngin'', ''RingBearer'',
       ''YaraServer'', ''YaraClient''}"
    using assms by (simp add: local_install_def named_def module_sets insert_commute)
  moreover have "modules_of (local_uninstall e y) =
      {''HttpGateway'', ''ElasticSearch'', ''Zookeeper'', ''Kafka'', ''KafkaConsumer'', ''Sparkngin'', ''RingBearer'',
       ''YaraServer'', ''YaraClient''}"
    using assms by (simp add: local_uninstall_def cluster_uninstall_def named_def module_sets insert_commute)
  ultimately show ?thesis by (simp add: insert_Diff_if)
qed

theorem uninstall_leaves_http_witness:
  "modules_of (local_install (local_env ''/opt/app'') local_yara) -
   modules_of (local_uninstall (local_env ''/opt/app'') local_yara) = {''Http''}"
  by (rule conjunct1 [OF conjunct2 [OF uninstall_leaves_http]])
    (simp_all add: local_yara_def YaraModule_def is_name_def one_word_def)

text \<open>
  Installing by role. In the environments of the two cluster scripts, the script that
  installs by role names every module except ElasticSearch, because the option of that command
  lacks its dashes; the script that installs by server names all seven.\<close>
lemma by_role_forgets_elasticsearch:
  assumes "named e"
  shows "modules_of (minimum_install e) =
      {''Http'', ''ElasticSearch'', ''Zookeeper'', ''Kafka'', ''KafkaConsumer'', ''Sparkngin'', ''RingBearer''} \<and>
    modules_of (minimum_install e) - modules_of (min_install e) = {''ElasticSearch''} \<and>
    modules_of (min_install e) \<subseteq> modules_of (minimum_install e)"
proof -
  have "modules_of (minimum_install e) =
      {''Http'', ''ElasticSearch'', ''Zookeeper'', ''Kafka'', ''KafkaConsumer'', ''Sparkngin'', ''RingBearer''}"
    using assms by (simp add: minimum_install_def named_def module_sets insert_commute)
  moreover have "modules_of (min_install e) =
      {''Http'', ''Zookeeper'', ''Kafka'', ''KafkaConsumer'', ''Sparkngin'', ''RingBearer''}"
    using assms by (simp add: min_install_def named_def module_sets insert_commute)
  ultimately show ?thesis by (simp add: insert_Diff_if)
qed

lemma by_role_forgets_elasticsearch_witness:
  "modules_of (minimum_install (minimum_env ''/opt/app'')) - modules_of (min_install (minimum_env ''/opt/app'')) =
   {''ElasticSearch''}"
  by (rule conjunct1 [OF conjunct2 [OF by_role_forgets_elasticsearch]]) simp

section \<open>Ports and addresses\<close>

text \<open>The value of an option that is written in one word with its name.\<close>

definition word_value :: "string \<Rightarrow> string \<Rightarrow> string option" where
  "word_value p cmd = map_option (drop (length p)) (List.find (prefix p) (words cmd))"

definition port_words :: "string \<Rightarrow> call list \<Rightarrow> string option list" where
  "port_words p cs = map (word_value p) (commands cs)"

definition consecutive :: "int \<Rightarrow> 'a list \<Rightarrow> string option list" where
  "consecutive port ss = map (\<lambda>i. Some (show_int (port + int i))) [0..<length ss]"


lemma per_server_ports:
  assumes "\<And>i s. s \<in> set ss \<Longrightarrow> word_value p (g i s) = Some (show_int (port + int i))"
  shows "port_words p (concat (map (\<lambda>(i, s). [H1 (h i s), Exec (g i s)]) (enumerate 0 ss))) = consecutive port ss"
proof -
  have "map (\<lambda>(i, s). word_value p (g i s)) (enumerate n ss) =
      map (\<lambda>i. Some (show_int (port + int i))) [n..<n + length ss]" for n
    using assms
    by (induction ss arbitrary: n) (auto simp: upt_conv_Cons simp del: upt_Suc)
  from this [of 0] show ?thesis
    by (simp only: port_words_def consecutive_def per_server_index) (simp add: comp_def case_prod_unfold)
qed

lemma name_no_option [simp]: "is_name w \<Longrightarrow> \<not> prefix (CHR ''-'' # r) w"
  by (cases w) (auto simp: is_name_def)

lemmas port_simps = word_value_def words_line one_word_scan server_names_def list_all_iff

lemma kafka_ports:
  "named e \<Longrightarrow> port_words ''-Pkafka:port='' (kafka_installByServer (dp_kafka e)) =
    consecutive (kafka_port (dp_kafka e)) (kafka_servers (dp_kafka e))"
  unfolding kafka_installByServer_def by (intro per_server_ports) (simp add: port_simps named_def)






definition endpoints :: "string list \<Rightarrow> string option list \<Rightarrow> string" where
  "endpoints hosts ports =
     join_with '','' (map2 (\<lambda>h p. h @ '':'' @ (case p of Some q \<Rightarrow> q | None \<Rightarrow> [])) hosts ports)"

lemma port_words_append: "port_words p (a @ b) = port_words p a @ port_words p b"
  by (simp add: port_words_def)

lemma kafka_port_by_role:
  "is_name (kafka_serverRole c) \<Longrightarrow>
   port_words ''-Pkafka:port='' (kafka_installByRole c) = [Some (show_int (kafka_port c))]"
  by (simp add: kafka_installByRole_def port_words_def port_simps)

text \<open>
  The brokers Sparkngin is given are where Kafka listens: on three ports of one machine in
  the local deployment, and in the cluster that is installed by role, whose command reaches every
  server of the role, on one port of each machine. The cluster script that installs by server numbers
  the ports as if its servers shared a machine, so its second broker listens on a port that the
  list does not name.\<close>
lemma broker_lists_and_ports:
  "endpoints (map (\<lambda>_. ''127.0.0.1'') (kafka_servers (dp_kafka (local_env d))))
     (port_words ''-Pkafka:port='' (kafka_installByServer (dp_kafka (local_env d)))) = sp_kafkaBroker (dp_sparkngin (local_env d)) \<and>
   endpoints (kafka_servers (dp_kafka (min_env d)))
     (concat (map (\<lambda>_. port_words ''-Pkafka:port='' (kafka_installByRole (dp_kafka (min_env d)))) (kafka_servers (dp_kafka (min_env d))))) =
     sp_kafkaBroker (dp_sparkngin (min_env d)) \<and>
   endpoints (kafka_servers (dp_kafka (minimum_env d)))
     (port_words ''-Pkafka:port='' (kafka_installByServer (dp_kafka (minimum_env d)))) = ''kafka-1:9092,kafka-2:9093'' \<and>
   sp_kafkaBroker (dp_sparkngin (minimum_env d)) = ''kafka-1:9092,kafka-2:9092''"
proof -
  have role: "is_name (kafka_serverRole (dp_kafka (min_env d)))"
    using named_environments(3) [of d] by (simp add: named_def)
  show ?thesis
    by (simp add: kafka_ports kafka_port_by_role [OF role] port_words_append)
      (simp add: show_nat.simps digit_char_def char_of_def bit_Suc_0_iff  local_env_def min_env_def minimum_env_def cluster_env_def KafkaCluster_def SparknginCluster_def
        endpoints_def consecutive_def local_kafkaConnect_def min_kafkaConnect_def upt_conv_Cons show_int_def)
qed

end
