(* ===== verification/Jobs.thy ===== *)
theory Jobs
  imports Scripts "HOL-Library.Multiset"
begin

text \<open>
  The jobs of \<open>app/jscript/ringbearer/job\<close> and the scripts that submit them. A job is a function of the
  variables that its submission defines; it yields the calls it makes and the error that stops it.
  The protocol \<open>svc_steps\<close> says which of its commands on services fit what it has stopped before.
\<close>

section \<open>The jobs\<close>

type_synonym vars = "string \<Rightarrow> string option"
type_synonym outcome = "call list \<times> js_error option"

definition dflt :: "vars \<Rightarrow> string \<Rightarrow> string \<Rightarrow> string" where
  "dflt vars x d = (case vars x of Some v \<Rightarrow> v | None \<Rightarrow> d)"

text \<open>The five commands that the Kafka jobs share.\<close>

definition kafka_restart :: "call list" where
  "kafka_restart =
     [Exec ''service stop    --member-role generic --module KafkaConsumer --service-id KafkaMetricsConsumerService --timeout 60000'',
      Exec ''service stop    --member-role kafka   --module Kafka         --service-id KafkaClusterService         --timeout 60000'',
      Exec ''service cleanup --member-role kafka   --module Kafka         --service-id KafkaClusterService         --timeout 60000'',
      Exec ''service start   --member-role kafka   --module Kafka         --service-id KafkaClusterService         --timeout 60000'',
      Exec ''service start   --member-role generic --module KafkaConsumer --service-id KafkaMetricsConsumerService --timeout 60000'']"

definition kafka_hello_job :: "vars \<Rightarrow> outcome" where
  "kafka_hello_job vars =
     (let MAX_DURATION = dflt vars ''MAX_DURATION'' ''60000'';
          KAFKA_BROKER = dflt vars ''KAFKA_BROKER'' ''kafka-1:9092,kafka-2:9092''
      in ([Exec (line ['':echo MAX_DURATION = '', MAX_DURATION]),
           Exec (line ['':echo KAFKA_BROKER = '', KAFKA_BROKER]),
           Exec ''server metric-clear --expression *'',
           Exec ''ringbearer:job send --max-num-of-message 1000'',
           Exec (line [''ringbearer:job simulation '',
             ''  --name service-failure --target-member-role kafka --module Kafka --service-id KafkaClusterService '',
             ''  --delay 3000 --period 5000 --failure-time 1000'']),
           Exec (line [''ringbearer:job send '', ''  --driver kafka --broker-connect '', KAFKA_BROKER,
             ''  --topic metrics.consumer --max-num-of-message 1000''])],
          None))"

definition kafka_property_job :: "vars \<Rightarrow> outcome" where
  "kafka_property_job vars =
     (let MAX_DURATION = dflt vars ''MAX_DURATION'' ''60000'';
          KAFKA_BROKER = dflt vars ''KAFKA_BROKER'' ''127.0.0.1:9092'';
          MESSAGE_SIZE = dflt vars ''MESSAGE_SIZE'' ''1024'';
          DRIVER_PROPERTY = (case vars ''PROPERTY'' of
              Some p \<Rightarrow> if p \<noteq> [] then '' --driver:'' @ p else [] | None \<Rightarrow> []);
          echoed = [Exec (line ['':echo MAX_DURATION = '', MAX_DURATION]),
                    Exec (line ['':echo KAFKA_BROKER = '', KAFKA_BROKER]),
                    Exec (line ['':echo MESSAGE_SIZE = '', MESSAGE_SIZE])]
      in case vars ''PROPERTY'' of
           None \<Rightarrow> (echoed, Some (ReferenceError ''PROPERTY''))
         | Some PROPERTY \<Rightarrow>
             (echoed @ [Exec (line ['':echo PROPERTY = '', PROPERTY])] @ kafka_restart @
              [Exec (line [''ringbearer:job send '', ''  --driver kafka '', DRIVER_PROPERTY, '' --broker-connect '', KAFKA_BROKER,
                 ''  --topic metrics.consumer  --max-duration '', MAX_DURATION, ''  --message-size '', MESSAGE_SIZE]),
               Exec ''server metric''], None))"

definition kafka_failure_job :: "vars \<Rightarrow> outcome" where
  "kafka_failure_job vars =
     (let MAX_DURATION = dflt vars ''MAX_DURATION'' ''180000'';
          KAFKA_BROKER = dflt vars ''KAFKA_BROKER'' ''127.0.0.1:9092'';
          MESSAGE_SIZE = dflt vars ''MESSAGE_SIZE'' ''1024''
      in ([Exec (line ['':echo MAX_DURATION = '', MAX_DURATION]),
           Exec (line ['':echo KAFKA_BROKER = '', KAFKA_BROKER]),
           Exec (line ['':echo MESSAGE_SIZE = '', MESSAGE_SIZE]),
           Exec ''server metric-clear --expression *''] @ kafka_restart @
          [Exec (line [''ringbearer:job simulation '',
             ''  --name service-failure --target-member-role kafka --module Kafka --service-id KafkaClusterService '',
             ''  --delay 3000 --period 15000 --failure-time 5000'']),
           Exec (line [''ringbearer:job send '', ''  --driver kafka --broker-connect '', KAFKA_BROKER,
             ''  --topic metrics.consumer --max-num-of-message 5000000 --max-duration '', MAX_DURATION,
             ''  --message-size '', MESSAGE_SIZE]),
           Exec ''server metric''], None))"

definition kafka_message_size_job :: "vars \<Rightarrow> outcome" where
  "kafka_message_size_job vars =
     (let MAX_DURATION = dflt vars ''MAX_DURATION'' ''60000'';
          KAFKA_BROKER = dflt vars ''KAFKA_BROKER'' ''127.0.0.1:9092'';
          MESSAGE_SIZE = dflt vars ''MESSAGE_SIZE'' ''1024''
      in ([Exec (line ['':echo MAX_DURATION = '', MAX_DURATION]),
           Exec (line ['':echo KAFKA_BROKER = '', KAFKA_BROKER]),
           Exec (line ['':echo MESSAGE_SIZE = '', MESSAGE_SIZE]),
           Exec ''server metric-clear --expression *''] @ kafka_restart @
          [Exec (line [''ringbearer:job send '', ''  --driver kafka --broker-connect '', KAFKA_BROKER,
             ''  --topic metrics.consumer --max-num-of-message 5000000 --max-duration '', MAX_DURATION,
             ''  --message-size '', MESSAGE_SIZE]),
           Exec ''server metric''], None))"

definition kafka_request_ack_job :: "vars \<Rightarrow> outcome" where
  "kafka_request_ack_job vars =
     (let MAX_DURATION = dflt vars ''MAX_DURATION'' ''60000'';
          KAFKA_BROKER = dflt vars ''KAFKA_BROKER'' ''127.0.0.1:9092'';
          MESSAGE_SIZE = dflt vars ''MESSAGE_SIZE'' ''1024'';
          REQUEST_ACK = dflt vars ''REQUEST_ACK'' ''1''
      in ([Exec (line ['':echo MAX_DURATION = '', MAX_DURATION]),
           Exec (line ['':echo KAFKA_BROKER = '', KAFKA_BROKER]),
           Exec (line ['':echo MESSAGE_SIZE = '', MESSAGE_SIZE]),
           Exec (line ['':echo REQUEST_ACK  = '', REQUEST_ACK]),
           Exec ''server metric-clear --expression *''] @ kafka_restart @
          [Exec (line [''ringbearer:job send '', ''  --driver kafka  --driver:request.required.acks='', REQUEST_ACK,
             ''  --broker-connect '', KAFKA_BROKER,
             ''  --topic metrics.consumer --max-num-of-message 5000000 --max-duration '', MAX_DURATION,
             ''  --message-size '', MESSAGE_SIZE]),
           Exec ''server metric''], None))"

definition kafka_replication_job :: "vars \<Rightarrow> outcome" where
  "kafka_replication_job vars =
     (let MAX_DURATION = dflt vars ''MAX_DURATION'' ''60000'';
          KAFKA_BROKER = dflt vars ''KAFKA_BROKER'' ''127.0.0.1:9092'';
          MESSAGE_SIZE = dflt vars ''MESSAGE_SIZE'' ''1024'';
          REQUEST_ACK = dflt vars ''REQUEST_ACK'' ''1'';
          REPLICATION = dflt vars ''REPLICATION'' ''1''
      in ([Exec (line ['':echo MAX_DURATION = '', MAX_DURATION]),
           Exec (line ['':echo KAFKA_BROKER = '', KAFKA_BROKER]),
           Exec (line ['':echo MESSAGE_SIZE = '', MESSAGE_SIZE]),
           Exec (line ['':echo REQUEST_ACK  = '', REQUEST_ACK]),
           Exec (line ['':echo REPLICATION  = '', REPLICATION]),
           Exec ''server metric-clear --expression *'',
           Exec ''service stop      --member-role generic --module KafkaConsumer --service-id KafkaMetricsConsumerService --timeout 60000'',
           Exec ''service stop      --member-role kafka   --module Kafka         --service-id KafkaClusterService         --timeout 60000'',
           Exec ''service cleanup   --member-role kafka   --module Kafka         --service-id KafkaClusterService         --timeout 60000'',
           Exec (line [''service configure --member-role kafka   --module Kafka         --service-id KafkaClusterService         --timeout 60000'',
             ''  -Pkafka:default.replication.factor='' @ REPLICATION]),
           Exec ''service start     --member-role kafka   --module Kafka         --service-id KafkaClusterService         --timeout 60000'',
           Exec ''service start     --member-role generic --module KafkaConsumer --service-id KafkaMetricsConsumerService --timeout 60000'',
           Exec (line [''ringbearer:job send '', ''  --driver kafka  --driver:request.required.acks='', REQUEST_ACK,
             ''  --broker-connect '', KAFKA_BROKER,
             ''  --topic metrics.consumer --max-num-of-message 5000000 --max-duration '', MAX_DURATION,
             ''  --message-size '', MESSAGE_SIZE]),
           Exec ''server metric'',
           Exec '':echo Reset the kafka replication configuration to 2'',
           Exec (line [''service configure --member-role kafka   --module Kafka         --service-id KafkaClusterService         --timeout 60000'',
             ''  -Pkafka:default.replication.factor=2''])], None))"

definition sparkngin_hello_job :: "vars \<Rightarrow> outcome" where
  "sparkngin_hello_job vars =
     (let MAX_DURATION = dflt vars ''MAX_DURATION'' ''60000'';
          SPARKNGIN_BROKER = dflt vars ''SPARKNGIN_BROKER'' ''127.0.0.1:7080''
      in ([Exec (line ['':echo MAX_DURATION     = '', MAX_DURATION]),
           Exec (line ['':echo SPARKNGIN_BROKER = '', SPARKNGIN_BROKER]),
           Exec ''server metric-clear --expression *'',
           Exec ''ringbearer:job send --max-num-of-message 1000'',
           Exec (line [''ringbearer:job send '', ''  --driver sparkngin --broker-connect '', SPARKNGIN_BROKER,
             ''  --topic metrics.consumer --max-num-of-message 1000'']),
           Exec '':echo Server metrics'',
           Exec '':echo *****************************************************************************************'',
           Exec ''server metric''], None))"

definition sparkngin_load_job :: "vars \<Rightarrow> outcome" where
  "sparkngin_load_job vars =
     (let MAX_DURATION = dflt vars ''MAX_DURATION'' ''60000'';
          SPARKNGIN_BROKER = dflt vars ''SPARKNGIN_BROKER'' ''127.0.0.1:7080''
      in ([Exec (line ['':echo MAX_DURATION     = '', MAX_DURATION]),
           Exec (line ['':echo SPARKNGIN_BROKER = '', SPARKNGIN_BROKER]),
           Exec ''server metric-clear --expression *'',
           Exec ''service stop    --member-role generic   --module KafkaConsumer --service-id KafkaMetricsConsumerService --timeout 60000'',
           Exec ''service stop    --member-role sparkngin --module Sparkngin     --service-id SparknginClusterHttpService --timeout 60000'',
           Exec ''service stop    --member-role kafka     --module Kafka         --service-id KafkaClusterService         --timeout 60000'',
           Exec ''service stop    --member-role zookeeper --module Zookeeper     --service-id ZookeeperClusterService     --timeout 60000'',
           Exec ''service start   --member-role zookeeper --module Zookeeper     --service-id ZookeeperClusterService     --cleanup  --timeout 60000'',
           Exec ''service start   --member-role kafka     --module Kafka         --service-id KafkaClusterService         --cleanup  --timeout 60000'',
           Exec ''service start   --member-role generic   --module KafkaConsumer --service-id KafkaMetricsConsumerService --cleanup  --timeout 60000'',
           Exec ''service start   --member-role sparkngin --module Sparkngin     --service-id SparknginClusterHttpService --cleanup  --timeout 60000'',
           Exec (line [''ringbearer:job send '', ''  --driver sparkngin --broker-connect '', SPARKNGIN_BROKER,
             ''  --topic metrics.consumer --max-num-of-message 5000000 --max-duration '', MAX_DURATION]),
           Exec '':echo Server metrics'',
           Exec '':echo *****************************************************************************************'',
           Exec ''server metric''], None))"

section \<open>The protocol of the services\<close>

text \<open>
  The commands that touch services: those of \<open>service\<close>, and the start of a simulation of failures. Such
  a simulation stops and starts the service of one random member of the role, again and again on a
  timer of its own, until the shell is closed (\<open>ServiceFailureSimulator\<close>); the model only has the command.
\<close>

definition service_action :: "string \<Rightarrow> (string \<times> string) option" where
  "service_action cmd =
     (case words cmd of
        k # a # r \<Rightarrow>
          if k = ''service'' \<or> k = ''ringbearer:job'' \<and> a = ''simulation''
          then map_option (\<lambda>s. (a, s)) (option_value ''--service-id'' r) else None
      | _ \<Rightarrow> None)"

definition service_actions :: "call list \<Rightarrow> (string \<times> string) list" where
  "service_actions cs = List.map_filter service_action (commands cs)"

text \<open>
  The state is the list of the services that the commands have stopped. A service is stopped, and given
  to a simulation, while it runs; it is cleaned and started while it is stopped.
\<close>

inductive svc_step :: "string list \<Rightarrow> string \<times> string \<Rightarrow> string list \<Rightarrow> bool" where
  stop: "s \<notin> set st \<Longrightarrow> svc_step st (''stop'', s) (s # st)"
| cleanup: "s \<in> set st \<Longrightarrow> svc_step st (''cleanup'', s) st"
| configure: "svc_step st (''configure'', s) st"
| start: "s \<in> set st \<Longrightarrow> svc_step st (''start'', s) (removeAll s st)"
| simulation: "s \<notin> set st \<Longrightarrow> svc_step st (''simulation'', s) st"

inductive svc_steps :: "string list \<Rightarrow> (string \<times> string) list \<Rightarrow> string list \<Rightarrow> bool" where
  finished: "svc_steps st [] st"
| more: "svc_step st a st' \<Longrightarrow> svc_steps st' acts st'' \<Longrightarrow> svc_steps st (a # acts) st''"

inductive_simps svc_step_simps:
  "svc_step st (''stop'', s) st'" "svc_step st (''cleanup'', s) st'"
  "svc_step st (''configure'', s) st'" "svc_step st (''start'', s) st'" "svc_step st (''simulation'', s) st'"

inductive_simps svc_steps_simps [simp]: "svc_steps st [] st'" "svc_steps st (a # acts) st'"

text \<open>The services an action of the name is done to, in order.\<close>

definition done_to :: "string \<Rightarrow> (string \<times> string) list \<Rightarrow> string list" where
  "done_to a acts = map snd (filter (\<lambda>x. fst x = a) acts)"

lemma done_to_simps [simp]:
  "done_to a [] = []" "done_to a ((b, s) # acts) = (if b = a then s # done_to a acts else done_to a acts)"
  by (simp_all add: done_to_def)

text \<open>A run that ends with nothing stopped has started each service as often as it stopped it.\<close>

lemma steps_balance:
  "svc_steps st acts st' \<Longrightarrow> distinct st \<Longrightarrow>
   distinct st' \<and> mset st + mset (done_to ''stop'' acts) = mset st' + mset (done_to ''start'' acts)"
proof (induction rule: svc_steps.induct)
  case (more st a st' acts st'')
  from more(1) show ?case
  proof cases
    case (start s)
    then have "mset st = add_mset s (mset st')"
      using more(4) by (simp flip: distinct_remove1_removeAll)
    with start more show ?thesis by (simp add: distinct_removeAll)
  qed (use more in auto)
qed simp

section \<open>What the jobs do to the services\<close>

lemma service_actions_append [simp]: "service_actions (a @ b) = service_actions a @ service_actions b"
  by (simp add: service_actions_def List.map_filter_def)

lemma service_actions_simps [simp]:
  "service_actions [] = []"
  "service_actions (Exec c # cs) =
     (case service_action c of Some a \<Rightarrow> a # service_actions cs | None \<Rightarrow> service_actions cs)"
  by (simp_all add: service_actions_def List.map_filter_def split: option.split)

lemma no_service_command [simp]:
  "service_action (line ((CHR '':'' # s) # r)) = None"
  "service_action (CHR '':'' # s) = None"
  "service_action (line (''ringbearer:job send '' # r)) = None"
  "service_action ''server metric'' = None" "service_action ''server metric-clear --expression *'' = None"
  "service_action ''ringbearer:job send --max-num-of-message 1000'' = None"
proof -
  have "words (''ringbearer:job send '' @ concat r) = words ''ringbearer:job send'' @ words (concat r)"
    using words_blank [of "''ringbearer:job send''" "concat r"] by simp
  then show "service_action (line (''ringbearer:job send '' # r)) = None"
    by (simp add: service_action_def line_def)
qed (simp_all add: service_action_def line_def split: list.split)

lemma simulation_actions [simp]:
  "service_action (line [''ringbearer:job simulation '',
     ''  --name service-failure --target-member-role kafka --module Kafka --service-id KafkaClusterService '',
     ''  --delay 3000 --period '' @ p]) = Some (''simulation'', ''KafkaClusterService'')"
  by (simp add: service_action_def line_def)

lemma kafka_restart_actions:
  "service_actions kafka_restart =
     [(''stop'', ''KafkaMetricsConsumerService''), (''stop'', ''KafkaClusterService''),
      (''cleanup'', ''KafkaClusterService''),
      (''start'', ''KafkaClusterService''), (''start'', ''KafkaMetricsConsumerService'')]"
  by (simp add: kafka_restart_def service_action_def)

lemmas job_defs =
  kafka_hello_job_def kafka_property_job_def kafka_failure_job_def kafka_message_size_job_def
  kafka_request_ack_job_def kafka_replication_job_def sparkngin_hello_job_def sparkngin_load_job_def

lemma kafka_job_actions:
  "service_actions (fst (kafka_hello_job vars)) = [(''simulation'', ''KafkaClusterService'')]"
  "service_actions (fst (kafka_property_job vars)) =
     (if vars ''PROPERTY'' = None then [] else service_actions kafka_restart)"
  "service_actions (fst (kafka_failure_job vars)) =
     service_actions kafka_restart @ [(''simulation'', ''KafkaClusterService'')]"
  "service_actions (fst (kafka_message_size_job vars)) = service_actions kafka_restart"
  "service_actions (fst (kafka_request_ack_job vars)) = service_actions kafka_restart"
  using simulation_actions [of "''5000 --failure-time 1000''"] simulation_actions [of "''15000 --failure-time 5000''"]
  by (simp_all add: job_defs Let_def split: option.split)

lemma kafka_replication_actions:
  "service_actions (fst (kafka_replication_job vars)) =
     [(''stop'', ''KafkaMetricsConsumerService''), (''stop'', ''KafkaClusterService''),
      (''cleanup'', ''KafkaClusterService''), (''configure'', ''KafkaClusterService''),
      (''start'', ''KafkaClusterService''), (''start'', ''KafkaMetricsConsumerService''),
      (''configure'', ''KafkaClusterService'')]"
  by (simp add: kafka_replication_job_def Let_def) (simp add: service_action_def line_def)

lemma sparkngin_job_actions:
  "service_actions (fst (sparkngin_hello_job vars)) = []"
  "service_actions (fst (sparkngin_load_job vars)) =
     [(''stop'', ''KafkaMetricsConsumerService''), (''stop'', ''SparknginClusterHttpService''),
      (''stop'', ''KafkaClusterService''), (''stop'', ''ZookeeperClusterService''),
      (''start'', ''ZookeeperClusterService''), (''start'', ''KafkaClusterService''),
      (''start'', ''KafkaMetricsConsumerService''), (''start'', ''SparknginClusterHttpService'')]"
  by (simp_all add: sparkngin_hello_job_def sparkngin_load_job_def Let_def) (simp add: service_action_def line_def)

definition jobs :: "(vars \<Rightarrow> outcome) list" where
  "jobs = [kafka_hello_job, kafka_property_job, kafka_failure_job, kafka_message_size_job, kafka_request_ack_job,
     kafka_replication_job, sparkngin_hello_job, sparkngin_load_job]"

lemmas action_lists =
  kafka_job_actions kafka_replication_actions sparkngin_job_actions kafka_restart_actions

lemma job_steps: "job \<in> set jobs \<Longrightarrow> svc_steps [] (service_actions (fst (job vars))) []"
  by (auto simp: jobs_def action_lists svc_step_simps)

text \<open>
  C37: The commands of a job restart what they stop. Whatever variables a job is submitted with, its
  commands on services stop only what they have not stopped already, clean and start only what they
  have stopped, and simulate failures only of what they have not stopped; at the end they have
  started every service as often as they stopped it. All stops come before all starts, and no
  command on a service follows the start of a simulation. What the simulation does by itself, on its
  timer, is not among the commands.\<close>
theorem jobs_restart_services:
  fixes vars :: vars
  assumes "job \<in> set jobs"
  defines "acts \<equiv> service_actions (fst (job vars))"
  shows "svc_steps [] acts [] \<and>
    mset (done_to ''start'' acts) = mset (done_to ''stop'' acts) \<and> distinct (done_to ''stop'' acts) \<and>
    ''stop'' \<notin> fst ` set (dropWhile (\<lambda>x. fst x \<noteq> ''start'') acts) \<and>
    length (dropWhile (\<lambda>x. fst x \<noteq> ''simulation'') acts) \<le> 1"
proof -
  have steps: "svc_steps [] acts []" unfolding acts_def by (rule job_steps [OF assms(1)])
  moreover have "mset (done_to ''start'' acts) = mset (done_to ''stop'' acts)"
    using steps_balance [OF steps] by simp
  moreover have "distinct (done_to ''stop'' acts) \<and>
      ''stop'' \<notin> fst ` set (dropWhile (\<lambda>x. fst x \<noteq> ''start'') acts) \<and>
      length (dropWhile (\<lambda>x. fst x \<noteq> ''simulation'') acts) \<le> 1"
    using assms(1) unfolding acts_def by (cases "vars ''PROPERTY''") (auto simp: jobs_def action_lists)
  ultimately show ?thesis by blast
qed

theorem jobs_restart_services_witness:
  "svc_steps [] (service_actions (fst (kafka_failure_job (\<lambda>_. None)))) [] \<and>
   (''simulation'', ''KafkaClusterService'') \<in> set (service_actions (fst (kafka_failure_job (\<lambda>_. None))))"
  using jobs_restart_services [of kafka_failure_job "\<lambda>_. None"] by (simp add: jobs_def kafka_job_actions)

text \<open>
  The property job needs its property. When it is submitted without one it stops at a
  reference error after its first three echoes, before it touches a service; with one, even an
  empty one, it restarts the services like the other jobs.\<close>
lemma property_job_needs_property:
  "(vars ''PROPERTY'' = None \<longrightarrow>
      snd (kafka_property_job vars) = Some (ReferenceError ''PROPERTY'') \<and>
      length (fst (kafka_property_job vars)) = 3 \<and> service_actions (fst (kafka_property_job vars)) = []) \<and>
   (vars ''PROPERTY'' \<noteq> None \<longrightarrow>
      snd (kafka_property_job vars) = None \<and>
      service_actions (fst (kafka_property_job vars)) = service_actions kafka_restart)"
  by (auto simp: kafka_job_actions) (simp_all add: kafka_property_job_def Let_def)

lemma property_job_needs_property_witness:
  "snd (kafka_property_job (\<lambda>_. None)) = Some (ReferenceError ''PROPERTY'') \<and>
   snd (kafka_property_job (\<lambda>_. Some [])) = None"
  using property_job_needs_property [of "\<lambda>_. None"] property_job_needs_property [of "\<lambda>_. Some []"] by simp

section \<open>The scripts that submit the jobs\<close>

text \<open>The commands that \<open>ClusterGateway.execute\<close> is called with, when every assertion on the responses holds.\<close>

definition submit_kafka_job :: "string \<Rightarrow> string \<Rightarrow> string \<Rightarrow> int \<Rightarrow> int \<Rightarrow> int \<Rightarrow> string" where
  "submit_kafka_job KAFKA_BROKER jsFile description messageSize requestAck replication =
     line [''ringbearer submit '', ''  --member-role ringbearer'',
       ''  --description '', CHR 0x22 # description @ [CHR 0x22],
       ''  -PMAX_DURATION='' @ show_int 60000, ''  -PKAFKA_BROKER='' @ KAFKA_BROKER,
       ''  -PMESSAGE_SIZE='' @ show_int messageSize, ''  -PREQUEST_ACK='' @ show_int requestAck,
       ''  -PREPLICATION='' @ show_int replication, ''  --file '' @ jsFile]"

definition kafka_test :: "string \<Rightarrow> string \<Rightarrow> string list" where
  "kafka_test KAFKA_BROKER appDir =
     [submit_kafka_job KAFKA_BROKER (appDir @ ''/jscript/ringbearer/job/kafka/hello-job.js'')
        ''Hello RingBearer Job'' 1024 1 2] @
     map (\<lambda>i. submit_kafka_job KAFKA_BROKER
         (appDir @ ''/jscript/ringbearer/job/kafka/kafka-message-size-load-test-job.js'')
         (''Kafka load test with '' @ show_int i @ ''kb message size'') (1024 * i) 1 2) [1, 2, 3] @
     map (\<lambda>i. submit_kafka_job KAFKA_BROKER
         (appDir @ ''/jscript/ringbearer/job/kafka/kafka-request-ack-load-test-job.js'')
         (''Kafka load test with request ack = '' @ show_int i) 1024 i 2) [0, 1] @
     [submit_kafka_job KAFKA_BROKER
        (appDir @ ''/jscript/ringbearer/job/kafka/kafka-service-failure-load-test-job.js'')
        ''Kafka load test with the service failure simulation'' 1024 1 2] @
     map (\<lambda>i. submit_kafka_job KAFKA_BROKER
         (appDir @ ''/jscript/ringbearer/job/kafka/kafka-replication-load-test-job.js'')
         (''Kafka load test with replication = '' @ show_int i) 1024 1 i) [1, 2, 3]"

definition local_kafka_test :: "string \<Rightarrow> string list" where
  "local_kafka_test = kafka_test ''127.0.0.1:9092,127.0.0.1:9093,127.0.0.1:9094''"

definition min_cluster_kafka_test :: "string \<Rightarrow> string list" where
  "min_cluster_kafka_test = kafka_test ''kafka-1:9092,kafka-2:9092''"

definition submit_property_job :: "string \<Rightarrow> string \<Rightarrow> string \<Rightarrow> string" where
  "submit_property_job jsFile description property =
     line [''ringbearer submit '', ''  --member-role ringbearer'', ''  -PMAX_DURATION='' @ show_int 60000,
       ''  -PKAFKA_BROKER='' @ ''127.0.0.1:9092'', ''  -PMESSAGE_SIZE='' @ show_int 1024,
       ''  --file '' @ jsFile, ''  -PPROPERTY='' @ property,
       ''  --description '', CHR 0x22 # description @ [CHR 0x22]]"

definition local_property_test :: "string \<Rightarrow> string list" where
  "local_property_test appDir =
     map (\<lambda>(description, property).
         submit_property_job (appDir @ ''/jscript/ringbearer/job/kafka/kafka-property-job.js'') description property)
       [(''Default'', []),
        (''request.required.acks=1'', ''request.required.acks=1''),
        (''request.required.acks=-1'', ''request.required.acks=-1''),
        (''producer.type=async'', ''producer.type=async''),
        (''compression.codec=gzip'', ''compression.codec=gzip''),
        (''compression.codec=snappy'', ''compression.codec=snappy'')]"

definition submit_sparkngin_job :: "string \<Rightarrow> string \<Rightarrow> int \<Rightarrow> string \<Rightarrow> string" where
  "submit_sparkngin_job jsFile description maxDuration sparknginBroker =
     line [''ringbearer submit '', ''  --member-role ringbearer'',
       ''  --description '', CHR 0x22 # description @ [CHR 0x22],
       ''  -PMAX_DURATION='' @ show_int maxDuration, ''  -PSPARKNGIN_BROKER='' @ sparknginBroker,
       ''  --file '' @ jsFile]"

definition sparkngin_test :: "int \<Rightarrow> string \<Rightarrow> string \<Rightarrow> string list" where
  "sparkngin_test MAX_DURATION SPARKNGIN_BROKER appDir =
     [submit_sparkngin_job (appDir @ ''/jscript/ringbearer/job/sparkngin/hello-job.js'')
        ''Hello RingBearer Sparkngin Job'' MAX_DURATION SPARKNGIN_BROKER,
      submit_sparkngin_job (appDir @ ''/jscript/ringbearer/job/sparkngin/load-test-job.js'')
        ''Sparkngin load test'' MAX_DURATION SPARKNGIN_BROKER]"

definition local_sparkngin_test :: "string \<Rightarrow> string list" where
  "local_sparkngin_test = sparkngin_test 60000 ''127.0.0.1:7080''"

definition cluster_sparkngin_test :: "string \<Rightarrow> string list" where
  "cluster_sparkngin_test = sparkngin_test 300000 ''sparkngin-1:7080''"

lemma words_quoted: "one_word u \<Longrightarrow> words (''  --file '' @ u) = [''--file'', u]"
  by (simp add: words_one)

lemma property_of_submission:
  assumes "one_word jsFile" "CHR ''-'' \<noteq> hd jsFile" "CHR '' '' \<notin> set property"
  shows "word_value ''-PPROPERTY='' (submit_property_job jsFile description property) = Some property"
proof -
  have p: "takeWhile (\<lambda>d. d \<noteq> CHR '' '') property = property"
    using assms(3) by (auto intro!: takeWhile_none)
  have f: "\<not> prefix (CHR ''-'' # r) jsFile" for r
    using assms(1,2) by (cases jsFile) (auto simp: one_word_def)
  have w: "words (''  --file '' @ jsFile) = [''--file'', jsFile]"
    using assms(1) by (rule words_quoted)
  have q: "words (''  -PPROPERTY='' @ property) = [''-PPROPERTY='' @ property]"
    using p assms(3) words_dropWhile_none [of property "\<lambda>d. d \<noteq> CHR '' ''"] by auto
  have "words (submit_property_job jsFile description property) =
      [''ringbearer'', ''submit'', ''--member-role'', ''ringbearer'', ''-PMAX_DURATION='' @ show_int 60000,
       ''-PKAFKA_BROKER=127.0.0.1:9092'', ''-PMESSAGE_SIZE='' @ show_int 1024, ''--file'', jsFile,
       ''-PPROPERTY='' @ property] @ words ''  --description '' @ words (CHR 0x22 # description @ [CHR 0x22])"
    unfolding submit_property_job_def
    by (subst words_line) (simp_all only: w q list.map concat.simps, simp_all add: one_word_scan)
  then show ?thesis by (simp add: word_value_def f)
qed

text \<open>
  Every submission of the property test gives the job its property, so none of these jobs
  stops at the reference error: the six submissions pass, in order, the empty property and the
  five producer settings.\<close>
lemma property_submissions:
  assumes "one_word appDir" "CHR ''-'' \<noteq> hd appDir"
  shows "map (word_value ''-PPROPERTY='') (local_property_test appDir) =
     map Some [[], ''request.required.acks=1'', ''request.required.acks=-1'', ''producer.type=async'',
       ''compression.codec=gzip'', ''compression.codec=snappy'']"
proof -
  have "one_word (appDir @ ''/jscript/ringbearer/job/kafka/kafka-property-job.js'')"
    using assms(1) by (simp add: one_word_def)
  moreover have "CHR ''-'' \<noteq> hd (appDir @ ''/jscript/ringbearer/job/kafka/kafka-property-job.js'')"
    using assms by (simp add: one_word_def)
  ultimately show ?thesis
    by (simp add: local_property_test_def property_of_submission)
qed

lemma property_submissions_witness:
  "word_value ''-PPROPERTY='' (local_property_test ''/opt/app'' ! 3) = Some ''producer.type=async''"
proof -
  have "map (word_value ''-PPROPERTY='') (local_property_test ''/opt/app'') ! 3 = Some ''producer.type=async''"
    by (subst property_submissions) (simp_all add: one_word_def)
  then show ?thesis by (simp add: local_property_test_def)
qed

end
