(* ===== verification/Views.thy ===== *)
theory Views
  imports Gateway Components TableTree
begin

text \<open>
  The views the plugins are made of. A plugin configures the tables, forms, trees and blocks
  of \<open>app/js/ui\<close> and fills them from the answers of the servers; this theory holds what the
  configurations share: fields with their display functions, the construction of the views, what
  they draw, and the blocks of a page as a state.
\<close>

section \<open>Answers\<close>

definition at_index :: "nat \<Rightarrow> jsval \<Rightarrow> jsval result" where
  "at_index i v =
     (case v of
        JUndef \<Rightarrow> Inl (TypeError (show_nat i))
      | JNull \<Rightarrow> Inl (TypeError (show_nat i))
      | JArr vs \<Rightarrow> Inr (if i < length vs then vs ! i else JUndef)
      | JStr s \<Rightarrow> Inr (if i < length s then JStr [s ! i] else JUndef)
      | _ \<Rightarrow> Inr JUndef)"

fun at_path :: "string list \<Rightarrow> jsval \<Rightarrow> jsval result" where
  "at_path [] v = Inr v"
| "at_path (k # ks) v = bind_result (prop_of k v) (at_path ks)"

text \<open>The pairs a loop \<open>for(key in v)\<close> visits, with \<open>v[key]\<close>.\<close>

definition entries_of :: "jsval \<Rightarrow> (string \<times> jsval) list" where
  "entries_of v =
     (case v of
        JObj m \<Rightarrow> m
      | JArr vs \<Rightarrow> zip (map show_nat [0..<length vs]) vs
      | JStr s \<Rightarrow> zip (map show_nat [0..<length s]) (map (\<lambda>c. JStr [c]) s)
      | _ \<Rightarrow> [])"

text \<open>The assignment \<open>x[k] = v\<close>; a primitive value ignores it.\<close>

definition put_prop :: "string \<Rightarrow> jsval \<Rightarrow> jsval \<Rightarrow> jsval result" where
  "put_prop k v x =
     (case x of
        JUndef \<Rightarrow> Inl (TypeError k)
      | JNull \<Rightarrow> Inl (TypeError k)
      | JObj m \<Rightarrow> Inr (JObj (obj_put k v m))
      | _ \<Rightarrow> Inr x)"

text \<open>The values of a map in the order of its keys, each given its key as a property.\<close>

definition entries_with :: "string \<Rightarrow> jsval \<Rightarrow> jsval list result" where
  "entries_with p v = map_result (\<lambda>(k, x). put_prop p (JStr k) x) (entries_of v)"

section \<open>Numbers with two decimals\<close>

text \<open>
  \<open>toFixed(2)\<close>: the nearest number of hundredths, the larger one when two are as near, with a
  sign for every negative number; from \<open>10 ^ 21\<close> on the number is printed as usual.
\<close>

definition hundredths :: "rat \<Rightarrow> nat" where
  "hundredths x = nat \<lfloor>100 * x + 1 / 2\<rfloor>"

definition two_decimals :: "nat \<Rightarrow> string" where
  "two_decimals n = show_nat (n div 100) @ CHR ''.'' # [digit_char (n div 10 mod 10), digit_char (n mod 10)]"

definition toFixed2 :: "(jsnum \<Rightarrow> string) \<Rightarrow> jsnum \<Rightarrow> string" where
  "toFixed2 num_text n =
     (case n of
        Fin x \<Rightarrow>
          if \<bar>x\<bar> \<ge> 10 ^ 21 then num_text n
          else (if x < 0 then CHR ''-'' # two_decimals (hundredths (- x)) else two_decimals (hundredths x))
      | NaN \<Rightarrow> ''NaN''
      | _ \<Rightarrow> num_text n)"

definition to_fixed :: "(jsnum \<Rightarrow> string) \<Rightarrow> jsval \<Rightarrow> jsval result" where
  "to_fixed num_text v = (case v of JNum n \<Rightarrow> Inr (JStr (toFixed2 num_text n)) | _ \<Rightarrow> Inl (TypeError ''toFixed''))"

lemma parse_two_decimals: "parse_decimal (two_decimals n) = Some (of_nat n / 100)"
proof -
  let ?a = "show_nat (n div 100)" and ?b = "[digit_char (n div 10 mod 10), digit_char (n mod 10)]"
  have digits: "\<forall>c \<in> set (?a @ ?b). is_digit c" by (auto dest: show_nat_digits)
  have noE: "\<not> is_digit CHR ''e''" "\<not> is_digit CHR ''E''" by (simp_all add: is_digit_def)
  have all: "\<forall>c \<in> set (two_decimals n). c \<noteq> CHR ''e'' \<and> c \<noteq> CHR ''E''"
  proof
    fix c
    assume "c \<in> set (two_decimals n)"
    then have "is_digit c \<or> c = CHR ''.''"
      using digits unfolding two_decimals_def by (auto dest: show_nat_digits)
    then show "c \<noteq> CHR ''e'' \<and> c \<noteq> CHR ''E''" using noE by auto
  qed
  have ta: "takeWhile is_digit (two_decimals n) = ?a" and da: "dropWhile is_digit (two_decimals n) = CHR ''.'' # ?b"
    using digits unfolding two_decimals_def by (auto simp: takeWhile_append2 dropWhile_append2)
  have b: "dec_val ?b = n div 10 mod 10 * 10 + n mod 10"
    using dec_val_snoc [of "[digit_char (n div 10 mod 10)]" "digit_char (n mod 10)"] by simp
  have "parse_mantissa (two_decimals n) = Some (of_nat (n div 100) + of_nat (n div 10 mod 10 * 10 + n mod 10) / 10 ^ 2)"
    unfolding parse_mantissa_def ta da Let_def b [symmetric] by simp
  also have "of_nat (n div 100) + of_nat (n div 10 mod 10 * 10 + n mod 10) / 10 ^ 2 = (of_nat n :: rat) / 100"
  proof -
    have "n div 100 = n div 10 div 10" by (simp add: div_mult2_eq [symmetric])
    then have "n = 100 * (n div 100) + (n div 10 mod 10 * 10 + n mod 10)"
      using mult_div_mod_eq [of 10 n] mult_div_mod_eq [of 10 "n div 10"] by linarith
    then have "(of_nat n :: rat) = 100 * of_nat (n div 100) + of_nat (n div 10 mod 10 * 10 + n mod 10)"
      by (metis of_nat_add of_nat_mult of_nat_numeral)
    then show ?thesis by (simp add: field_simps)
  qed
  finally have m: "parse_mantissa (two_decimals n) = Some (of_nat n / 100)" .
  have "takeWhile (\<lambda>c. c \<noteq> CHR ''e'' \<and> c \<noteq> CHR ''E'') (two_decimals n) = two_decimals n"
    using all by (auto simp: takeWhile_eq_all_conv)
  moreover have "dropWhile (\<lambda>c. c \<noteq> CHR ''e'' \<and> c \<noteq> CHR ''E'') (two_decimals n) = []"
    using all by (auto simp: dropWhile_eq_Nil_conv)
  ultimately show ?thesis unfolding parse_decimal_def Let_def by (simp only: list.case m)
qed

lemma hundredths_near: "0 \<le> x \<Longrightarrow> \<bar>of_nat (hundredths x) / 100 - x\<bar> \<le> 1 / 200"
proof -
  assume "0 \<le> x"
  then have "0 \<le> \<lfloor>100 * x + 1 / 2\<rfloor>" by simp
  then have "(of_nat (hundredths x) :: rat) = of_int \<lfloor>100 * x + 1 / 2\<rfloor>" by (simp add: hundredths_def)
  moreover have "of_int \<lfloor>100 * x + 1 / 2\<rfloor> \<le> 100 * x + 1 / 2" "100 * x + 1 / 2 < of_int \<lfloor>100 * x + 1 / 2\<rfloor> + 1"
    by linarith+
  ultimately show ?thesis by linarith
qed

lemma trim_none: "s \<noteq> [] \<Longrightarrow> \<not> is_space (hd s) \<Longrightarrow> \<not> is_space (last s) \<Longrightarrow> trim s = s"
proof -
  have "dropWhile P r = r" if "r \<noteq> []" "\<not> P (hd r)" for P and r :: string
    using that by (cases r) auto
  then show "s \<noteq> [] \<Longrightarrow> \<not> is_space (hd s) \<Longrightarrow> \<not> is_space (last s) \<Longrightarrow> trim s = s"
    by (simp add: trim_def hd_rev)
qed

lemma digit_no_space: "is_digit c \<Longrightarrow> \<not> is_space c"
  by (auto simp: is_digit_def is_space_def)

lemma decimals_shape:
  "two_decimals n \<noteq> []" "is_digit (hd (two_decimals n))" "is_digit (last (two_decimals n))"
  using show_nat_digits [of "hd (show_nat (n div 100))" "n div 100"]
  by (simp_all add: two_decimals_def hd_append)

lemma decimals_no_prefix:
  "take 2 (two_decimals n) \<noteq> ''0x''" "take 2 (two_decimals n) \<noteq> ''0X''" "two_decimals n \<noteq> ''Infinity''"
proof -
  have d: "c \<in> set (two_decimals n) \<Longrightarrow> is_digit c \<or> c = CHR ''.''" for c
    unfolding two_decimals_def by (auto dest: show_nat_digits)
  have "\<not> is_digit CHR ''x''" "\<not> is_digit CHR ''X''" "\<not> is_digit CHR ''I''" by (simp_all add: is_digit_def)
  moreover have "CHR ''x'' \<in> set (two_decimals n)" if "take 2 (two_decimals n) = ''0x''"
    by (rule in_set_takeD [of _ 2]) (simp add: that)
  moreover have "CHR ''X'' \<in> set (two_decimals n)" if "take 2 (two_decimals n) = ''0X''"
    by (rule in_set_takeD [of _ 2]) (simp add: that)
  moreover have "CHR ''I'' \<in> set (two_decimals n)" if "two_decimals n = ''Infinity''"
    by (simp add: that)
  ultimately show "take 2 (two_decimals n) \<noteq> ''0x''" "take 2 (two_decimals n) \<noteq> ''0X''"
    "two_decimals n \<noteq> ''Infinity''"
    using d by blast+
qed

lemma decimals_to_num:
  "text_value (two_decimals n) = Fin (of_nat n / 100)"
  "text_value (CHR ''-'' # two_decimals n) = Fin (- (of_nat n / 100))"
proof -
  let ?s = "two_decimals n"
  note shape = decimals_shape [of n] decimals_shape(2,3) [of n, THEN digit_no_space]
  have sign: "hd ?s \<noteq> CHR ''-''" "hd ?s \<noteq> CHR ''+''"
    using shape(2) by (auto simp: is_digit_def)
  have "trim ?s = ?s" using shape by (intro trim_none)
  then show "text_value ?s = Fin (of_nat n / 100)"
    using shape(1) sign decimals_no_prefix [of n]
    by (simp add: text_value_def Let_def parse_two_decimals num_of_opt_def)
  have "trim (CHR ''-'' # ?s) = CHR ''-'' # ?s"
    using shape by (intro trim_none) (auto simp: is_space_def)
  then show "text_value (CHR ''-'' # ?s) = Fin (- (of_nat n / 100))"
    using decimals_no_prefix [of n]
    by (simp add: text_value_def Let_def parse_two_decimals num_of_opt_def)
qed

text \<open>
  The text of a number shown with two decimals denotes a number within half a hundredth of the
  number shown, whatever its sign.\<close>
lemma two_decimals_near:
  assumes "\<bar>x\<bar> < 10 ^ 21"
  shows "\<exists>y. text_value (toFixed2 num_text (Fin x)) = Fin y \<and> \<bar>y - x\<bar> \<le> 1 / 200"
proof -
  have plain: "text_value (two_decimals n) = Fin (of_nat n / 100)"
    "text_value (CHR ''-'' # two_decimals n) = Fin (- (of_nat n / 100))" for n
    using decimals_to_num [of n] by simp_all
  show ?thesis
  proof (cases "x < 0")
    case True
    then have "text_value (toFixed2 num_text (Fin x)) = Fin (- (of_nat (hundredths (- x)) / 100))"
      using assms plain by (simp add: toFixed2_def)
    moreover have "\<bar>- (of_nat (hundredths (- x)) / 100) - x\<bar> \<le> 1 / 200"
      using True hundredths_near [of "- x"] by linarith
    ultimately show ?thesis by blast
  next
    case False
    then have "text_value (toFixed2 num_text (Fin x)) = Fin (of_nat (hundredths x) / 100)"
      using assms plain by (simp add: toFixed2_def)
    moreover have "\<bar>of_nat (hundredths x) / 100 - x\<bar> \<le> 1 / 200"
      using False hundredths_near [of x] by linarith
    ultimately show ?thesis by blast
  qed
qed

lemma two_decimals_near_witness:
  "\<exists>y. text_value (toFixed2 (\<lambda>_. []) (Fin (-7 / 3))) = Fin y \<and> \<bar>y - (-7 / 3)\<bar> \<le> 1 / 200"
  by (rule two_decimals_near) simp

section \<open>Views\<close>

record view_field =
  vf_field :: string
  vf_label :: string
  vf_toggled :: bool
  vf_filterable :: bool
  vf_display :: "(jsval \<Rightarrow> jsval result) option"
  vf_click :: bool

definition shown :: "string \<Rightarrow> string \<Rightarrow> view_field" where
  "shown name label =
     \<lparr>vf_field = name, vf_label = label, vf_toggled = True, vf_filterable = False, vf_display = None, vf_click = False\<rparr>"

definition searchable :: "string \<Rightarrow> string \<Rightarrow> view_field" where
  "searchable name label = (shown name label)\<lparr>vf_filterable := True\<rparr>"

definition untoggled :: "string \<Rightarrow> string \<Rightarrow> view_field" where
  "untoggled name label = (shown name label)\<lparr>vf_toggled := False\<rparr>"

definition display :: "(jsval \<Rightarrow> jsval result) \<Rightarrow> view_field \<Rightarrow> view_field" where
  "display d f = f\<lparr>vf_display := Some d\<rparr>"

definition clickable :: "view_field \<Rightarrow> view_field" where
  "clickable f = f\<lparr>vf_click := True\<rparr>"

text \<open>
  A table holds its columns and beans, a form its fields, the bean, whether it is read-only and
  whether its view actions are disabled, and the names of these actions; a page of content its
  text and the language to highlight; a page of blocks its actions, whether header and footer
  are hidden, and the blocks with their collapsed state. A view may have no label.
\<close>

datatype view =
    TableView "string option" "view_field list" "jsval list" "string list"
  | FormView "string option" "view_field list" jsval bool bool "string list"
  | ContentView "string option" jsval "string option"
  | TreeView "string option" "view_field list" "jsval node list"
  | BlockView "string option" "string list" bool "(view \<times> bool) list"

fun view_label :: "view \<Rightarrow> string option" where
  "view_label (TableView l _ _ _) = l"
| "view_label (FormView l _ _ _ _ _) = l"
| "view_label (ContentView l _ _) = l"
| "view_label (TreeView l _ _) = l"
| "view_label (BlockView l _ _ _) = l"

definition table_view :: "string \<Rightarrow> view_field list \<Rightarrow> string list \<Rightarrow> jsval \<Rightarrow> view result" where
  "table_view label fs acts beans = bind_result (elements beans) (\<lambda>bs. Inr (TableView (Some label) fs bs acts))"

text \<open>A form that is bound to one bean and made read-only.\<close>

definition form_view :: "string \<Rightarrow> view_field list \<Rightarrow> jsval \<Rightarrow> bool \<Rightarrow> string list \<Rightarrow> view" where
  "form_view label fs b disabled acts = FormView (Some label) fs b True disabled acts"

text \<open>The cells the templates of the table and of the read-only form print.\<close>

definition cell_of :: "jsval \<Rightarrow> view_field \<Rightarrow> jsval result" where
  "cell_of b f = (case vf_display f of Some d \<Rightarrow> d b | None \<Rightarrow> prop_of (vf_field f) b)"

definition row_cells :: "view_field list \<Rightarrow> jsval \<Rightarrow> jsval list result" where
  "row_cells fs b = map_result (cell_of b) (filter vf_toggled fs)"

definition table_row_cells :: "view_field list \<Rightarrow> jsval \<Rightarrow> jsval list result" where
  "table_row_cells fs b = bind_result (prop_of ''persistableState'' b) (\<lambda>_. row_cells fs b)"

fun node_beans :: "'b node \<Rightarrow> 'b list" where
  "node_beans (Node i b cs c) = b # concat (map node_beans cs)"

text \<open>What a view draws when it is shown first: the rows of the first page, the values of a form.\<close>

fun draw :: "view \<Rightarrow> jsval list list result"
  and draw_blocks :: "(view \<times> bool) list \<Rightarrow> jsval list list result" where
  "draw (TableView l fs bs acts) = map_result (table_row_cells fs) (take 10 bs)"
| "draw (FormView l fs b ro dis acts) = bind_result (map_result (cell_of b) fs) (\<lambda>cs. Inr [cs])"
| "draw (ContentView l c syn) = Inr [[c]]"
| "draw (TreeView l fs ns) = map_result (row_cells fs) (concat (map node_beans ns))"
| "draw (BlockView l acts hid bs) = draw_blocks bs"
| "draw_blocks [] = Inr []"
| "draw_blocks ((v, c) # bs) = bind_result (draw v) (\<lambda>r. bind_result (draw_blocks bs) (\<lambda>rs. Inr (r @ rs)))"

section \<open>Pages of blocks as a state\<close>

text \<open>The world of the requests and the blocks of the page that runs.\<close>

type_synonym 'w page = "'w \<times> (view \<times> bool) list"

definition in_world :: "('w, 'a) prog \<Rightarrow> ('w page, 'a) prog" where
  "in_world m p = (case m (fst p) of (r, w') \<Rightarrow> (r, (w', snd p)))"

definition clear_page :: "('w page, unit) prog" where
  "clear_page = update (\<lambda>p. (fst p, []))"

definition add_block :: "view \<Rightarrow> bool \<Rightarrow> ('w page, unit) prog" where
  "add_block v hid = update (\<lambda>p. (fst p, snd p @ [(v, hid)]))"

definition draw_page :: "('w page, unit) prog" where
  "draw_page p = (case draw_blocks (snd p) of Inl e \<Rightarrow> (Inl e, p) | Inr _ \<Rightarrow> (Inr (), p))"

lemmas page_defs = in_world_def clear_page_def add_block_def draw_page_def prog_defs

text \<open>A page that is built from nothing, as a value.\<close>

definition built :: "('w page, unit) prog \<Rightarrow> ('w, (view \<times> bool) list) prog" where
  "built m w = (case m (w, []) of (Inl e, p) \<Rightarrow> (Inl e, fst p) | (Inr _, p) \<Rightarrow> (Inr (snd p), fst p))"

lemma in_world_simps:
  "gw w = (Inr v, w') \<Longrightarrow> in_world gw (w, bs) = (Inr v, (w', bs))"
  "gw w = (Inl e, w') \<Longrightarrow> in_world gw (w, bs) = (Inl e, (w', bs))"
  by (simp_all add: in_world_def)

end
