(* ===== verification/ClusterViews.thy ===== *)
theory ClusterViews
  imports Views
begin

text \<open>
  The views of the cluster plugin (\<open>plugins/cluster\<close>): metrics of a server and of the cluster,
  servers, modules, registrations and the information on a JVM, each with its fields, what it
  requests and how it lays out the answer.
\<close>

section \<open>Metrics of a server\<close>

text \<open>\<open>UIMetric.js\<close>. \<open>fixed\<close> shows a property with two decimals.\<close>

definition fixed :: "(jsnum \<Rightarrow> string) \<Rightarrow> string \<Rightarrow> jsval \<Rightarrow> jsval result" where
  "fixed nt k b = bind_result (prop_of k b) (to_fixed nt)"

definition counter_fields :: "view_field list" where
  "counter_fields = [searchable ''name'' ''Name'', searchable ''count'' ''Count'']"

definition timer_fields :: "(jsnum \<Rightarrow> string) \<Rightarrow> view_field list" where
  "timer_fields nt =
     [searchable ''name'' ''Name'', searchable ''count'' ''Count'', shown ''min'' ''Min'', shown ''max'' ''Max'',
      display (fixed nt ''mean'') (shown ''mean'' ''Mean''),
      display (fixed nt ''stddev'') (shown ''stddev'' ''stddev''),
      display (fixed nt ''p50'') (shown ''p50'' ''p50''),
      display (fixed nt ''p75'') (shown ''p75'' ''p75''),
      display (fixed nt ''p95'') (shown ''p95'' ''p95''),
      display (fixed nt ''p98'') (shown ''p98'' ''p98''),
      display (fixed nt ''p99'') (shown ''p99'' ''p99''),
      display (fixed nt ''p999'') (shown ''p99.9'' ''p99.9''),
      display (fixed nt ''meanRate'') (shown ''meanRate'' ''meanRate''),
      display (fixed nt ''m1Rate'') (shown ''m1Rate'' ''m1Rate''),
      display (fixed nt ''m5Rate'') (shown ''m5Rate'' ''m5Rate''),
      display (fixed nt ''m15Rate'') (shown ''m15Rate'' ''m15Rate''),
      shown ''durationUnits'' ''Duration Units'', shown ''rateUnits'' ''Rate Units'']"

definition UICounterMetric :: "jsval \<Rightarrow> view result" where
  "UICounterMetric counters = table_view ''Counter Metric'' counter_fields [] counters"

definition UITimerMetric :: "(jsnum \<Rightarrow> string) \<Rightarrow> jsval \<Rightarrow> view result" where
  "UITimerMetric nt timers = table_view ''Timer Metric'' (timer_fields nt) [] timers"

definition asArray :: "jsval \<Rightarrow> jsval result" where
  "asArray m = bind_result (entries_with ''name'' m) (\<lambda>xs. Inr (JArr xs))"

definition metric_onRefresh :: "(jsnum \<Rightarrow> string) \<Rightarrow> 'w ajax \<Rightarrow> string \<Rightarrow> ('w page, unit) prog" where
  "metric_onRefresh nt ajax memberName =
     andthen clear_page
     (seq (in_world (gatewayExecute nt ajax (''server metric-snapshot --member-name '' @ memberName))) (\<lambda>results.
     seq (lift_result (at_index 0 results)) (\<lambda>first.
     seq (lift_result (prop_of ''result'' first)) (\<lambda>metricRegistry.
     seq (lift_result (bind_result (prop_of ''timers'' metricRegistry) (\<lambda>ts. bind_result (asArray ts) (UITimerMetric nt)))) (\<lambda>timers.
     andthen (add_block timers False)
     (seq (lift_result (bind_result (prop_of ''counters'' metricRegistry) (\<lambda>cs. bind_result (asArray cs) UICounterMetric))) (\<lambda>counters.
     andthen (add_block counters True) draw_page)))))))"

definition UIMetric :: "(jsnum \<Rightarrow> string) \<Rightarrow> 'w ajax \<Rightarrow> string \<Rightarrow> ('w, view) prog" where
  "UIMetric nt ajax memberName =
     seq (built (metric_onRefresh nt ajax memberName)) (\<lambda>bs. ret (BlockView (Some ''Metric'') [''refresh''] False bs))"

section \<open>Metrics of the cluster\<close>

text \<open>\<open>UIClusterMetric.js\<close>: a node for each timer, with a child for each server.\<close>

definition cluster_metric_fields :: "(jsnum \<Rightarrow> string) \<Rightarrow> view_field list" where
  "cluster_metric_fields nt =
     [shown ''name'' ''Name'', shown ''count'' ''Count'', shown ''min'' ''Min'', shown ''max'' ''Max'',
      display (fixed nt ''mean'') (shown ''mean'' ''Mean''),
      display (fixed nt ''stddev'') (shown ''stddev'' ''Std Dev''),
      shown ''p50'' ''P50'', shown ''p75'' ''P75'', shown ''p90'' ''P90'', shown ''p95'' ''P95'', shown ''p98'' ''P98'',
      shown ''p99'' ''P99'', shown ''p999'' ''P99.9'',
      display (fixed nt ''m1Rate'') (shown ''m1Rate'' ''1 Min''),
      display (fixed nt ''m5Rate'') (shown ''m5Rate'' ''5 Min''),
      display (fixed nt ''m15Rate'') (shown ''m15Rate'' ''15 Min''),
      shown ''durationUnits'' ''T Unit'', shown ''rateUnits'' ''R Unit'']"

definition loadCombineClusterMetricSnapshot :: "(jsnum \<Rightarrow> string) \<Rightarrow> 'w ajax \<Rightarrow> ('w, jsval) prog" where
  "loadCombineClusterMetricSnapshot nt ajax =
     seq (gatewayExecute nt ajax ''server metric-cluster-snapshot'') (\<lambda>result. lift_result (prop_of ''result'' result))"

definition loadYaraClusterMetricSnapshot :: "(jsnum \<Rightarrow> string) \<Rightarrow> 'w ajax \<Rightarrow> ('w, jsval) prog" where
  "loadYaraClusterMetricSnapshot nt ajax =
     seq (gatewayExecute nt ajax ''yara snapshot --member-name generic'') (\<lambda>result.
       lift_result (bind_result (at_index 0 result) (prop_of ''result'')))"

text \<open>One step of the loops: the node of a timer and the children of its servers.\<close>

fun add_servers :: "nat \<Rightarrow> (string \<times> jsval) list \<Rightarrow> jsval node list \<Rightarrow> jsval node list result" where
  "add_servers i [] ns = Inr ns"
| "add_servers i ((serverName, serverTimer) # r) ns =
     bind_result (put_prop ''name'' (JStr serverName) serverTimer) (\<lambda>t. add_servers i r (addChildAt [i] t ns))"

fun add_timers :: "(string \<times> jsval) list \<Rightarrow> jsval node list \<Rightarrow> jsval node list result" where
  "add_timers [] ns = Inr ns"
| "add_timers ((name, clusterTimer) # r) ns =
     bind_result (put_prop ''name'' (JStr name) clusterTimer) (\<lambda>clusterTimer.
     bind_result (prop_of ''timer'' clusterTimer) (\<lambda>timer.
     bind_result (put_prop ''name'' (JStr name) timer) (\<lambda>combinedTimer.
     bind_result (prop_of ''timers'' clusterTimer) (\<lambda>timers.
     bind_result (add_servers (length ns) (entries_of timers) (addNode combinedTimer ns)) (\<lambda>ns.
       add_timers r ns)))))"

definition UIClusterMetric :: "(jsnum \<Rightarrow> string) \<Rightarrow> 'w ajax \<Rightarrow> string \<Rightarrow> ('w, view) prog" where
  "UIClusterMetric nt ajax loadMethod =
     seq (if loadMethod = ''yara'' then loadYaraClusterMetricSnapshot nt ajax
          else loadCombineClusterMetricSnapshot nt ajax) (\<lambda>snapshot.
     seq (lift_result (prop_of ''counters'' snapshot)) (\<lambda>_.
     seq (lift_result (prop_of ''timers'' snapshot)) (\<lambda>clusterTimers.
     seq (lift_result (add_timers (entries_of clusterTimers) [])) (\<lambda>ns.
       ret (TreeView (Some ''Cluster Metrics'') (cluster_metric_fields nt) ns)))))"

section \<open>Information on the JVM of a server\<close>

text \<open>\<open>UIJVMInfo.js\<close>.\<close>

definition memory_fields :: "view_field list" where
  "memory_fields =
     [untoggled ''init'' ''Init'', untoggled ''committed'' ''Committed'', untoggled ''max'' ''Max'', untoggled ''use'' ''Use'']"

definition UIMemoryMonitor :: "jsval \<Rightarrow> bool \<Rightarrow> view result" where
  "UIMemoryMonitor jvmInfo disableViewAction =
     bind_result (prop_of ''memoryInfo'' jvmInfo) (\<lambda>m.
       Inr (form_view ''Memory Info'' memory_fields m disableViewAction [''more'']))"

definition memory_pool_fields :: "view_field list" where
  "memory_pool_fields =
     [searchable ''name'' ''Name'', searchable ''poolNames'' ''Pool Names'',
      searchable ''collectionCount'' ''Collection Count'', searchable ''collectionTime'' ''Collection Time'']"

definition UIMemoryMonitorList :: "jsval \<Rightarrow> view result" where
  "UIMemoryMonitorList garbageCollectorInfo = table_view ''Memory Detail'' memory_pool_fields [] garbageCollectorInfo"

definition UIMemoryMonitorDetail :: "jsval \<Rightarrow> view result" where
  "UIMemoryMonitorDetail jvmInfo =
     bind_result (UIMemoryMonitor jvmInfo True) (\<lambda>form.
     bind_result (bind_result (prop_of ''garbageCollectorInfo'' jvmInfo) UIMemoryMonitorList) (\<lambda>table.
       Inr (BlockView (Some ''Memory'') [''back''] False [(form, False), (table, False)])))"

definition thread_info_fields :: "view_field list" where
  "thread_info_fields =
     [untoggled ''threadStartedCount'' ''Thread Started Count'', untoggled ''threadPeakCount'' ''Thread Peak Count'',
      untoggled ''threadCount'' ''Thread Count'', untoggled ''threadDeamonCount'' ''Thread Deamon Count'']"

definition UIThreadMonitor :: "jsval \<Rightarrow> bool \<Rightarrow> view" where
  "UIThreadMonitor threadInfo disableViewAction =
     form_view ''Thread Info'' thread_info_fields threadInfo disableViewAction [''more'']"

definition thread_fields :: "view_field list" where
  "thread_fields =
     [shown ''threadId'' ''Id'', searchable ''threadName'' ''Name'', shown ''threadBlockCount'' ''Thread Block Count'',
      shown ''threadBlockTime'' ''Thread Block Time'', shown ''threadWaitedTime'' ''Thread Waited Count'',
      shown ''threadState'' ''Thread State'', shown ''threadCPUTime'' ''Thread CPU Time'',
      shown ''threadUserTime'' ''Thread User Time'']"

definition UIThreadMonitorList :: "jsval \<Rightarrow> view result" where
  "UIThreadMonitorList threadInfo =
     bind_result (prop_of ''threadInfos'' threadInfo) (table_view ''Threads'' thread_fields [''Stacktrace''])"

text \<open>The action of a row opens its stack trace as content in a popup.\<close>

definition thread_stacktrace :: "jsval \<Rightarrow> view result" where
  "thread_stacktrace thread =
     bind_result (prop_of ''threadStackTrace'' thread) (\<lambda>c. Inr (ContentView None c None))"

definition UIThreadMonitorDetail :: "jsval \<Rightarrow> view result" where
  "UIThreadMonitorDetail threadInfo =
     bind_result (UIThreadMonitorList threadInfo) (\<lambda>table.
       Inr (BlockView (Some ''Threads Detail'') [''back''] False [(UIThreadMonitor threadInfo True, False), (table, False)]))"

definition jvm_onRefresh :: "(jsnum \<Rightarrow> string) \<Rightarrow> 'w ajax \<Rightarrow> string \<Rightarrow> ('w page, unit) prog" where
  "jvm_onRefresh nt ajax memberName =
     andthen clear_page
     (seq (in_world (gatewayExecute nt ajax (''server jvminfo --member-name '' @ memberName))) (\<lambda>results.
     seq (lift_result (bind_result (at_index 0 results) (prop_of ''result''))) (\<lambda>jvmInfo.
     seq (lift_result (UIMemoryMonitor jvmInfo False)) (\<lambda>memory.
     andthen (add_block memory False)
     (seq (lift_result (prop_of ''threadInfo'' jvmInfo)) (\<lambda>threadInfo.
     andthen (add_block (UIThreadMonitor threadInfo False) False) draw_page))))))"

definition UIJVMInfo :: "(jsnum \<Rightarrow> string) \<Rightarrow> 'w ajax \<Rightarrow> string \<Rightarrow> ('w, view) prog" where
  "UIJVMInfo nt ajax memberName =
     seq (built (jvm_onRefresh nt ajax memberName)) (\<lambda>bs.
       ret (BlockView (Some (''JVM Info('' @ memberName @ [CHR 0x27, CHR '')''])) [''refresh'', ''back''] False bs))"

section \<open>Registration of a server\<close>

text \<open>\<open>UIServerRegistration.js\<close>. The actions of the form open the JVM and the metrics of the member.\<close>

definition member_fields :: "view_field list" where
  "member_fields =
     [clickable (display (at_path [''clusterMember'', ''memberName'']) (searchable ''serverName'' ''Server Name'')),
      display (at_path [''clusterMember'', ''ipAddress'']) (shown ''ipAddress'' ''IP Address''),
      display (at_path [''clusterMember'', ''port'']) (shown ''port'' ''Port''),
      display (prop_of ''serverState'') (searchable ''serverState'' ''Server State''),
      display (prop_of ''roles'') (searchable ''serverRoles'' ''Server Roles'')]"

definition UIMemberInfo :: "jsval \<Rightarrow> view" where
  "UIMemberInfo reg = form_view ''Member Info'' member_fields reg False [''jvm'', ''metric'']"

definition member_action :: "(jsnum \<Rightarrow> string) \<Rightarrow> 'w ajax \<Rightarrow> string \<Rightarrow> jsval \<Rightarrow> ('w, view option) prog" where
  "member_action nt ajax action reg =
     (if action = ''jvm'' \<or> action = ''metric''
      then seq (lift_result (at_path [''clusterMember'', ''memberName''] reg)) (\<lambda>m.
        seq (if action = ''jvm'' then UIJVMInfo nt ajax (js_text nt m) else UIMetric nt ajax (js_text nt m)) (\<lambda>v. ret (Some v)))
      else ret None)"

definition service_fields :: "view_field list" where
  "service_fields =
     [searchable ''module'' ''Module'', searchable ''serviceId'' ''Service Id'',
      searchable ''description'' ''Description'', searchable ''state'' ''State'']"

definition UIServiceInfo :: "jsval \<Rightarrow> view result" where
  "UIServiceInfo services = table_view ''Service Info'' service_fields [] services"

definition registration_view :: "(jsnum \<Rightarrow> string) \<Rightarrow> bool \<Rightarrow> jsval \<Rightarrow> view result" where
  "registration_view nt hid reg =
     bind_result (at_path [''clusterMember'', ''memberName''] reg) (\<lambda>m.
     bind_result (bind_result (prop_of ''services'' reg) UIServiceInfo) (\<lambda>services.
       Inr (BlockView (Some (''Server Registration For '' @ js_text nt m)) [] hid
         [(UIMemberInfo reg, False), (services, False)])))"

definition UIServerRegistration :: "(jsnum \<Rightarrow> string) \<Rightarrow> 'w ajax \<Rightarrow> jsval \<Rightarrow> string \<Rightarrow> ('w, view) prog" where
  "UIServerRegistration nt ajax sreg memberName =
     (if \<not> nullish sreg then lift_result (registration_view nt False sreg)
      else seq (gatewayExecute nt ajax (''server registration --member-name '' @ memberName)) (\<lambda>results.
        seq (lift_result (bind_result (at_index 0 results) (prop_of ''result''))) (\<lambda>reg.
          lift_result (registration_view nt False reg))))"

text \<open>
  \<open>UIClusterRegistration.js\<close>: one block for each server, without header and footer, collapsed.
  A result without a registration makes the block request its own by an undefined name.
\<close>

definition hide_header :: "view \<Rightarrow> view" where
  "hide_header v = (case v of BlockView l acts _ bs \<Rightarrow> BlockView l acts True bs | _ \<Rightarrow> v)"

definition UIClusterRegistration :: "(jsnum \<Rightarrow> string) \<Rightarrow> 'w ajax \<Rightarrow> ('w, view) prog" where
  "UIClusterRegistration nt ajax =
     seq (built
       (seq (in_world (gatewayExecute nt ajax ''server registration'')) (\<lambda>results.
        seq (lift_result (elements results)) (\<lambda>rs.
          for_each rs (\<lambda>r.
            seq (lift_result (prop_of ''result'' r)) (\<lambda>sreg.
            seq (in_world (UIServerRegistration nt ajax sreg ''undefined'')) (\<lambda>v.
              add_block (hide_header v) True))))))) (\<lambda>bs.
       ret (BlockView (Some ''Cluster Registration'') [] False bs))"

section \<open>Servers and modules\<close>

text \<open>\<open>UIListServer.js\<close>. A server that did not answer has no \<open>fromMember\<close>.\<close>

definition from_member :: "string \<Rightarrow> jsval \<Rightarrow> jsval result" where
  "from_member k b =
     bind_result (prop_of ''fromMember'' b) (\<lambda>m. if nullish m then Inr JNull else prop_of k m)"

definition server_fields :: "view_field list" where
  "server_fields =
     [clickable (display (from_member ''memberName'') (searchable ''serverName'' ''Server Name'')),
      display (from_member ''ipAddress'') (shown ''ipAddress'' ''IP Address''),
      display (from_member ''port'') (shown ''port'' ''Port''),
      searchable ''result'' ''Status'']"

definition UIListServer :: "(jsnum \<Rightarrow> string) \<Rightarrow> 'w ajax \<Rightarrow> ('w, view) prog" where
  "UIListServer nt ajax =
     seq (gatewayExecute nt ajax ''server ping'') (\<lambda>result.
       lift_result (table_view ''List Server'' server_fields [''JVM'', ''Metric''] result))"

text \<open>A click on the name of a server, or on one of its two actions, by their position.\<close>

definition server_click :: "(jsnum \<Rightarrow> string) \<Rightarrow> 'w ajax \<Rightarrow> jsval \<Rightarrow> ('w, view) prog" where
  "server_click nt ajax b =
     seq (lift_result (at_path [''fromMember'', ''memberName''] b)) (\<lambda>m. UIServerRegistration nt ajax JUndef (js_text nt m))"

definition server_action :: "(jsnum \<Rightarrow> string) \<Rightarrow> 'w ajax \<Rightarrow> nat \<Rightarrow> jsval \<Rightarrow> ('w, view) prog" where
  "server_action nt ajax i b =
     seq (lift_result (at_path [''fromMember'', ''memberName''] b)) (\<lambda>m.
       if i = 0 then UIJVMInfo nt ajax (js_text nt m)
       else if i = 1 then UIMetric nt ajax (js_text nt m)
       else throw (TypeError ''onClick''))"

text \<open>\<open>UIListModule.js\<close>: one table for each server.\<close>

definition module_fields :: "view_field list" where
  "module_fields =
     [searchable ''moduleName'' ''Module Name'', searchable ''configureClass'' ''Configure Class'',
      shown ''autostart'' ''Auto Start'', shown ''autoInstall'' ''Auto Install'',
      shown ''installStatus'' ''Install Status'', shown ''runningStatus'' ''Running Status'']"

definition UIModule :: "(jsnum \<Rightarrow> string) \<Rightarrow> jsval \<Rightarrow> jsval \<Rightarrow> view result" where
  "UIModule nt fromMember modules =
     bind_result (prop_of ''memberName'' fromMember) (\<lambda>m. table_view (''Module on '' @ js_text nt m) module_fields [] modules)"

definition UIListModule :: "(jsnum \<Rightarrow> string) \<Rightarrow> 'w ajax \<Rightarrow> ('w, view) prog" where
  "UIListModule nt ajax =
     seq (gatewayExecute nt ajax ''module list'') (\<lambda>results.
     seq (lift_result (elements results)) (\<lambda>rs.
     seq (lift_result (map_result (\<lambda>r.
         bind_result (prop_of ''fromMember'' r) (\<lambda>m. bind_result (prop_of ''result'' r) (UIModule nt m))) rs)) (\<lambda>vs.
       ret (BlockView (Some ''Module Status'') [] False (map (\<lambda>v. (v, False)) vs)))))"

end
