(* ===== verification/ElasticViews.thy ===== *)
theory ElasticViews
  imports Views
begin

text \<open>
  The views of the Elasticsearch plugin (\<open>plugins/elasticsearch\<close>): nodes and their details, the
  indices, and the search, whose columns come from the mapping of the index.
\<close>

section \<open>Nodes\<close>

text \<open>\<open>UINodeDetail.js\<close>: five forms over parts of the answer for a node.\<close>

definition node_info_fields :: "view_field list" where
  "node_info_fields =
     [untoggled ''name'' ''Name'', untoggled ''version'' ''Version'', untoggled ''build'' ''Build'',
      display (at_path [''transport'', ''bound_address'']) (untoggled ''transport.bound_address'' ''Transport Bound Address''),
      display (at_path [''transport'', ''publish_address'']) (untoggled ''transport.publish_address'' ''Transport Publish Address''),
      display (at_path [''http'', ''bound_address'']) (untoggled ''http.bound_address'' ''Http Bound Address''),
      display (at_path [''http'', ''publish_address'']) (untoggled ''http.publish_address'' ''Http Publish Address''),
      display (at_path [''http'', ''max_content_length_in_bytes''])
        (untoggled ''http.max_content_length_in_bytes'' ''Http Max Content Length'')]"

definition UINodeInfo :: "jsval \<Rightarrow> view" where
  "UINodeInfo nodeInfo = form_view ''Node Info'' node_info_fields nodeInfo False []"

definition node_settings_fields :: "view_field list" where
  "node_settings_fields =
     [untoggled ''name'' ''Name'',
      display (at_path [''cluster'', ''name'']) (untoggled ''cluster.name'' ''Cluster Name''),
      display (at_path [''path'', ''data'']) (untoggled ''path.data'' ''Path Data''),
      display (at_path [''path'', ''logs'']) (untoggled ''path.logs'' ''Path Logs'')]"

definition UINodeSettings :: "jsval \<Rightarrow> view result" where
  "UINodeSettings nodeInfo =
     bind_result (prop_of ''settings'' nodeInfo) (\<lambda>b. Inr (form_view ''Node Settings'' node_settings_fields b False []))"

definition node_os_fields :: "view_field list" where
  "node_os_fields =
     [untoggled ''available_processors'' ''Available Processors'',
      untoggled ''refresh_interval_in_millis'' ''Refresh Interval In Millis'']"

definition UINodeOS :: "jsval \<Rightarrow> view result" where
  "UINodeOS nodeInfo =
     bind_result (prop_of ''os'' nodeInfo) (\<lambda>b. Inr (form_view ''Node OS'' node_os_fields b False []))"

definition node_process_fields :: "view_field list" where
  "node_process_fields =
     [untoggled ''id'' ''Id'', untoggled ''refresh_interval_in_millis'' ''Refresh Interval In Millis'',
      untoggled ''max_file_descriptors'' ''Max File Descriptor'', untoggled ''mlockall'' ''mlockall'']"

definition UINodeProcess :: "jsval \<Rightarrow> view result" where
  "UINodeProcess nodeInfo =
     bind_result (prop_of ''process'' nodeInfo) (\<lambda>b. Inr (form_view ''Node Process'' node_process_fields b False []))"

definition jvm_fields :: "view_field list" where
  "jvm_fields =
     [untoggled ''pid'' ''Pid'', untoggled ''version'' ''Version'', untoggled ''vm_name'' ''VM Name'',
      untoggled ''vm_version'' ''VM Vesion'', untoggled ''vm_vendor'' ''VM Vendor'',
      untoggled ''start_time_in_millis'' ''Start time in millis'',
      display (at_path [''mem'', ''heap_init_in_bytes'']) (untoggled ''mem.heap_init_in_bytes'' ''Mem Heap Init''),
      display (at_path [''mem'', ''heap_max_in_bytes'']) (untoggled ''mem.max_in_bytes'' ''Mem Heap Max''),
      display (at_path [''mem'', ''non_heap_init_in_bytes'']) (untoggled ''mem.non_heap_init_in_bytes'' ''Mem Non Heap Init''),
      display (at_path [''mem'', ''non_heap_max_in_bytes'']) (untoggled ''mem.non-heap-max_in_bytes'' ''Mem Non Heap Max''),
      untoggled ''gc_collectors'' ''GC Collectors'', untoggled ''memory_pools'' ''Memmory Pools'']"

definition UIJVM :: "jsval \<Rightarrow> view result" where
  "UIJVM nodeInfo = bind_result (prop_of ''jvm'' nodeInfo) (\<lambda>b. Inr (form_view ''Node JVM'' jvm_fields b False []))"

definition UINodeDetail :: "jsval \<Rightarrow> view result" where
  "UINodeDetail nodeInfo =
     bind_result (map_result (\<lambda>f. f nodeInfo) [\<lambda>n. Inr (UINodeInfo n), UINodeSettings, UINodeOS, UINodeProcess, UIJVM])
       (\<lambda>vs. Inr (BlockView (Some ''Node Detail'') [''back''] False (map (\<lambda>v. (v, False)) vs)))"

text \<open>\<open>UINodes.js\<close>. A click on an identifier opens the details of the node of the row.\<close>

definition es_node_fields :: "view_field list" where
  "es_node_fields =
     [clickable (shown ''_id'' ''Id''), searchable ''name'' ''Name'', searchable ''host'' ''Host'',
      shown ''transport_address'' ''Transport Addr'', shown ''http_address'' ''Http Addr'']"

definition UINodes :: "'w ajax \<Rightarrow> ('w, view) prog" where
  "UINodes ajax =
     seq (esNodes ajax) (\<lambda>result.
     seq (lift_result (bind_result (prop_of ''nodes'' result) (entries_with ''_id''))) (\<lambda>nodes.
       lift_result (table_view ''Elasticsearch Nodes'' es_node_fields [] (JArr nodes))))"

section \<open>Indices\<close>

text \<open>\<open>UIIndices.js\<close>.\<close>

definition shard_fields :: "view_field list" where
  "shard_fields = [untoggled ''total'' ''Total'', untoggled ''successful'' ''Sucessful'', untoggled ''failed'' ''Failed'']"

definition UIShards :: "jsval \<Rightarrow> view result" where
  "UIShards options =
     bind_result (prop_of ''_shards'' options) (\<lambda>b. Inr (form_view ''Shards'' shard_fields b False []))"

definition doc_info_fields :: "view_field list" where
  "doc_info_fields =
     [display (at_path [''docs'', ''count'']) (untoggled ''docs.count'' ''Docs Count''),
      display (at_path [''docs'', ''deleted'']) (untoggled ''docs.deleted'' ''Docs Deleted''),
      display (at_path [''store'', ''size_in_bytes'']) (untoggled ''store.size_in_bytes'' ''Store''),
      display (at_path [''store'', ''throttle_time_in_millis''])
        (untoggled ''store.throttle_time_in_millis'' ''Store Throttle Time In Millis'')]"

definition UIDocInfo :: "string \<Rightarrow> jsval \<Rightarrow> view" where
  "UIDocInfo label docInfo = form_view label doc_info_fields docInfo False []"

definition index_fields :: "view_field list" where
  "index_fields =
     [clickable (searchable ''_name'' ''Name''),
      display (at_path [''primaries'', ''docs'', ''count'']) (shown ''promaries.docs'' ''Documents''),
      display (at_path [''primaries'', ''store'', ''size_in_bytes'']) (shown ''primaries.store'' ''Store'')]"

definition UIIndexTable :: "jsval \<Rightarrow> view result" where
  "UIIndexTable indices =
     bind_result (entries_with ''_name'' indices) (\<lambda>bs. table_view ''Indices'' index_fields [] (JArr bs))"

definition UIIndices :: "'w ajax \<Rightarrow> ('w, view) prog" where
  "UIIndices ajax =
     seq (esIndices ajax) (\<lambda>result.
     seq (lift_result (UIShards result)) (\<lambda>shards.
     seq (lift_result (at_path [''_all'', ''primaries''] result)) (\<lambda>primaries.
     seq (lift_result (at_path [''_all'', ''total''] result)) (\<lambda>total.
     seq (lift_result (bind_result (prop_of ''indices'' result) UIIndexTable)) (\<lambda>indices.
       ret (BlockView (Some ''Indices'') [''back''] False
         [(shards, False), (UIDocInfo ''Primaries'' primaries, False), (UIDocInfo ''Total'' total, False), (indices, False)]))))))"

section \<open>Search\<close>

text \<open>
  \<open>UISearch.js\<close>. The fields of the index are the properties found by following the first key
  three times from the mapping of the index.
\<close>

definition object_keys :: "jsval \<Rightarrow> string list result" where
  "object_keys v =
     (case v of JUndef \<Rightarrow> Inl (TypeError ''keys'') | JNull \<Rightarrow> Inl (TypeError ''keys'') | _ \<Rightarrow> Inr (keys_of v))"

text \<open>The property of the first key, or the property \<open>undefined\<close> when there is no key.\<close>

definition first_value :: "jsval \<Rightarrow> jsval result" where
  "first_value v =
     bind_result (object_keys v) (\<lambda>ks. case ks of
         [] \<Rightarrow> prop_of ''undefined'' v
       | _ \<Rightarrow> Inr (snd (hd (entries_of v))))"

definition mapping_fields :: "jsval \<Rightarrow> jsval result" where
  "mapping_fields mapping =
     bind_result (object_keys mapping) (\<lambda>ks.
       if ks = [] then Inr (JArr [])
       else bind_result (first_value mapping) (\<lambda>mappings.
         bind_result (first_value mappings) (\<lambda>record.
         bind_result (first_value record) first_value)))"

definition source_display :: "string \<Rightarrow> jsval \<Rightarrow> jsval result" where
  "source_display fieldName b = at_path [''_source'', fieldName] b"

definition search_fields :: "jsval \<Rightarrow> view_field list result" where
  "search_fields mapping =
     bind_result (mapping_fields mapping) (\<lambda>fields.
       Inr (map (\<lambda>k. display (source_display k) (searchable k k)) (keys_of fields) @
         [untoggled ''_score'' ''Score'', untoggled ''_index'' ''Index'', untoggled ''_type'' ''Type'']))"

text \<open>The state of the search page: the index, the query, the last answer and the table of the hits.\<close>

record search_page =
  sr_index :: string
  sr_query :: string
  sr_result :: jsval
  sr_table :: view

definition set_hits :: "jsval \<Rightarrow> view \<Rightarrow> view result" where
  "set_hits hits v =
     (case v of TableView l fs _ acts \<Rightarrow> bind_result (elements hits) (\<lambda>bs. Inr (TableView l fs bs acts)) | _ \<Rightarrow> Inr v)"

definition in_search :: "('w, 'a) prog \<Rightarrow> ('w \<times> search_page, 'a) prog" where
  "in_search m p = (case m (fst p) of (r, w') \<Rightarrow> (r, (w', snd p)))"

text \<open>\<open>_search\<close> without the drawing that \<open>onSearch\<close> and the return key add.\<close>

definition doSearch :: "(jsnum \<Rightarrow> string) \<Rightarrow> 'w ajax \<Rightarrow> string \<Rightarrow> ('w \<times> search_page, unit) prog" where
  "doSearch nt ajax query =
     seq (reads (\<lambda>p. sr_index (snd p))) (\<lambda>index.
     seq (in_search (esSearch nt ajax index query)) (\<lambda>result.
     andthen (update (\<lambda>p. (fst p, (snd p)\<lparr>sr_result := result\<rparr>)))
     (seq (lift_result (at_path [''hits'', ''hits''] result)) (\<lambda>hits.
     seq (reads (\<lambda>p. sr_table (snd p))) (\<lambda>t.
     seq (lift_result (set_hits hits t)) (\<lambda>t'.
       update (\<lambda>p. (fst p, (snd p)\<lparr>sr_table := t'\<rparr>))))))))"

definition onSearch :: "(jsnum \<Rightarrow> string) \<Rightarrow> 'w ajax \<Rightarrow> string \<Rightarrow> ('w \<times> search_page, unit) prog" where
  "onSearch nt ajax query =
     andthen (update (\<lambda>p. (fst p, (snd p)\<lparr>sr_query := query\<rparr>))) (doSearch nt ajax query)"

definition onSearchInput :: "(jsnum \<Rightarrow> string) \<Rightarrow> 'w ajax \<Rightarrow> int \<Rightarrow> string \<Rightarrow> ('w \<times> search_page, unit) prog" where
  "onSearchInput nt ajax keyCode val = (if keyCode = 13 then onSearch nt ajax val else ret ())"

definition newSearch :: "(jsnum \<Rightarrow> string) \<Rightarrow> 'w ajax \<Rightarrow> string \<Rightarrow> ('w, search_page) prog" where
  "newSearch nt ajax index =
     seq (indexQuery ajax index) (\<lambda>mapping.
     seq (lift_result (search_fields mapping)) (\<lambda>fields w.
       (case doSearch nt ajax ''*''
           (w, \<lparr>sr_index = index, sr_query = ''*'', sr_result = JUndef,
              sr_table = TableView (Some ''Search Result'') fields [] []\<rparr>) of
          (Inl e, p) \<Rightarrow> (Inl e, fst p) | (Inr _, p) \<Rightarrow> (Inr (snd p), fst p))))"

end
