(* ===== verification/JobViews.thy ===== *)
theory JobViews
  imports Views
begin

text \<open>
  The views of the Yarn, RingBearer and DemandSpike plugins (\<open>plugins/yarn\<close>,
  \<open>plugins/ringbearer\<close>, \<open>plugins/demandspike\<close>): applications with their containers, and the
  scheduler with its jobs. The last two plugins are the same code with other names.
\<close>

section \<open>Yarn applications\<close>

definition app_info_fields :: "view_field list" where
  "app_info_fields = [untoggled ''appId'' ''App Id'', untoggled ''appHome'' ''App Home'']"

definition UIAppInfo :: "jsval \<Rightarrow> view result" where
  "UIAppInfo appHistory =
     bind_result (prop_of ''appInfo'' appHistory) (\<lambda>b. Inr (form_view ''App Info'' app_info_fields b False []))"

definition container_fields :: "view_field list" where
  "container_fields =
     [clickable (shown ''containerId'' ''Container Id''), shown ''nodeId'' ''Node Id'', shown ''memory'' ''Memory'',
      shown ''cores'' ''CPU Cores'',
      display (at_path [''progressStatus'', ''containerState'']) (shown ''containerState'' ''Container State''),
      display (at_path [''progressStatus'', ''progress'']) (shown ''containerProgress'' ''Container Progress''),
      display (at_path [''progressStatus'', ''statusMessage'']) (shown ''containerStatusMessage'' ''Status Message''),
      display (\<lambda>b. bind_result (at_path [''progressStatus'', ''error''] b) (\<lambda>e. Inr (JBool (\<not> nullish e))))
        (shown ''containerError'' ''Error'')]"

definition UIContainers :: "jsval \<Rightarrow> view result" where
  "UIContainers containerInfos = table_view ''Containers'' container_fields [] containerInfos"

definition application_view :: "jsval \<Rightarrow> view result" where
  "application_view appHistory =
     bind_result (UIAppInfo appHistory) (\<lambda>info.
     bind_result (bind_result (at_path [''appMonitor'', ''containerInfos''] appHistory) UIContainers) (\<lambda>cs.
       Inr (BlockView (Some ''Yarn Application'') [] True [(info, False), (cs, False)])))"

definition UIApplication :: "'w ajax \<Rightarrow> string \<Rightarrow> ('w, view) prog" where
  "UIApplication ajax appId =
     seq (syncGETResource ajax (''/yarn-app/history/app/'' @ appId) ''json'') (\<lambda>h. lift_result (application_view h))"

definition application_fields :: "view_field list" where
  "application_fields =
     [clickable (shown ''appId'' ''App Id''), shown ''appStartTime'' ''App Start Time'',
      shown ''appFinishTime'' ''App Finish Time'', shown ''appState'' ''App State'']"

definition UIApplications :: "jsval \<Rightarrow> view result" where
  "UIApplications appDescriptions = table_view ''List Yarn Applications'' application_fields [] appDescriptions"

definition application_click :: "(jsnum \<Rightarrow> string) \<Rightarrow> 'w ajax \<Rightarrow> jsval \<Rightarrow> ('w, view) prog" where
  "application_click nt ajax b = seq (lift_result (prop_of ''appId'' b)) (\<lambda>i. UIApplication ajax (js_text nt i))"

text \<open>Unlike the other pages, this one is not cleared before its table is added again.\<close>

definition applications_onRefresh :: "'w ajax \<Rightarrow> ('w page, unit) prog" where
  "applications_onRefresh ajax =
     seq (in_world (syncGETResource ajax ''/yarn-app/history/list'' ''json'')) (\<lambda>appDescriptions.
     seq (lift_result (UIApplications appDescriptions)) (\<lambda>v. add_block v False))"

definition UIListApplication :: "'w ajax \<Rightarrow> ('w, view) prog" where
  "UIListApplication ajax =
     seq (built (applications_onRefresh ajax)) (\<lambda>bs.
       ret (BlockView (Some ''Job Scheduler Status'') [''refresh'', ''back''] False bs))"

section \<open>Jobs and their scheduler\<close>

text \<open>
  \<open>kind\<close> is RingBearer or DemandSpike. \<open>pretty\<close> stands for \<open>JSON.stringify\<close> with an indentation,
  which returns nothing for \<open>undefined\<close>.
\<close>

definition job_info_fields :: "view_field list" where
  "job_info_fields = [untoggled ''id'' ''ID'', untoggled ''description'' ''Description'']"

definition UIJobInfo :: "jsval \<Rightarrow> view" where
  "UIJobInfo job = form_view ''Job Config'' job_info_fields job False []"

definition job_view :: "string \<Rightarrow> (jsval \<Rightarrow> jsval) \<Rightarrow> jsval \<Rightarrow> view result" where
  "job_view kind pretty job0 =
     (let job = (if nullish job0 then JObj [] else job0)
      in bind_result (prop_of ''scriptProperties'' job) (\<lambda>props.
         bind_result (prop_of ''script'' job) (\<lambda>script.
         bind_result (prop_of ''outputAttributes'' job) (\<lambda>attrs.
         bind_result (if nullish attrs then Inr (JStr ''No Console Output available'') else prop_of ''consoleOutput'' attrs) (\<lambda>out.
           Inr (BlockView (Some (kind @ '' Job'')) [] True
             [(UIJobInfo job, False), (ContentView (Some ''Script Properties'') (pretty props) None, False),
              (ContentView (Some ''Script'') script (Some ''javascript''), False), (ContentView None out None, False)]))))))"

definition UIRunningJob :: "jsval \<Rightarrow> view" where
  "UIRunningJob job0 =
     form_view ''Running Job'' job_info_fields (if nullish job0 then JObj [(''tasks'', JArr [])] else job0) False [''detail'']"

definition job_fields :: "view_field list" where
  "job_fields = [clickable (shown ''description'' ''Description''), shown ''id'' ''ID'']"

definition UIListJob :: "string \<Rightarrow> jsval \<Rightarrow> view result" where
  "UIListJob label jobs = table_view label job_fields [] jobs"

definition scheduler_onRefresh :: "(jsnum \<Rightarrow> string) \<Rightarrow> 'w ajax \<Rightarrow> string \<Rightarrow> ('w page, unit) prog" where
  "scheduler_onRefresh nt ajax command =
     seq (in_world (gatewayExecute nt ajax command)) (\<lambda>results.
     seq (lift_result (bind_result (at_index 0 results) (prop_of ''fromMember''))) (\<lambda>_.
     seq (lift_result (bind_result (at_index 0 results) (prop_of ''result''))) (\<lambda>schedulerInfo.
     andthen clear_page
     (seq (lift_result (prop_of ''runningJob'' schedulerInfo)) (\<lambda>job.
     andthen (add_block (UIRunningJob job) False)
     (seq (lift_result (bind_result (prop_of ''waittingJobs'' schedulerInfo) (UIListJob ''Waitting Jobs''))) (\<lambda>waitting.
     andthen (add_block waitting False)
     (seq (lift_result (bind_result (prop_of ''finishedJobs'' schedulerInfo) (UIListJob ''Finished Jobs''))) (\<lambda>finished.
       add_block finished False))))))))) "

definition UIJobScheduler :: "(jsnum \<Rightarrow> string) \<Rightarrow> 'w ajax \<Rightarrow> string \<Rightarrow> ('w, view) prog" where
  "UIJobScheduler nt ajax command =
     seq (built (scheduler_onRefresh nt ajax command)) (\<lambda>bs.
       ret (BlockView (Some ''Job Scheduler Status'') [''refresh'', ''back''] False bs))"

definition ringbearer_scheduler :: string where
  "ringbearer_scheduler = ''ringbearer scheduler --member-role ringbearer''"

definition demandspike_scheduler :: string where
  "demandspike_scheduler = ''demandspike scheduler --member-role demandspike''"

definition RingBearerJobScheduler :: "(jsnum \<Rightarrow> string) \<Rightarrow> 'w ajax \<Rightarrow> ('w, view) prog" where
  "RingBearerJobScheduler nt ajax = UIJobScheduler nt ajax ringbearer_scheduler"

definition DemandSpikeJobScheduler :: "(jsnum \<Rightarrow> string) \<Rightarrow> 'w ajax \<Rightarrow> ('w, view) prog" where
  "DemandSpikeJobScheduler nt ajax = UIJobScheduler nt ajax demandspike_scheduler"

definition UIRingBearerJob :: "(jsval \<Rightarrow> jsval) \<Rightarrow> jsval \<Rightarrow> view result" where
  "UIRingBearerJob = job_view ''RingBearer''"

definition UIDemandSpikeJob :: "(jsval \<Rightarrow> jsval) \<Rightarrow> jsval \<Rightarrow> view result" where
  "UIDemandSpikeJob = job_view ''DemandSpike''"

end
