(* ===== verification/PluginProps.thy ===== *)
theory PluginProps
  imports ClusterViews ElasticViews JobViews
begin

text \<open>
  What the views of the plugins show: the pages that can be refreshed, the metrics of a server
  and of the cluster, and the columns of a search.
\<close>

section \<open>Answers with objects\<close>

definition objs :: "(string \<times> (string \<times> jsval) list) list \<Rightarrow> jsval" where
  "objs xs = JObj (map (\<lambda>(k, o1). (k, JObj o1)) xs)"

definition keyed :: "string \<Rightarrow> (string \<times> (string \<times> jsval) list) list \<Rightarrow> jsval list" where
  "keyed p xs = map (\<lambda>(k, o1). JObj (obj_put p (JStr k) o1)) xs"

lemma entries_with_objs: "entries_with p (objs xs) = Inr (keyed p xs)"
  by (induction xs) (auto simp: entries_with_def objs_def keyed_def entries_of_def put_prop_def)

lemma map_result_total: "(\<And>x. x \<in> set xs \<Longrightarrow> \<exists>y. f x = Inr y) \<Longrightarrow> \<exists>ys. map_result f xs = Inr ys"
proof (induction xs)
  case (Cons x xs)
  then obtain y ys where "f x = Inr y" "map_result f xs = Inr ys" by fastforce
  then show ?case by simp
qed simp

lemma prop_of_obj [simp]: "prop_of k (JObj m) = Inr (get_prop m k)"
  by (simp add: prop_of_def)

lemma table_view_arr [simp]: "table_view l fs acts (JArr vs) = Inr (TableView (Some l) fs vs acts)"
  by (simp add: table_view_def elements_def)

lemma asArray_objs: "asArray (objs xs) = Inr (JArr (keyed ''name'' xs))"
  by (simp add: asArray_def entries_with_objs)

lemma at_index_hd [simp]: "at_index 0 (JArr (v # vs)) = Inr v"
  by (simp add: at_index_def)

lemma table_draws:
  assumes "\<And>b f. b \<in> set bs \<Longrightarrow> f \<in> set fs \<Longrightarrow> \<exists>c. cell_of b f = Inr c"
    and "\<And>b. b \<in> set bs \<Longrightarrow> \<exists>m. b = JObj m"
  shows "\<exists>rs. draw (TableView l fs bs acts) = Inr rs"
proof -
  have "\<exists>rs. map_result (table_row_cells fs) (take 10 bs) = Inr rs"
  proof (rule map_result_total)
    fix b
    assume "b \<in> set (take 10 bs)"
    then have b: "b \<in> set bs" by (rule in_set_takeD)
    then obtain m where "b = JObj m" using assms(2) by blast
    moreover obtain cs where "row_cells fs b = Inr cs"
      using map_result_total [of "filter vf_toggled fs" "cell_of b"] assms(1) [OF b] unfolding row_cells_def by auto
    ultimately show "\<exists>y. table_row_cells fs b = Inr y" by (simp add: table_row_cells_def)
  qed
  then show ?thesis by simp
qed

section \<open>Refreshing a page\<close>

lemma refresh_metric_from: "metric_onRefresh nt ajax m (w, bs) = metric_onRefresh nt ajax m (w, bs')"
  by (simp add: metric_onRefresh_def andthen_def seq_def clear_page_def update_def)

lemma refresh_jvm_from: "jvm_onRefresh nt ajax m (w, bs) = jvm_onRefresh nt ajax m (w, bs')"
  by (simp add: jvm_onRefresh_def andthen_def seq_def clear_page_def update_def)

lemma draw_page_blocks: "draw_page p = (r, p') \<Longrightarrow> p' = p"
  by (auto simp: draw_page_def split: sum.splits)

lemma refresh_metric_count:
  "fst (metric_onRefresh nt ajax m p) = Inr () \<Longrightarrow> length (snd (snd (metric_onRefresh nt ajax m p))) = 2"
  by (auto simp: metric_onRefresh_def page_defs split: prod.splits sum.splits)

lemma refresh_jvm_count:
  "fst (jvm_onRefresh nt ajax m p) = Inr () \<Longrightarrow> length (snd (snd (jvm_onRefresh nt ajax m p))) = 2"
  by (auto simp: jvm_onRefresh_def page_defs split: prod.splits sum.splits)

lemma refresh_scheduler_count:
  "fst (scheduler_onRefresh nt ajax c p) = Inr () \<Longrightarrow> length (snd (snd (scheduler_onRefresh nt ajax c p))) = 3"
  by (auto simp: scheduler_onRefresh_def page_defs split: prod.splits sum.splits)

lemma refresh_applications_count:
  "fst (applications_onRefresh ajax p) = Inr () \<Longrightarrow>
   length (snd (snd (applications_onRefresh ajax p))) = Suc (length (snd p))"
  by (auto simp: applications_onRefresh_def page_defs split: prod.splits sum.splits)

fun refreshes :: "nat \<Rightarrow> ('w page, unit) prog \<Rightarrow> ('w page, unit) prog" where
  "refreshes 0 m = ret ()"
| "refreshes (Suc n) m = andthen m (refreshes n m)"

lemma refreshes_fixed:
  assumes "\<And>p. fst (m p) = Inr () \<Longrightarrow> length (snd (snd (m p))) = k"
    and "fst (refreshes (Suc n) m p) = Inr ()"
  shows "length (snd (snd (refreshes (Suc n) m p))) = k"
  using assms(2)
proof (induction n arbitrary: p)
  case 0
  with assms(1) [of p] show ?case
    by (cases "m p"; cases "fst (m p)") (auto simp: andthen_def seq_def ret_def)
next
  case (Suc n)
  from Suc(2) obtain p' where p': "m p = (Inr (), p')" "fst (refreshes (Suc n) m p') = Inr ()"
    by (cases "m p"; cases "fst (m p)") (auto simp: andthen_def seq_def)
  from Suc(1) [OF p'(2)] p'(1) show ?case by (simp add: andthen_def seq_def)
qed

lemma refreshes_growing:
  assumes "\<And>p. fst (m p) = Inr () \<Longrightarrow> length (snd (snd (m p))) = Suc (length (snd p))"
    and "fst (refreshes n m p) = Inr ()"
  shows "length (snd (snd (refreshes n m p))) = length (snd p) + n"
  using assms(2)
proof (induction n arbitrary: p)
  case 0
  then show ?case by (simp add: ret_def)
next
  case (Suc n)
  from Suc(2) obtain p' where p': "m p = (Inr (), p')" "fst (refreshes n m p') = Inr ()"
    by (cases "m p"; cases "fst (m p)") (auto simp: andthen_def seq_def)
  from Suc(1) [OF p'(2)] assms(1) [of p] p'(1) show ?case by (simp add: andthen_def seq_def)
qed

text \<open>
  C39: Refreshing pages. However often they are refreshed with success, the metrics and the JVM
  page have two blocks and the page of the scheduler three, whatever they had before; the page of
  the Yarn applications gains one more copy of its table each time. A refresh whose request fails
  leaves the metrics and the JVM page empty and the other two as they were.\<close>
theorem refreshed_pages:
  "(fst (refreshes (Suc n) (metric_onRefresh nt ajax m) p) = Inr () \<longrightarrow>
      length (snd (snd (refreshes (Suc n) (metric_onRefresh nt ajax m) p))) = 2) \<and>
   (fst (refreshes (Suc n) (jvm_onRefresh nt ajax m) p) = Inr () \<longrightarrow>
      length (snd (snd (refreshes (Suc n) (jvm_onRefresh nt ajax m) p))) = 2) \<and>
   (fst (refreshes (Suc n) (scheduler_onRefresh nt ajax c) p) = Inr () \<longrightarrow>
      length (snd (snd (refreshes (Suc n) (scheduler_onRefresh nt ajax c) p))) = 3) \<and>
   (fst (refreshes n (applications_onRefresh ajax) p) = Inr () \<longrightarrow>
      length (snd (snd (refreshes n (applications_onRefresh ajax) p))) = length (snd p) + n) \<and>
   ((\<forall>r w. fst (ajax r w) = None) \<longrightarrow>
      snd (snd (metric_onRefresh nt ajax m p)) = [] \<and> snd (snd (jvm_onRefresh nt ajax m p)) = [] \<and>
      snd (snd (scheduler_onRefresh nt ajax c p)) = snd p \<and> snd (snd (applications_onRefresh ajax p)) = snd p \<and>
      \<not> is_ok (fst (metric_onRefresh nt ajax m p)) \<and> \<not> is_ok (fst (applications_onRefresh ajax p)))"
proof -
  have f: "snd (snd (metric_onRefresh nt ajax m p)) = [] \<and> snd (snd (jvm_onRefresh nt ajax m p)) = [] \<and>
      snd (snd (scheduler_onRefresh nt ajax c p)) = snd p \<and> snd (snd (applications_onRefresh ajax p)) = snd p \<and>
      \<not> is_ok (fst (metric_onRefresh nt ajax m p)) \<and> \<not> is_ok (fst (applications_onRefresh ajax p))"
    if fails: "\<forall>r w. fst (ajax r w) = None"
  proof -
    have no: "ajax r w = (None, snd (ajax r w))" for r w
      using fails by (metis prod.collapse)
    have e: "gatewayExecute nt ajax cmd w =
        (Inl (TypeError ''data''), snd (ajax \<lparr>rq_type = ''POST'', rq_url = ''/cluster/rest'', rq_dataType = ''json'',
          rq_data = Some (json_text nt (JObj [(''command'', JStr cmd)]))\<rparr> w))" for cmd w
      unfolding gatewayExecute_def clusterRequest_def serverPOST_def seq_def send_def
      by (subst no) (simp add: lift_result_def prop_of_def)
    have g: "syncGETResource ajax path d w =
        (Inr JNull, snd (ajax \<lparr>rq_type = ''GET'', rq_url = path, rq_dataType = d, rq_data = None\<rparr> w))" for path d w
      unfolding syncGETResource_def send_def by (subst no) simp
    show ?thesis
      by (simp add: metric_onRefresh_def jvm_onRefresh_def scheduler_onRefresh_def applications_onRefresh_def
          page_defs e g UIApplications_def table_view_def elements_def)
  qed
  show ?thesis
    using refreshes_fixed [of "metric_onRefresh nt ajax m", OF refresh_metric_count]
      refreshes_fixed [of "jvm_onRefresh nt ajax m", OF refresh_jvm_count]
      refreshes_fixed [of "scheduler_onRefresh nt ajax c", OF refresh_scheduler_count]
      refreshes_growing [of "applications_onRefresh ajax", OF refresh_applications_count] f
    by blast
qed

theorem refreshed_pages_witness:
  "let ajax = (\<lambda>r w. (Some (JArr []), Suc w)); p = (0 :: nat, [])
   in length (snd (snd (refreshes 3 (applications_onRefresh ajax) p))) = 3"
proof -
  let ?ajax = "\<lambda>r w. (Some (JArr []), Suc w)" and ?p = "(0 :: nat, [] :: (view \<times> bool) list)"
  have "fst (refreshes 3 (applications_onRefresh ?ajax) ?p) = Inr ()"
    by (simp add: numeral_3_eq_3 applications_onRefresh_def page_defs syncGETResource_def send_def UIApplications_def)
  then show ?thesis
    using refreshed_pages [of 3 "\<lambda>_. []" ?ajax "[]" ?p "[]"] by (simp add: Let_def)
qed

section \<open>Metrics of a server\<close>

definition rate_names :: "string list" where
  "rate_names =
     [''mean'', ''stddev'', ''p50'', ''p75'', ''p95'', ''p98'', ''p99'', ''p999'', ''meanRate'', ''m1Rate'', ''m5Rate'', ''m15Rate'']"

definition rated :: "(string \<times> jsval) list \<Rightarrow> bool" where
  "rated o1 \<longleftrightarrow> list_all (\<lambda>k. \<exists>n. get_prop o1 k = JNum n) rate_names"

lemma fixed_ok:
  assumes "rated o1" "k \<in> set rate_names"
  shows "\<exists>c. fixed nt k (JObj (obj_put ''name'' v o1)) = Inr c"
proof -
  have "\<exists>n. get_prop o1 k = JNum n" using assms unfolding rated_def list_all_iff by blast
  moreover have "k \<noteq> ''name''" using assms(2) by (auto simp: rate_names_def)
  ultimately show ?thesis by (auto simp: fixed_def to_fixed_def)
qed

lemma cell_of_cases:
  "cell_of b (display d f) = d b" "cell_of b (shown k l) = prop_of k b" "cell_of b (searchable k l) = prop_of k b"
  "cell_of b (untoggled k l) = prop_of k b" "cell_of b (clickable f) = cell_of b f"
  by (simp_all add: cell_of_def display_def shown_def searchable_def untoggled_def clickable_def split: option.split)

lemma timer_displays:
  "list_all (\<lambda>f. vf_display f = None \<or> list_ex (\<lambda>k. vf_display f = Some (fixed nt k)) rate_names) (timer_fields nt)"
  by (simp add: timer_fields_def display_def shown_def searchable_def rate_names_def)

lemma timer_cells:
  assumes "rated o1" "f \<in> set (timer_fields nt)"
  shows "\<exists>c. cell_of (JObj (obj_put ''name'' v o1)) f = Inr c"
proof -
  have "vf_display f = None \<or> (\<exists>k \<in> set rate_names. vf_display f = Some (fixed nt k))"
    using timer_displays [of nt] assms(2) unfolding list_all_iff list_ex_iff by blast
  then show ?thesis using fixed_ok [OF assms(1)] by (auto simp: cell_of_def)
qed

lemma counter_cells: "f \<in> set counter_fields \<Longrightarrow> \<exists>c. cell_of (JObj m) f = Inr c"
  by (auto simp: counter_fields_def cell_of_cases)

text \<open>
  C30: The metrics of a server. When the server answers with maps of timers and counters and the
  twelve rates of every timer are numbers, the page shows an open table of all timers and a
  collapsed table of all counters, each in the order of the answer and with its name.\<close>
theorem metric_page_shows_all:
  assumes "gatewayExecute nt ajax (''server metric-snapshot --member-name '' @ m) w = (Inr (JArr (JObj r # rest)), w')"
    and "get_prop r ''result'' = JObj reg" "get_prop reg ''timers'' = objs ts" "get_prop reg ''counters'' = objs cs"
    and "list_all (\<lambda>(k, o1). rated o1) ts"
  shows "UIMetric nt ajax m w =
     (Inr (BlockView (Some ''Metric'') [''refresh''] False
        [(TableView (Some ''Timer Metric'') (timer_fields nt) (keyed ''name'' ts) [], False),
         (TableView (Some ''Counter Metric'') counter_fields (keyed ''name'' cs) [], True)]), w')"
proof -
  let ?tv = "TableView (Some ''Timer Metric'') (timer_fields nt) (keyed ''name'' ts) []"
  let ?cv = "TableView (Some ''Counter Metric'') counter_fields (keyed ''name'' cs) []"
  obtain rs where rs: "draw ?tv = Inr rs"
    using table_draws [of "keyed ''name'' ts" "timer_fields nt"] timer_cells assms(5)
    by (fastforce simp: keyed_def list_all_iff)
  obtain rs' where rs': "draw ?cv = Inr rs'"
    using table_draws [of "keyed ''name'' cs" counter_fields] counter_cells by (fastforce simp: keyed_def)
  have "draw_blocks [(?tv, False), (?cv, True)] = Inr (rs @ rs')"
    using rs rs' by (simp only: draw_blocks.simps bind_result_simps append_Nil2)
  then have "metric_onRefresh nt ajax m (w, []) = (Inr (), (w', [(?tv, False), (?cv, True)]))"
    using assms(1-4)
    by (simp add: metric_onRefresh_def page_defs asArray_objs UITimerMetric_def UICounterMetric_def del: draw_blocks.simps)
  then show ?thesis by (simp add: UIMetric_def built_def seq_def ret_def)
qed

theorem metric_page_shows_all_witness:
  "let o1 = map (\<lambda>k. (k, JNum (Fin 1))) rate_names;
       ajax = (\<lambda>r w. (Some (JObj [(''data'', JArr [JObj [(''result'', JObj
         [(''timers'', objs [(''t'', o1)]), (''counters'', objs [(''c'', [])])])]])]), w))
   in \<exists>v. UIMetric (\<lambda>_. []) ajax ''s1'' () = (Inr v, ()) \<and> view_label v = Some ''Metric''"
proof -
  let ?o = "map (\<lambda>k. (k, JNum (Fin 1))) rate_names"
  let ?reg = "[(''timers'', objs [(''t'', ?o)]), (''counters'', objs [(''c'', [])])]"
  let ?ajax = "\<lambda>r w. (Some (JObj [(''data'', JArr [JObj [(''result'', JObj ?reg)]])]), w)"
  have "gatewayExecute (\<lambda>_. []) ?ajax (''server metric-snapshot --member-name '' @ ''s1'') () =
      (Inr (JArr (JObj [(''result'', JObj ?reg)] # [])), ())"
    by (simp add: gatewayExecute_def clusterRequest_def serverPOST_def send_def prog_defs get_prop_def)
  moreover have "rated ?o" by (simp add: rated_def rate_names_def get_prop_def)
  ultimately show ?thesis
    using metric_page_shows_all [of "\<lambda>_. []" ?ajax "''s1''" "()" "[(''result'', JObj ?reg)]" "[]" "()" ?reg
        "[(''t'', ?o)]" "[(''c'', [])]"]
    by (simp add: get_prop_def Let_def)
qed

section \<open>Metrics of the cluster\<close>

definition servers_of :: "string \<Rightarrow> (string \<times> jsval) list \<Rightarrow> (string \<times> (string \<times> jsval) list) list \<Rightarrow> (string \<times> jsval) list" where
  "servers_of name timer servers = [(''timer'', JObj timer), (''timers'', objs servers)]"

definition cluster_answer ::
  "(string \<times> (string \<times> jsval) list \<times> (string \<times> (string \<times> jsval) list) list) list \<Rightarrow> jsval" where
  "cluster_answer ts = objs (map (\<lambda>(name, timer, servers). (name, servers_of name timer servers)) ts)"

lemma node_beans_addChild: "node_beans (addChild b n) = node_beans n @ [b]"
  by (cases n) (simp add: addChild_def newNode_def)

lemma add_servers_objs:
  "i < length ns \<Longrightarrow>
   add_servers i (map (\<lambda>(k, o1). (k, JObj o1)) ss) ns = Inr (ns[i := foldl (\<lambda>n b. addChild b n) (ns ! i) (keyed ''name'' ss)])"
proof (induction ss arbitrary: ns)
  case (Cons s ss)
  obtain k o1 where s: "s = (k, o1)" by (cases s)
  let ?b = "JObj (obj_put ''name'' (JStr k) o1)"
  have "addChildAt [i] ?b ns = ns[i := addChild ?b (ns ! i)]" using Cons(2) by simp
  with Cons(1) [of "ns[i := addChild ?b (ns ! i)]"] Cons(2) show ?case
    by (simp add: s put_prop_def keyed_def)
qed (simp add: keyed_def)

lemma add_servers_reachable: "add_servers i ss ns = Inr ns' \<Longrightarrow> forest_reachable ns \<Longrightarrow> forest_reachable ns'"
proof (induction i ss ns rule: add_servers.induct)
  case (2 i k t r ns)
  obtain t' where t: "put_prop ''name'' (JStr k) t = Inr t'" "add_servers i r (addChildAt [i] t' ns) = Inr ns'"
    using 2(2) by (cases "put_prop ''name'' (JStr k) t") (simp_all del: addChildAt.simps)
  show ?case by (rule 2(1) [OF t(2) fr_child [OF 2(3)]])
qed simp

lemma node_beans_children: "node_beans (foldl (\<lambda>n b. addChild b n) n bs) = node_beans n @ bs"
  by (induction bs arbitrary: n) (simp_all add: node_beans_addChild)

lemma add_timers_objs:
  "\<exists>ns'. add_timers (map (\<lambda>(name, timer, servers). (name, JObj (servers_of name timer servers))) ts) ns = Inr ns' \<and>
     map node_beans ns' = map node_beans ns @
       map (\<lambda>(name, timer, servers). JObj (obj_put ''name'' (JStr name) timer) # keyed ''name'' servers) ts \<and>
     (forest_reachable ns \<longrightarrow> forest_reachable ns')"
proof (induction ts arbitrary: ns)
  case (Cons t ts)
  obtain name timer servers where t: "t = (name, timer, servers)" by (cases t)
  let ?b = "JObj (obj_put ''name'' (JStr name) timer)"
  let ?n = "newNode (''id-'' @ show_nat (length ns)) ?b"
  let ?ns1 = "ns @ [foldl (\<lambda>n b. addChild b n) ?n (keyed ''name'' servers)]"
  have add: "add_servers (length ns) (map (\<lambda>(k, o1). (k, JObj o1)) servers) (addNode ?b ns) = Inr ?ns1"
    using add_servers_objs [of "length ns" "addNode ?b ns" servers] by (simp add: addNode_def nth_append)
  have reach: "forest_reachable ns \<Longrightarrow> forest_reachable ?ns1"
    using add_servers_reachable [OF add] by (blast intro: fr_root)
  have beans: "node_beans (foldl (\<lambda>n b. addChild b n) ?n (keyed ''name'' servers)) = ?b # keyed ''name'' servers"
    by (simp add: node_beans_children newNode_def)
  have step: "add_timers (map (\<lambda>(name, timer, servers). (name, JObj (servers_of name timer servers))) (t # ts)) ns =
      add_timers (map (\<lambda>(name, timer, servers). (name, JObj (servers_of name timer servers))) ts) ?ns1"
    using add by (simp add: t servers_of_def put_prop_def get_prop_def objs_def entries_of_def)
  from Cons(1) [of ?ns1] reach beans show ?case unfolding step by (auto simp: t)
qed simp

text \<open>
  C38: The metrics of the cluster. When the cluster answers with a timer and its servers for each
  name, the tree has one root for each timer, in order, and below it one row for each server, in
  order, all with their names; it is built by adding nodes only, so that every node is found by
  the identifier it was given.\<close>
theorem cluster_tree_mirrors_answer:
  assumes "gatewayExecute nt ajax ''server metric-cluster-snapshot'' w =
      (Inr (JObj [(''result'', JObj [(''counters'', counters), (''timers'', cluster_answer ts)])]), w')"
  shows "\<exists>ns. UIClusterMetric nt ajax ''default'' w =
       (Inr (TreeView (Some ''Cluster Metrics'') (cluster_metric_fields nt) ns), w') \<and>
     map node_beans ns = map (\<lambda>(name, timer, servers). JObj (obj_put ''name'' (JStr name) timer) # keyed ''name'' servers) ts \<and>
     (\<forall>p n. nodeAt p ns = Some n \<longrightarrow> findNodes (node_id n) ns = Some n)"
proof -
  have entries: "entries_of (cluster_answer ts) = map (\<lambda>(name, timer, servers). (name, JObj (servers_of name timer servers))) ts"
    by (simp add: cluster_answer_def objs_def entries_of_def comp_def case_prod_unfold)
  obtain ns where ns: "add_timers (entries_of (cluster_answer ts)) [] = Inr ns"
    "map node_beans ns = map (\<lambda>(name, timer, servers). JObj (obj_put ''name'' (JStr name) timer) # keyed ''name'' servers) ts"
    "forest_reachable ns"
    using add_timers_objs [of ts "[]"] fr_empty unfolding entries by auto
  have "UIClusterMetric nt ajax ''default'' w = (Inr (TreeView (Some ''Cluster Metrics'') (cluster_metric_fields nt) ns), w')"
    using assms ns(1)
    by (simp add: UIClusterMetric_def loadCombineClusterMetricSnapshot_def prog_defs get_prop_def)
  with ns(2) found_by_id [OF ns(3)] show ?thesis by blast
qed

theorem cluster_tree_mirrors_answer_witness:
  "let answer = JObj [(''result'', JObj [(''counters'', JObj []),
         (''timers'', cluster_answer [(''t'', [], [(''s1'', []), (''s2'', [])])])])];
       ajax = (\<lambda>r w. (Some (JObj [(''data'', answer)]), w))
   in \<exists>ns. UIClusterMetric (\<lambda>_. []) ajax ''default'' () =
        (Inr (TreeView (Some ''Cluster Metrics'') (cluster_metric_fields (\<lambda>_. [])) ns), ()) \<and>
      map length (map node_beans ns) = [3]"
proof -
  let ?ts = "[(''t'', [], [(''s1'', []), (''s2'', [])])]"
  let ?answer = "JObj [(''result'', JObj [(''counters'', JObj []), (''timers'', cluster_answer ?ts)])]"
  let ?ajax = "\<lambda>r w. (Some (JObj [(''data'', ?answer)]), w)"
  have "gatewayExecute (\<lambda>_. []) ?ajax ''server metric-cluster-snapshot'' () = (Inr ?answer, ())"
    by (simp add: gatewayExecute_def clusterRequest_def serverPOST_def send_def prog_defs get_prop_def)
  from cluster_tree_mirrors_answer [OF this] show ?thesis by (fastforce simp: keyed_def Let_def)
qed

section \<open>Columns of a search\<close>

text \<open>A mapping in the layout the page expects, with possibly more keys after the first ones.\<close>

definition mapping_of :: "string \<Rightarrow> string \<Rightarrow> string \<Rightarrow> string \<Rightarrow> (string \<times> jsval) list \<Rightarrow>
    (string \<times> jsval) list \<Rightarrow> jsval" where
  "mapping_of i m t p props others = JObj [(i, JObj [(m, JObj ((t, JObj [(p, JObj props)]) # others))])]"

lemma first_value_obj [simp]: "first_value (JObj ((k, v) # m)) = Inr v"
  by (simp add: first_value_def object_keys_def keys_of_def obj_keys_def entries_of_def)

lemma mapping_fields_of: "mapping_fields (mapping_of i m t p props others) = Inr (JObj props)"
  by (simp add: mapping_fields_def mapping_of_def object_keys_def keys_of_def obj_keys_def)

text \<open>
  The columns of a search are the fields of the first type of the index, in the order of its
  mapping, with their own names as labels; the score, the index and the type are columns that are
  not shown. The cells of a doc are its source's values of these fields, and a doc without a
  source makes the table raise.\<close>
lemma search_columns:
  "\<exists>fs. search_fields (mapping_of i m t p props others) = Inr fs \<and>
     map vf_field (filter vf_toggled fs) = obj_keys props \<and> map vf_label (filter vf_toggled fs) = obj_keys props \<and>
     map vf_field (filter (\<lambda>f. \<not> vf_toggled f) fs) = [''_score'', ''_index'', ''_type''] \<and>
     row_cells fs (JObj ((''_source'', JObj src) # doc)) = Inr (map (get_prop src) (obj_keys props)) \<and>
     (props \<noteq> [] \<longrightarrow> \<not> is_ok (row_cells fs (JObj [])))"
proof -
  let ?c = "\<lambda>k. display (source_display k) (searchable k k)"
  let ?fs = "map ?c (obj_keys props)"
  let ?hid = "[untoggled ''_score'' ''Score'', untoggled ''_index'' ''Index'', untoggled ''_type'' ''Type'']"
  have fs: "search_fields (mapping_of i m t p props others) = Inr (?fs @ ?hid)"
    by (simp add: search_fields_def mapping_fields_of keys_of_def)
  have flags: "vf_toggled (?c k)" "vf_field (?c k) = k" "vf_label (?c k) = k" for k
    by (simp_all add: display_def searchable_def shown_def)
  have shown: "filter vf_toggled (?fs @ ?hid) = ?fs" "filter (\<lambda>f. \<not> vf_toggled f) (?fs @ ?hid) = ?hid"
    by (simp_all add: filter_map comp_def flags untoggled_def shown_def)
  have names: "map vf_field ?fs = obj_keys props" "map vf_label ?fs = obj_keys props" "map vf_field ?hid = [''_score'', ''_index'', ''_type'']"
    by (simp_all add: comp_def flags untoggled_def shown_def)
  have "map_result (cell_of (JObj ((''_source'', JObj src) # doc))) (map ?c ks) = Inr (map (get_prop src) ks)" for ks
  proof -
    have "cell_of (JObj ((''_source'', JObj src) # doc)) (?c k) = Inr (get_prop src k)" for k
      by (simp add: cell_of_cases source_display_def get_prop_def)
    then show ?thesis by (induction ks) simp_all
  qed
  then have cells: "row_cells (?fs @ ?hid) (JObj ((''_source'', JObj src) # doc)) = Inr (map (get_prop src) (obj_keys props))"
    by (simp only: row_cells_def shown)
  have none: "\<not> is_ok (row_cells (?fs @ ?hid) (JObj []))" if "props \<noteq> []"
  proof -
    from that obtain k ks where "obj_keys props = k # ks" by (cases props) (auto simp: obj_keys_def)
    moreover have "cell_of (JObj []) (?c k) = Inl (TypeError k)"
      by (simp add: cell_of_cases source_display_def get_prop_def prop_of_def)
    ultimately show ?thesis unfolding row_cells_def shown by simp
  qed
  show ?thesis using fs shown names cells none by auto
qed

lemma search_columns_witness:
  "\<exists>fs. search_fields (mapping_of ''logs'' ''mappings'' ''log'' ''properties'' [(''level'', JObj []), (''msg'', JObj [])] []) = Inr fs \<and>
     row_cells fs (JObj [(''_source'', JObj [(''msg'', JStr ''ok'')])]) = Inr [JUndef, JStr ''ok''] \<and>
     \<not> is_ok (row_cells fs (JObj []))"
  using search_columns [of "''logs''" "''mappings''" "''log''" "''properties''" "[(''level'', JObj []), (''msg'', JObj [])]" "[]"
      "[(''msg'', JStr ''ok'')]" "[]"]
  by (auto simp: obj_keys_def get_prop_def)

end
