(* ===== verification/ApiPages.thy ===== *)
theory ApiPages
  imports Views "HOL-Library.Sublist"
begin

text \<open>
  The pages that document the interface of the gateway (\<open>plugins/*/api\<close>): each call with its
  description, syntax and parameters, and demos that run the call and show the answer in a popup
  (\<open>ui/api/UICallApi.js\<close>, \<open>ui/UIPopup.js\<close>).
\<close>

section \<open>Calls, parameters and demos\<close>

record api_parameter =
  ap_name :: string
  ap_default :: "string option"
  ap_description :: string
  ap_sample :: "string option"

definition memberSelector :: "api_parameter list" where
  "memberSelector =
     [\<lparr>ap_name = ''--member-role'', ap_default = None, ap_description = ''Select the target member by role'',
        ap_sample = Some ''--membe-role generic''\<rparr>,
      \<lparr>ap_name = ''--member-name'', ap_default = None, ap_description = ''Select the target member by member name'',
        ap_sample = Some ''--member-name generic''\<rparr>,
      \<lparr>ap_name = ''--member-uuid'', ap_default = None, ap_description = ''Select the target member by member uuid'',
        ap_sample = None\<rparr>]"

text \<open>What a demo does: a command, a resource, or the entry of the first element of a list.\<close>

datatype demo_action =
    Execute string
  | GetResource string
  | GetFirst string string

record demo =
  dm_name :: string
  dm_description :: string
  dm_action :: demo_action

record api_call =
  ac_label :: string
  ac_description :: "string list"
  ac_syntax :: string
  ac_common :: "api_parameter list option"
  ac_parameters :: "api_parameter list option"
  ac_demos :: "demo list"

text \<open>A page: its label and the calls, each with its collapsed state.\<close>

type_synonym api_page = "string \<times> (api_call \<times> bool) list"

section \<open>The pages\<close>

definition server_calls :: "api_call list" where
  "server_calls =
     [\<lparr>ac_label = ''Server Ping'',
        ac_description = [''The ping method allow the client to check the running status of the servers '',
          ''by the member name, member role.''],
        ac_syntax = ''ClusterGateway.execute('' @ CHR 0x27 # ''server ping [--param-name param-value]'' @ CHR 0x27 # '')'',
        ac_common = Some memberSelector, ac_parameters = Some [],
        ac_demos = [\<lparr>dm_name = ''ping-all'', dm_description = ''Ping all the servers'', dm_action = Execute ''server ping''\<rparr>]\<rparr>,
      \<lparr>ac_label = ''Server Registration'',
        ac_description = [''The server registration command allow the client to get the full information(status, services...) of a server or a group of server''],
        ac_syntax = ''ClusterGateway.execute('' @ CHR 0x27 # ''server registration [--param value]'' @ CHR 0x27 # '')'',
        ac_common = Some memberSelector, ac_parameters = Some [],
        ac_demos = [\<lparr>dm_name = ''server-registration'', dm_description = ''Get server registration of all the servers'',
          dm_action = Execute ''server registration''\<rparr>]\<rparr>,
      \<lparr>ac_label = ''Server Metric'',
        ac_description = [''The server metric command allow the client to get the full metric information of a server or a group of server''],
        ac_syntax = ''ClusterGateway.execute('' @ CHR 0x27 # ''server metric [--param value]'' @ CHR 0x27 # '')'',
        ac_common = Some memberSelector,
        ac_parameters = Some [\<lparr>ap_name = ''--filter'', ap_default = None,
          ap_description = ''Filter the metric by the metric name'', ap_sample = Some ''--filter *Kafka*''\<rparr>],
        ac_demos = [\<lparr>dm_name = ''server-metric'', dm_description = ''Get server metric of all the servers'',
          dm_action = Execute ''server metric''\<rparr>]\<rparr>,
      \<lparr>ac_label = ''Server Metric Clear'',
        ac_description = [''The server metric clear command allow the client to clear the metric information of a server or a group of server''],
        ac_syntax = ''ClusterGateway.execute('' @ CHR 0x27 # ''server metric-clear [--param value]'' @ CHR 0x27 # '')'',
        ac_common = Some memberSelector,
        ac_parameters = Some [\<lparr>ap_name = ''--expression'', ap_default = None,
          ap_description = ''Select the metric name by the pattern expression'', ap_sample = Some ''--expression *Kafka*''\<rparr>],
        ac_demos = [\<lparr>dm_name = ''server-metric-clear'', dm_description = ''Clear the server metric of all the servers'',
          dm_action = Execute ''server metric-clear --expression *''\<rparr>]\<rparr>,
      \<lparr>ac_label = ''Server JVM Info'',
        ac_description = [''The server jvminfo command allow the client to get the full information of jvm(memory, thread, garbage collector)''],
        ac_syntax = ''ClusterGateway.execute('' @ CHR 0x27 # ''server jvminfo [--param value]*'' @ CHR 0x27 # '')'',
        ac_common = Some memberSelector, ac_parameters = Some [],
        ac_demos = [\<lparr>dm_name = ''server-jvminfo'', dm_description = ''Get server jvm info of the generic server'',
          dm_action = Execute ''server jvminfo --member-role generic''\<rparr>]\<rparr>]"

definition UIServerApi :: api_page where
  "UIServerApi = (''Server Api'', map (\<lambda>c. (c, True)) server_calls)"

definition cluster_calls :: "api_call list" where
  "cluster_calls =
     [\<lparr>ac_label = ''Cluster Registration'',
        ac_description = [''This method allow the client to load the entire cluster information, the info, services, status of each server.''],
        ac_syntax = ''ClusterGateway.execute('' @ CHR 0x27 # ''cluster registration'' @ CHR 0x27 # '')'',
        ac_common = None, ac_parameters = None,
        ac_demos = [\<lparr>dm_name = ''cluster-registration'', dm_description = ''Load the cluster registration'',
          dm_action = Execute ''cluster registration''\<rparr>]\<rparr>]"

definition UIClusterApi :: api_page where
  "UIClusterApi = (''Cluster Api'', map (\<lambda>c. (c, False)) cluster_calls)"

definition module_calls :: "api_call list" where
  "module_calls =
     [\<lparr>ac_label = ''Module List'',
        ac_description = [''This method allow the client to list the avaialble and installed module and services on each server.''],
        ac_syntax = ''ClusterGateway.execute('' @ CHR 0x27 # ''module list [--param value]*'' @ CHR 0x27 # '')'',
        ac_common = Some memberSelector,
        ac_parameters = Some [\<lparr>ap_name = ''--type'', ap_default = Some ''available'',
          ap_description = ''Status type of the module , can be available or installed'', ap_sample = Some ''--type installed''\<rparr>],
        ac_demos =
          [\<lparr>dm_name = ''module-list-available'', dm_description = ''List the avaialble modules'',
              dm_action = Execute ''module list --type available''\<rparr>,
           \<lparr>dm_name = ''module-list-installed'', dm_description = ''List the installed modules'',
              dm_action = Execute ''module list --type installed''\<rparr>]\<rparr>]"

definition UIModuleApi :: api_page where
  "UIModuleApi = (''Module Api'', map (\<lambda>c. (c, False)) module_calls)"

text \<open>The pages of RingBearer and DemandSpike.\<close>

definition ringbearer_calls :: "api_call list" where
  "ringbearer_calls =
     [\<lparr>ac_label = ''Scheduler status'',
        ac_description = [''This method allow the client to list the status of the waitting jobs and running job.''],
        ac_syntax = ''ClusterGateway.execute('' @ CHR 0x27 # ''ringbearer scheduler [--param value]*'' @ CHR 0x27 # '')'',
        ac_common = Some memberSelector, ac_parameters = Some [],
        ac_demos = [\<lparr>dm_name = ''ringbearer-scheduler'', dm_description = ''Get the service scheduler status'',
          dm_action = Execute ''ringbearer scheduler --member-role ringbearer''\<rparr>]\<rparr>]"

definition UIRingBearerApi :: api_page where
  "UIRingBearerApi = (''RingBearer Api'', map (\<lambda>c. (c, False)) ringbearer_calls)"

definition demandspike_calls :: "api_call list" where
  "demandspike_calls =
     [\<lparr>ac_label = ''Scheduler status'',
        ac_description = [''This method allow the client to list the status of the waitting jobs and running job.''],
        ac_syntax = ''ClusterGateway.execute('' @ CHR 0x27 # ''demandspike scheduler [--param value]*'' @ CHR 0x27 # '')'',
        ac_common = Some memberSelector, ac_parameters = Some [],
        ac_demos = [\<lparr>dm_name = ''demandspike-scheduler'', dm_description = ''Get the service scheduler status'',
          dm_action = Execute ''demandspike scheduler --member-role demandspike''\<rparr>]\<rparr>]"

definition UIDemandSpikeApi :: api_page where
  "UIDemandSpikeApi = (''DemandSpike Api'', map (\<lambda>c. (c, False)) demandspike_calls)"

definition yarn_calls :: "api_call list" where
  "yarn_calls =
     [\<lparr>ac_label = ''Application History List'',
        ac_description = [''This method allow to list all the running and finished yarn application that use NeverwinterDP yarn framework''],
        ac_syntax = ''http://host:port/yarn-app/history/list'', ac_common = Some [], ac_parameters = Some [],
        ac_demos = [\<lparr>dm_name = ''yarn-application-history-list'', dm_description = ''List the yarn applications'',
          dm_action = GetResource ''/yarn-app/history/list''\<rparr>]\<rparr>,
      \<lparr>ac_label = ''Application History Info'',
        ac_description = [''This method allow to get the info of a running or finished yarn application that use NeverwinterDP yarn framework''],
        ac_syntax = ''http://host:port/yarn-app/history/app/:appId'', ac_common = Some [], ac_parameters = Some [],
        ac_demos = [\<lparr>dm_name = ''yarn-application-history-info'', dm_description = ''Get the yarn application info'',
          dm_action = GetFirst ''/yarn-app/history/list'' ''/yarn-app/history/app/''\<rparr>]\<rparr>]"

definition UIYarnApi :: api_page where
  "UIYarnApi = (''DemandSpike Api'', map (\<lambda>c. (c, False)) yarn_calls)"

section \<open>What a page shows and does\<close>

text \<open>The rows of a table of parameters; without parameters there is no table.\<close>

definition parameter_row :: "api_parameter \<Rightarrow> string list" where
  "parameter_row p =
     [ap_name p, (case ap_default p of None \<Rightarrow> ''none'' | Some d \<Rightarrow> d), ap_description p,
      (case ap_sample p of None \<Rightarrow> [] | Some s \<Rightarrow> s)]"

definition parameter_table :: "api_parameter list option \<Rightarrow> string list list" where
  "parameter_table ps = (case ps of None \<Rightarrow> [] | Some ps \<Rightarrow> map parameter_row ps)"

definition call_tables :: "api_call \<Rightarrow> string list list \<times> string list list" where
  "call_tables c = (parameter_table (ac_common c), parameter_table (ac_parameters c))"

text \<open>
  The page runs in a world of requests, with the view the popup holds. \<open>run_demo\<close> returns the
  result to show, if there is one.
\<close>

type_synonym 'w popup = "'w \<times> view option"

definition run_demo :: "(jsnum \<Rightarrow> string) \<Rightarrow> 'w ajax \<Rightarrow> demo_action \<Rightarrow> ('w, jsval option) prog" where
  "run_demo nt ajax a =
     (case a of
        Execute command \<Rightarrow> seq (gatewayExecute nt ajax command) (\<lambda>r. ret (Some r))
      | GetResource path \<Rightarrow> seq (syncGETResource ajax path ''json'') (\<lambda>r. ret (Some r))
      | GetFirst listPath appPath \<Rightarrow>
          seq (syncGETResource ajax listPath ''json'') (\<lambda>list.
          seq (lift_result (elements list)) (\<lambda>xs.
            if xs = [] then ret None
            else seq (lift_result (prop_of ''appId'' (hd xs))) (\<lambda>i.
              seq (syncGETResource ajax (appPath @ js_text nt i) ''json'') (\<lambda>r. ret (Some r))))))"

text \<open>\<open>UIPopup\<close>: a view is drawn into the dialog; closing it empties the dialog.\<close>

definition activate :: "view \<Rightarrow> ('w popup, unit) prog" where
  "activate v = update (\<lambda>p. (fst p, Some v))"

definition closePopup :: "('w popup, unit) prog" where
  "closePopup = update (\<lambda>p. (fst p, None))"

definition popupJSONResult :: "(jsval \<Rightarrow> jsval) \<Rightarrow> jsval \<Rightarrow> ('w popup, unit) prog" where
  "popupJSONResult pretty result = activate (ContentView None (pretty result) None)"

text \<open>The click on a demo of a call, by its name.\<close>

definition call_onRunDemo ::
  "(jsnum \<Rightarrow> string) \<Rightarrow> (jsval \<Rightarrow> jsval) \<Rightarrow> 'w ajax \<Rightarrow> api_call \<Rightarrow> string \<Rightarrow> ('w popup, unit) prog" where
  "call_onRunDemo nt pretty ajax c name p =
     (case onRunDemo (map (\<lambda>d. (dm_name d, dm_action d)) (ac_demos c)) name of
        None \<Rightarrow> (Inr (), p)
      | Some a \<Rightarrow>
          (case run_demo nt ajax a (fst p) of
             (Inl e, w') \<Rightarrow> (Inl e, (w', snd p))
           | (Inr None, w') \<Rightarrow> (Inr (), (w', snd p))
           | (Inr (Some r), w') \<Rightarrow> popupJSONResult pretty r (w', snd p)))"

section \<open>Properties\<close>

definition documented_calls :: "api_call list" where
  "documented_calls = server_calls @ cluster_calls @ module_calls @ ringbearer_calls @ demandspike_calls"

text \<open>The command words of a documented call: the text between the quote and the parameters.\<close>

definition documented_command :: "api_call \<Rightarrow> string" where
  "documented_command c = takeWhile (\<lambda>x. x \<noteq> CHR ''['' \<and> x \<noteq> CHR 0x27) (drop (length ''ClusterGateway.execute('' + 1) (ac_syntax c))"

definition documents :: "api_call \<Rightarrow> bool" where
  "documents c \<longleftrightarrow> distinct (map dm_name (ac_demos c)) \<and>
     list_all (\<lambda>d. case dm_action d of Execute cmd \<Rightarrow> prefix (documented_command c) (cmd @ '' '') | _ \<Rightarrow> False) (ac_demos c)"

lemma all_documented: "list_all documents documented_calls"
  by code_simp

lemma onRunDemo_named:
  assumes "distinct (map dm_name ds)" "d \<in> set ds"
  shows "onRunDemo (map (\<lambda>d. (dm_name d, dm_action d)) ds) (dm_name d) = Some (dm_action d)"
  using assms
proof (induction ds)
  case (Cons e ds)
  then show ?case by (cases "d = e") (auto simp: onRunDemo_def)
qed simp

text \<open>A GET, with \<open>null\<close> for the answer of a failing one.\<close>

definition fetched :: "'w ajax \<Rightarrow> string \<Rightarrow> 'w \<Rightarrow> jsval \<times> 'w" where
  "fetched ajax path w =
     (case ajax \<lparr>rq_type = ''GET'', rq_url = path, rq_dataType = ''json'', rq_data = None\<rparr> w of
        (answer, w') \<Rightarrow> (case answer of None \<Rightarrow> JNull | Some v \<Rightarrow> v, w'))"

lemma syncGET_fetched: "syncGETResource ajax path ''json'' w = (Inr (fst (fetched ajax path w)), snd (fetched ajax path w))"
  by (simp add: syncGETResource_def send_def fetched_def split: prod.split option.split)

definition shows_json :: "(jsval \<Rightarrow> jsval) \<Rightarrow> jsval \<times> 'w \<Rightarrow> unit result \<times> 'w popup" where
  "shows_json pretty r = (Inr (), (snd r, Some (ContentView None (pretty (fst r)) None)))"

lemma call_onRunDemo_run:
  assumes "distinct (map dm_name (ac_demos c))" "d \<in> set (ac_demos c)"
  shows "call_onRunDemo nt pretty ajax c (dm_name d) (w, popup) =
     (case run_demo nt ajax (dm_action d) w of
        (Inl e, w') \<Rightarrow> (Inl e, (w', popup))
      | (Inr None, w') \<Rightarrow> (Inr (), (w', popup))
      | (Inr (Some r), w') \<Rightarrow> shows_json pretty (r, w'))"
  by (simp add: call_onRunDemo_def onRunDemo_named [OF assms] popupJSONResult_def activate_def shows_json_def prog_defs
      split: prod.split sum.split option.split)

text \<open>
  C40: Every demo of every page runs what its call documents. A command starts with the words of the
  call; it is sent once, the data of the answer is shown as JSON in the popup, and when the request
  fails the click raises and the popup keeps what it had. The two demos of Yarn get the documented
  resource: the list is shown, or \<open>null\<close> when the request fails; the application shown is the first of
  the list, and when the list is empty nothing is shown, when it failed the click raises, both times
  without a second request.\<close>
theorem demo_runs_documented_call:
  fixes nt pretty and ajax :: "'w ajax" and w :: 'w and popup
  assumes "c \<in> set (documented_calls @ yarn_calls)" "d \<in> set (ac_demos c)"
  defines "click \<equiv> call_onRunDemo nt pretty ajax c (dm_name d) (w, popup)"
  shows "case dm_action d of
      Execute cmd \<Rightarrow> prefix (documented_command c) (cmd @ '' '') \<and>
        click = (case gatewayExecute nt ajax cmd w of
            (Inr v, w') \<Rightarrow> shows_json pretty (v, w')
          | (Inl e, w') \<Rightarrow> (Inl e, (w', popup)))
    | GetResource path \<Rightarrow> ac_syntax c = ''http://host:port'' @ path \<and> click = shows_json pretty (fetched ajax path w)
    | GetFirst listPath appPath \<Rightarrow> ac_syntax c = ''http://host:port'' @ appPath @ '':appId'' \<and>
        (let (apps, w1) = fetched ajax listPath w
         in (apps = JNull \<longrightarrow> \<not> is_ok (fst click) \<and> snd click = (w1, popup)) \<and>
            (apps = JArr [] \<longrightarrow> click = (Inr (), (w1, popup))) \<and>
            (\<forall>x xs i. apps = JArr (x # xs) \<and> prop_of ''appId'' x = Inr i \<longrightarrow>
               click = shows_json pretty (fetched ajax (appPath @ js_text nt i) w1)))"
proof (cases "c \<in> set documented_calls")
  case True
  then have doc: "documents c" using all_documented unfolding list_all_iff by blast
  then have "case dm_action d of Execute cmd \<Rightarrow> prefix (documented_command c) (cmd @ '' '') | _ \<Rightarrow> False"
    using assms(2) by (simp add: documents_def list_all_iff)
  moreover have "distinct (map dm_name (ac_demos c))" using doc by (simp add: documents_def)
  ultimately show ?thesis unfolding click_def
    by (cases "dm_action d")
      (auto simp: call_onRunDemo_run [OF _ assms(2)] run_demo_def prog_defs split: prod.split sum.split)
next
  case False
  then have "c \<in> set yarn_calls" using assms(1) by simp
  then have doc: "distinct (map dm_name (ac_demos c))"
    "(\<exists>path. dm_action d = GetResource path \<and> ac_syntax c = ''http://host:port'' @ path) \<or>
     (\<exists>l app. dm_action d = GetFirst l app \<and> ac_syntax c = ''http://host:port'' @ app @ '':appId'')"
    using assms(2) by (auto simp: yarn_calls_def)
  show ?thesis unfolding click_def call_onRunDemo_run [OF doc(1) assms(2)] using doc(2)
    by (auto simp: run_demo_def prog_defs syncGET_fetched elements_def case_prod_unfold)
qed

theorem demo_runs_documented_call_witness:
  "let c = hd module_calls; ajax = (\<lambda>r w. (Some (JObj [(''data'', JArr [])]), Suc w))
   in call_onRunDemo (\<lambda>_. []) (\<lambda>v. v) ajax c ''module-list-installed'' (0, None) =
        (Inr (), (1, Some (ContentView None (JArr []) None))) \<and>
      call_onRunDemo (\<lambda>_. []) (\<lambda>v. v) (\<lambda>r w. (None, Suc w)) (hd yarn_calls) ''yarn-application-history-list'' (0, None) =
        (Inr (), (1, Some (ContentView None JNull None)))"
proof -
  let ?c = "hd module_calls" and ?d = "ac_demos (hd module_calls) ! 1" and ?y = "hd (ac_demos (hd yarn_calls))"
  let ?ajax = "\<lambda>r w. (Some (JObj [(''data'', JArr [])]), Suc w)" and ?fail = "\<lambda>r w. (None, Suc w)"
  have m: "?c \<in> set (documented_calls @ yarn_calls)" "?d \<in> set (ac_demos ?c)"
    "dm_name ?d = ''module-list-installed''" "dm_action ?d = Execute ''module list --type installed''"
    by (simp_all add: module_calls_def documented_calls_def)
  have y: "hd yarn_calls \<in> set (documented_calls @ yarn_calls)" "?y \<in> set (ac_demos (hd yarn_calls))"
    "dm_name ?y = ''yarn-application-history-list''" "dm_action ?y = GetResource ''/yarn-app/history/list''"
    by (simp_all add: yarn_calls_def)
  have "gatewayExecute (\<lambda>_. []) ?ajax cmd 0 = (Inr (JArr []), 1)" for cmd
    by (simp add: gatewayExecute_def clusterRequest_def serverPOST_def send_def prog_defs prop_of_def get_prop_def)
  then show ?thesis
    using demo_runs_documented_call [OF m(1,2), of "\<lambda>_. []" "\<lambda>v. v" ?ajax 0 None]
      demo_runs_documented_call [OF y(1,2), of "\<lambda>_. []" "\<lambda>v. v" ?fail 0 None]
    unfolding m(3,4) y(3,4) by (simp add: Let_def shows_json_def fetched_def)
qed

end
