(* ===== verification/Navigation.thy ===== *)
theory Navigation
  imports ClusterViews ElasticViews JobViews ApiPages
begin

text \<open>
  The menus of the plugins (\<open>plugins/*/UINavigation.js\<close>), the workspace they open views in
  (\<open>site/UIWorkspace.js\<close>), and the clicks in the views that add further views to the trail.
\<close>

section \<open>The workspace\<close>

text \<open>
  The workspace is empty, or shows a trail, a page of the gateway's interface, or a demo
  component. The desk adds the world of the requests and all views made so far; a trail refers to
  its views by their position there.
\<close>

datatype place = Blank | TrailOf breadcrumbs | PageOf api_page | DemoOf string

record 'w desk =
  dk_world :: 'w
  dk_views :: "view list"
  dk_place :: place

definition newDesk :: "'w \<Rightarrow> 'w desk" where
  "newDesk w = \<lparr>dk_world = w, dk_views = [], dk_place = Blank\<rparr>"

definition in_desk :: "('w, 'a) prog \<Rightarrow> ('w desk, 'a) prog" where
  "in_desk m d = (case m (dk_world d) of (r, w') \<Rightarrow> (r, d\<lparr>dk_world := w'\<rparr>))"

definition setUIComponent :: "place \<Rightarrow> ('w desk, unit) prog" where
  "setUIComponent p =
     update (\<lambda>d. d\<lparr>dk_place := (case p of TrailOf b \<Rightarrow> TrailOf (renderBreadcrumbs b) | _ \<Rightarrow> p)\<rparr>)"

text \<open>
  Drawing a table or a page of blocks writes its frame before the rows or blocks, so the area shows
  it even when drawing raises after that. Forms, trees and contents are one template: when it raises,
  the area keeps what it showed.
\<close>

definition replaces_area :: "view \<Rightarrow> bool" where
  "replaces_area v \<longleftrightarrow> is_ok (draw v) \<or> (case v of TableView _ _ _ _ \<Rightarrow> True | BlockView _ _ _ _ \<Rightarrow> True | _ \<Rightarrow> False)"

text \<open>\<open>push\<close> puts the view on the trail and then draws it, which may raise.\<close>

definition push_view :: "view \<Rightarrow> ('w desk, unit) prog" where
  "push_view v =
     andthen
       (update (\<lambda>d. case dk_place d of
            TrailOf b \<Rightarrow> d\<lparr>dk_views := dk_views d @ [v],
              dk_place := TrailOf ((pushView \<lparr>cv_id = length (dk_views d), cv_label = view_label v\<rparr> b)
                \<lparr>bc_content := (if replaces_area v then Some (length (dk_views d)) else bc_content b)\<rparr>)\<rparr>
          | _ \<Rightarrow> d))
       (seq (lift_result (draw v)) (\<lambda>_. ret ()))"

text \<open>
  The menus of the cluster and Elasticsearch make the view and then open a new trail for it; the
  other menus open the trail first. A click in a view makes a view and adds it to the trail.
\<close>

definition build_then_open :: "('w, view) prog \<Rightarrow> ('w desk, unit) prog" where
  "build_then_open m =
     seq (in_desk m) (\<lambda>v. andthen (setUIComponent (TrailOf newBreadcrumbs)) (push_view v))"

definition open_then_build :: "('w, view) prog \<Rightarrow> ('w desk, unit) prog" where
  "open_then_build m =
     andthen (setUIComponent (TrailOf newBreadcrumbs)) (seq (in_desk m) push_view)"

section \<open>The menus\<close>

text \<open>The entries below the fixed ones: the members, and for each role its members.\<close>

definition menu_text :: "(jsnum \<Rightarrow> string) \<Rightarrow> jsval \<Rightarrow> string" where
  "menu_text nt v = (if nullish v then [] else js_text nt v)"

definition member_entries :: "(jsnum \<Rightarrow> string) \<Rightarrow> jsval list \<Rightarrow> string list result" where
  "member_entries nt = map_result (\<lambda>m. bind_result (prop_of ''memberName'' m) (\<lambda>n. Inr (menu_text nt n)))"

definition menu_entries :: "(jsnum \<Rightarrow> string) \<Rightarrow> jsval \<Rightarrow> (string list \<times> (string \<times> string list) list) result" where
  "menu_entries nt reg =
     bind_result (bind_result (getMembers reg) (member_entries nt)) (\<lambda>members.
     bind_result (getRoleSet nt reg) (\<lambda>roles.
     bind_result (map_result (\<lambda>role. bind_result (bind_result (getMemberByRole role reg) (member_entries nt))
         (\<lambda>ms. Inr (role, ms))) roles) (\<lambda>by_role.
       Inr (members, by_role))))"

datatype cluster_click =
    onListServer
  | onListModule
  | onListMetric
  | onYaraMetric
  | onClusterRegistration
  | onServerRegistration string

fun cluster_view :: "(jsnum \<Rightarrow> string) \<Rightarrow> 'w ajax \<Rightarrow> cluster_click \<Rightarrow> ('w, view) prog" where
  "cluster_view nt ajax onListServer = UIListServer nt ajax"
| "cluster_view nt ajax onListModule = UIListModule nt ajax"
| "cluster_view nt ajax onListMetric = UIClusterMetric nt ajax ''default''"
| "cluster_view nt ajax onYaraMetric = UIClusterMetric nt ajax ''yara''"
| "cluster_view nt ajax onClusterRegistration = UIClusterRegistration nt ajax"
| "cluster_view nt ajax (onServerRegistration memberName) = UIServerRegistration nt ajax JUndef memberName"

text \<open>The search page draws its form and below it the table of the hits.\<close>

definition UISearch :: "(jsnum \<Rightarrow> string) \<Rightarrow> 'w ajax \<Rightarrow> string \<Rightarrow> ('w, view) prog" where
  "UISearch nt ajax index =
     seq (newSearch nt ajax index) (\<lambda>p. ret (BlockView (Some (''Search '' @ index)) [] True [(sr_table p, False)]))"

datatype elastic_click =
    onSelectCluster
  | onSelectNodes
  | onSelectIndices
  | onSelectSearchIndex string
  | onSelectStats

definition elastic_menu :: "(jsnum \<Rightarrow> string) \<Rightarrow> 'w ajax \<Rightarrow> elastic_click \<Rightarrow> ('w desk, unit) prog" where
  "elastic_menu nt ajax c =
     (case c of
        onSelectCluster \<Rightarrow> seq (in_desk (clusterStats ajax)) (\<lambda>_. ret ())
      | onSelectNodes \<Rightarrow> build_then_open (UINodes ajax)
      | onSelectIndices \<Rightarrow> build_then_open (UIIndices ajax)
      | onSelectSearchIndex index \<Rightarrow> build_then_open (UISearch nt ajax index)
      | onSelectStats \<Rightarrow> seq (in_desk (esStats ajax)) (\<lambda>_. ret ()))"

text \<open>Drawing the menu of Elasticsearch lists the indices and opens the nodes.\<close>

definition elastic_render :: "(jsnum \<Rightarrow> string) \<Rightarrow> 'w ajax \<Rightarrow> ('w desk, string list) prog" where
  "elastic_render nt ajax =
     seq (in_desk (availableIndices ajax)) (\<lambda>indices. andthen (elastic_menu nt ajax onSelectNodes) (ret indices))"

text \<open>
  The other menus load the module that the entry names and make its component. The names are
  those of the templates of the menus (\<open>UINavigation.jtpl\<close>); no other name reaches the handlers.
\<close>

definition yarn_module :: "'w ajax \<Rightarrow> string \<Rightarrow> ('w, view) prog option" where
  "yarn_module ajax name = (if name = ''UIListApplication'' then Some (UIListApplication ajax) else None)"

definition ringbearer_module :: "(jsnum \<Rightarrow> string) \<Rightarrow> 'w ajax \<Rightarrow> string \<Rightarrow> ('w, view) prog option" where
  "ringbearer_module nt ajax name = (if name = ''UIJobScheduler'' then Some (RingBearerJobScheduler nt ajax) else None)"

definition demandspike_module :: "(jsnum \<Rightarrow> string) \<Rightarrow> 'w ajax \<Rightarrow> string \<Rightarrow> ('w, view) prog option" where
  "demandspike_module nt ajax name = (if name = ''UIJobScheduler'' then Some (DemandSpikeJobScheduler nt ajax) else None)"

definition open_module :: "('w, view) prog option \<Rightarrow> ('w desk, unit) prog" where
  "open_module m = (case m of None \<Rightarrow> ret () | Some m \<Rightarrow> open_then_build m)"

definition yarn_onSelect :: "'w ajax \<Rightarrow> string \<Rightarrow> ('w desk, unit) prog" where
  "yarn_onSelect ajax name = open_module (yarn_module ajax name)"

definition ringbearer_onSelect :: "(jsnum \<Rightarrow> string) \<Rightarrow> 'w ajax \<Rightarrow> string \<Rightarrow> ('w desk, unit) prog" where
  "ringbearer_onSelect nt ajax name = open_module (ringbearer_module nt ajax name)"

definition demandspike_onSelect :: "(jsnum \<Rightarrow> string) \<Rightarrow> 'w ajax \<Rightarrow> string \<Rightarrow> ('w desk, unit) prog" where
  "demandspike_onSelect nt ajax name = open_module (demandspike_module nt ajax name)"

text \<open>The pages of the interfaces, by plugin and name, and the demo components.\<close>

definition open_page :: "(string \<times> api_page) list \<Rightarrow> string \<Rightarrow> ('w desk, unit) prog" where
  "open_page pages name = (case map_of pages name of None \<Rightarrow> ret () | Some p \<Rightarrow> setUIComponent (PageOf p))"

definition cluster_api_onSelect :: "string \<Rightarrow> ('w desk, unit) prog" where
  "cluster_api_onSelect = open_page [(''Cluster'', UIClusterApi), (''Server'', UIServerApi), (''Module'', UIModuleApi)]"

definition yarn_api_onSelect :: "string \<Rightarrow> ('w desk, unit) prog" where
  "yarn_api_onSelect = open_page [(''Yarn'', UIYarnApi)]"

definition ringbearer_api_onSelect :: "string \<Rightarrow> ('w desk, unit) prog" where
  "ringbearer_api_onSelect = open_page [(''RingBearer'', UIRingBearerApi)]"

definition demandspike_api_onSelect :: "string \<Rightarrow> ('w desk, unit) prog" where
  "demandspike_api_onSelect = open_page [(''DemandSpike'', UIDemandSpikeApi)]"

definition uidemo_onSelect :: "string \<Rightarrow> ('w desk, unit) prog" where
  "uidemo_onSelect name =
     (if name \<in> set [''UITableDemo'', ''UITableTreeDemo'', ''UIBeanDemo''] then setUIComponent (DemoOf name) else ret ())"

section \<open>Clicks in the views\<close>

text \<open>
  The rows and actions that make a view, with the bean they belong to. \<open>detail\<close> shows a job of
  RingBearer or DemandSpike.
\<close>

datatype row_click =
    ServerRow jsval
  | ServerAction nat jsval
  | MemberAction string jsval
  | MemoryMore jsval
  | ThreadMore jsval
  | NodeRow jsval
  | ApplicationRow jsval
  | RingBearerJobRow jsval
  | DemandSpikeJobRow jsval

fun clicked_view :: "(jsnum \<Rightarrow> string) \<Rightarrow> (jsval \<Rightarrow> jsval) \<Rightarrow> 'w ajax \<Rightarrow> row_click \<Rightarrow> ('w, view option) prog" where
  "clicked_view nt pretty ajax (ServerRow b) = seq (server_click nt ajax b) (\<lambda>v. ret (Some v))"
| "clicked_view nt pretty ajax (ServerAction i b) = seq (server_action nt ajax i b) (\<lambda>v. ret (Some v))"
| "clicked_view nt pretty ajax (MemberAction a b) = member_action nt ajax a b"
| "clicked_view nt pretty ajax (MemoryMore jvm) = seq (lift_result (UIMemoryMonitorDetail jvm)) (\<lambda>v. ret (Some v))"
| "clicked_view nt pretty ajax (ThreadMore t) = seq (lift_result (UIThreadMonitorDetail t)) (\<lambda>v. ret (Some v))"
| "clicked_view nt pretty ajax (NodeRow b) = seq (lift_result (UINodeDetail b)) (\<lambda>v. ret (Some v))"
| "clicked_view nt pretty ajax (ApplicationRow b) = seq (application_click nt ajax b) (\<lambda>v. ret (Some v))"
| "clicked_view nt pretty ajax (RingBearerJobRow b) = seq (lift_result (UIRingBearerJob pretty b)) (\<lambda>v. ret (Some v))"
| "clicked_view nt pretty ajax (DemandSpikeJobRow b) = seq (lift_result (UIDemandSpikeJob pretty b)) (\<lambda>v. ret (Some v))"

definition click_row :: "(jsnum \<Rightarrow> string) \<Rightarrow> (jsval \<Rightarrow> jsval) \<Rightarrow> 'w ajax \<Rightarrow> row_click \<Rightarrow> ('w desk, unit) prog" where
  "click_row nt pretty ajax c =
     seq (in_desk (clicked_view nt pretty ajax c)) (\<lambda>v. case v of None \<Rightarrow> ret () | Some v \<Rightarrow> push_view v)"

text \<open>
  A click in the trail. When it \<open>draws\<close>, the last view that is left is drawn again, which may raise;
  the area then shows that view as far as drawing it replaces the area.
\<close>

definition on_trail :: "(breadcrumbs \<Rightarrow> bool) \<Rightarrow> (breadcrumbs \<Rightarrow> breadcrumbs) \<Rightarrow> ('w desk, unit) prog" where
  "on_trail draws f d =
     (case dk_place d of
        TrailOf b \<Rightarrow>
          (let b' = f b; v = dk_views d ! cv_id (last (bc_views b')) in
           if draws b \<and> bc_views b' \<noteq> []
           then (bind_result (draw v) (\<lambda>_. Inr ()),
             d\<lparr>dk_place := TrailOf (if replaces_area v then b' else b'\<lparr>bc_content := bc_content b\<rparr>)\<rparr>)
           else (Inr (), d\<lparr>dk_place := TrailOf b'\<rparr>))
      | _ \<Rightarrow> (Inr (), d))"

definition click_back :: "('w desk, unit) prog" where
  "click_back = on_trail (\<lambda>b. 1 < length (bc_views b)) backView"

definition click_crumb :: "string \<Rightarrow> ('w desk, unit) prog" where
  "click_crumb txt = on_trail (\<lambda>_. True) (onSelectView txt)"

text \<open>The clicks of a user, and the state after a list of them; an exception ends only its click.\<close>

datatype event =
    ClusterMenu cluster_click
  | ElasticMenu elastic_click
  | YarnMenu string
  | RingBearerMenu string
  | DemandSpikeMenu string
  | ClusterApi string
  | YarnApi string
  | RingBearerApi string
  | DemandSpikeApi string
  | DemoMenu string
  | Row row_click
  | Back
  | Crumb string

fun run_event :: "(jsnum \<Rightarrow> string) \<Rightarrow> (jsval \<Rightarrow> jsval) \<Rightarrow> 'w ajax \<Rightarrow> event \<Rightarrow> ('w desk, unit) prog" where
  "run_event nt pretty ajax (ClusterMenu c) = build_then_open (cluster_view nt ajax c)"
| "run_event nt pretty ajax (ElasticMenu c) = elastic_menu nt ajax c"
| "run_event nt pretty ajax (YarnMenu name) = yarn_onSelect ajax name"
| "run_event nt pretty ajax (RingBearerMenu name) = ringbearer_onSelect nt ajax name"
| "run_event nt pretty ajax (DemandSpikeMenu name) = demandspike_onSelect nt ajax name"
| "run_event nt pretty ajax (ClusterApi name) = cluster_api_onSelect name"
| "run_event nt pretty ajax (YarnApi name) = yarn_api_onSelect name"
| "run_event nt pretty ajax (RingBearerApi name) = ringbearer_api_onSelect name"
| "run_event nt pretty ajax (DemandSpikeApi name) = demandspike_api_onSelect name"
| "run_event nt pretty ajax (DemoMenu name) = uidemo_onSelect name"
| "run_event nt pretty ajax (Row c) = click_row nt pretty ajax c"
| "run_event nt pretty ajax Back = click_back"
| "run_event nt pretty ajax (Crumb txt) = click_crumb txt"

definition run_events :: "(jsnum \<Rightarrow> string) \<Rightarrow> (jsval \<Rightarrow> jsval) \<Rightarrow> 'w ajax \<Rightarrow> event list \<Rightarrow> 'w desk \<Rightarrow> 'w desk" where
  "run_events nt pretty ajax evs d = foldl (\<lambda>d e. snd (run_event nt pretty ajax e d)) d evs"

section \<open>The trail and its views\<close>

text \<open>
  The trail has the buttons of its views; each view was made, and has its own label; and the area
  shows the last one, unless drawing it raised before it replaced what the area showed.
\<close>

definition trail_ok :: "view list \<Rightarrow> breadcrumbs \<Rightarrow> bool" where
  "trail_ok vs b \<longleftrightarrow> bc_trail b = trail_of (bc_views b) \<and>
     list_all (\<lambda>v. cv_id v < length vs \<and> cv_label v = view_label (vs ! cv_id v)) (bc_views b) \<and>
     (bc_views b \<noteq> [] \<longrightarrow> replaces_area (vs ! cv_id (last (bc_views b))) \<longrightarrow> bc_content b = Some (cv_id (last (bc_views b))))"

definition desk_ok :: "'w desk \<Rightarrow> bool" where
  "desk_ok d \<longleftrightarrow> (case dk_place d of TrailOf b \<Rightarrow> trail_ok (dk_views d) b | _ \<Rightarrow> True)"

lemma trail_ok_new [simp]: "trail_ok vs newBreadcrumbs"
  by (simp add: trail_ok_def newBreadcrumbs_def)

lemma render_new [simp]: "renderBreadcrumbs newBreadcrumbs = newBreadcrumbs"
  by (simp add: renderBreadcrumbs_def newBreadcrumbs_def)

text \<open>A trail with the buttons of its views is in order when the area shows the last view.\<close>

definition shown_last :: "breadcrumbs \<Rightarrow> breadcrumbs" where
  "shown_last b = b\<lparr>bc_content := Some (cv_id (last (bc_views b)))\<rparr>"

lemma shown_last_parts [simp]: "bc_views (shown_last b) = bc_views b" "bc_trail (shown_last b) = bc_trail b"
  by (simp_all add: shown_last_def)

lemma in_order_shown: "bc_trail b = trail_of (bc_views b) \<Longrightarrow> in_order (shown_last b)"
  by (simp add: in_order_def) (simp add: shown_last_def)

lemma push_any_content [simp]: "pushView v (b\<lparr>bc_content := c\<rparr>) = pushView v b"
  by (simp add: pushView_def Let_def)

lemma loop_content:
  "removeLoop l vs t c' = (if bc_views (removeLoop l vs t c) = [] then (removeLoop l vs t c)\<lparr>bc_content := c'\<rparr> else removeLoop l vs t c)"
  by (induction vs arbitrary: t) auto

lemma remove_any_content:
  "removeToLabel l (b\<lparr>bc_content := c\<rparr>) = (if bc_views (removeToLabel l b) = [] then (removeToLabel l b)\<lparr>bc_content := c\<rparr> else removeToLabel l b)"
  unfolding removeToLabel_def by (simp add: loop_content [of l "rev (bc_views b)" "bc_trail b" c "bc_content b"])

lemma trail_push: "bc_trail b = trail_of (bc_views b) \<Longrightarrow> bc_trail (pushView v b) = trail_of (bc_views (pushView v b))"
  using crumbs.ordered_push [OF in_order_shown, of b v] by (simp add: shown_last_def in_order_def)

lemma remove_in_order:
  assumes "bc_trail b = trail_of (bc_views b)"
  shows "bc_trail (removeToLabel l b) = trail_of (bc_views (removeToLabel l b))"
    and "bc_views (removeToLabel l b) \<noteq> [] \<Longrightarrow> bc_content (removeToLabel l b) = Some (cv_id (last (bc_views (removeToLabel l b))))"
  using in_order_removeToLabel [OF in_order_shown [OF assms], of l]
  by (auto simp: in_order_def shown_last_def remove_any_content split: if_splits)

lemma trail_ok_push:
  assumes "trail_ok vs b"
  shows "trail_ok (vs @ [v]) ((pushView \<lparr>cv_id = length vs, cv_label = view_label v\<rparr> b)
    \<lparr>bc_content := (if replaces_area v then Some (length vs) else c)\<rparr>)"
  using assms trail_push [of b] unfolding trail_ok_def
  by (auto simp: list_all_iff nth_append crumbs.views_push)

text \<open>Clicks that leave the first views of a trail in order.\<close>

definition trims :: "(breadcrumbs \<Rightarrow> bool) \<Rightarrow> (breadcrumbs \<Rightarrow> breadcrumbs) \<Rightarrow> bool" where
  "trims draws f \<longleftrightarrow> (\<forall>b. if draws b then \<exists>l. f b = removeToLabel l b else f b = b)"

lemma trims_clicks: "trims (\<lambda>b. 1 < length (bc_views b)) backView" "trims (\<lambda>_. True) (onSelectView txt)"
  by (auto simp: trims_def backView_def onSelectView_def)

lemma keeps_on_trail:
  assumes "trims draws f"
  shows "keeps desk_ok (on_trail draws f :: ('w desk, unit) prog)"
proof -
  have "desk_ok (snd (on_trail draws f d))" if ok: "desk_ok d" for d :: "'w desk"
  proof (cases "dk_place d")
    case (TrailOf b)
    with ok have b: "trail_ok (dk_views d) b" by (simp add: desk_ok_def)
    show ?thesis
    proof (cases "draws b")
      case True
      then obtain l where l: "f b = removeToLabel l b" using assms unfolding trims_def by meson
      have sub: "set (bc_views (removeToLabel l b)) \<subseteq> set (bc_views b)"
        by (auto simp: views_removeToLabel dest: set_dropWhileD)
      show ?thesis
        using b sub remove_in_order [of b l] TrailOf True
        by (auto simp: on_trail_def l Let_def desk_ok_def trail_ok_def list_all_iff)
    next
      case False
      with assms have "f b = b" unfolding trims_def by meson
      with b TrailOf False show ?thesis by (simp add: on_trail_def desk_ok_def)
    qed
  qed (use ok in \<open>simp_all add: on_trail_def\<close>)
  then show ?thesis by (simp add: keeps_def)
qed

lemma keeps_clicks [keep_rules]: "keeps desk_ok click_back" "keeps desk_ok (click_crumb txt)"
  unfolding click_back_def click_crumb_def by (intro keeps_on_trail trims_clicks)+

lemma keeps_in_desk [keep_rules]: "keeps desk_ok (in_desk m)"
  by (auto simp: keeps_def in_desk_def desk_ok_def split: prod.splits place.splits)

lemma push_view_state:
  "snd (push_view v d) = (case dk_place d of
      TrailOf b \<Rightarrow> d\<lparr>dk_views := dk_views d @ [v],
        dk_place := TrailOf ((pushView \<lparr>cv_id = length (dk_views d), cv_label = view_label v\<rparr> b)
          \<lparr>bc_content := (if replaces_area v then Some (length (dk_views d)) else bc_content b)\<rparr>)\<rparr>
    | _ \<Rightarrow> d)"
  by (simp add: push_view_def prog_defs split: sum.split)

lemma keeps_push [keep_rules]: "keeps desk_ok (push_view v)"
  using trail_ok_push by (simp add: keeps_def push_view_state desk_ok_def split: place.split)

lemma keeps_new_trail [keep_rules]: "keeps desk_ok (setUIComponent (TrailOf newBreadcrumbs))"
  and keeps_page [keep_rules]: "keeps desk_ok (setUIComponent (PageOf p))"
  and keeps_demo [keep_rules]: "keeps desk_ok (setUIComponent (DemoOf n))"
  by (simp_all add: keeps_def setUIComponent_def update_def desk_ok_def)

lemma keeps_build_then_open [keep_rules]: "keeps desk_ok (build_then_open m)"
  and keeps_open_then_build [keep_rules]: "keeps desk_ok (open_then_build m)"
  unfolding build_then_open_def open_then_build_def by (intro keep_rules)+

lemma keeps_open_module [keep_rules]: "keeps desk_ok (open_module m)"
  unfolding open_module_def by (cases m) (auto intro: keep_rules)

lemma keeps_open_page [keep_rules]: "keeps desk_ok (open_page ps name)"
  unfolding open_page_def by (auto intro: keep_rules split: option.split)

lemma keeps_elastic [keep_rules]: "keeps desk_ok (elastic_menu nt ajax c)"
  unfolding elastic_menu_def by (cases c) (auto intro!: keep_rules)

lemma keeps_click_row [keep_rules]: "keeps desk_ok (click_row nt pretty ajax c)"
  unfolding click_row_def by (auto intro!: keep_rules split: option.split)

lemma keeps_event: "keeps desk_ok (run_event nt pretty ajax e)"
  by (cases e)
    (auto simp: yarn_onSelect_def ringbearer_onSelect_def demandspike_onSelect_def cluster_api_onSelect_def yarn_api_onSelect_def
      ringbearer_api_onSelect_def demandspike_api_onSelect_def uidemo_onSelect_def
      intro!: keep_rules)

lemma desk_ok_events: "desk_ok d \<Longrightarrow> desk_ok (run_events nt pretty ajax evs d)"
  unfolding run_events_def by (induction evs arbitrary: d) (auto dest: keepsD [OF keeps_event])

end
