(* ===== verification/NavigationProps.thy ===== *)
theory NavigationProps
  imports Navigation
begin

text \<open>
  What holds of the workspace under any sequence of clicks: the trail and the views agree, a
  failing request is handled differently by the two kinds of menu, going back undoes a click in a
  view, and the menu of the cluster has an entry for every server.
\<close>

section \<open>Any sequence of clicks\<close>

text \<open>
  C23: Whatever a user clicks, and whichever requests fail, a trail in the workspace shows one
  button for each of its views, in order, only the last one disabled; each view was made by a
  click and is named by its own label. The area below shows the last view, unless that is a form, a tree
  or a content whose template raised: then it keeps what it showed.\<close>
theorem workspace_trail_consistent:
  assumes "d = run_events nt pretty ajax evs (newDesk w)" and "dk_place d = TrailOf b"
  shows "bc_trail b = trail_of (bc_views b) \<and>
     list_all (\<lambda>v. cv_id v < length (dk_views d) \<and> cv_label v = view_label (dk_views d ! cv_id v)) (bc_views b) \<and>
     (bc_views b \<noteq> [] \<longrightarrow> replaces_area (dk_views d ! cv_id (last (bc_views b))) \<longrightarrow>
        bc_content b = Some (cv_id (last (bc_views b))))"
proof -
  have "desk_ok d"
    unfolding assms(1) by (rule desk_ok_events) (simp add: desk_ok_def newDesk_def)
  with assms(2) show ?thesis by (simp add: desk_ok_def trail_ok_def)
qed

definition one_server :: "nat ajax" where
  "one_server r w = (Some (JObj [(''data'', JArr [])]), Suc w)"

lemma ping_one_server:
  "run_event (\<lambda>_. []) (\<lambda>v. v) one_server (ClusterMenu onListServer) d =
     (Inr (), d\<lparr>dk_world := Suc (dk_world d),
        dk_views := dk_views d @ [TableView (Some ''List Server'') server_fields [] [''JVM'', ''Metric'']],
        dk_place := TrailOf (pushView \<lparr>cv_id = length (dk_views d), cv_label = Some ''List Server''\<rparr> newBreadcrumbs)\<rparr>)"
  by (simp add: build_then_open_def in_desk_def UIListServer_def gatewayExecute_def clusterRequest_def serverPOST_def
      send_def one_server_def prog_defs prop_of_def get_prop_def table_view_def elements_def setUIComponent_def push_view_def
      replaces_area_def) (simp add: pushView_def Let_def)

theorem workspace_trail_consistent_witness:
  "\<exists>b. dk_place (run_events (\<lambda>_. []) (\<lambda>v. v) one_server [ClusterMenu onListServer, Back] (newDesk 0)) = TrailOf b \<and>
     bc_trail b = [Button ''List Server'' True]"
proof -
  let ?evs = "[ClusterMenu onListServer, Back]"
  let ?b = "pushView \<lparr>cv_id = 0, cv_label = Some ''List Server''\<rparr> newBreadcrumbs"
  have views: "bc_views ?b = [\<lparr>cv_id = 0, cv_label = Some ''List Server''\<rparr>]"
    by (simp add: pushView_def newBreadcrumbs_def Let_def)
  have place: "dk_place (run_events (\<lambda>_. []) (\<lambda>v. v) one_server ?evs (newDesk 0)) = TrailOf ?b"
    unfolding run_events_def foldl.simps ping_one_server
    by (simp add: newDesk_def click_back_def on_trail_def backView_def views)
  from workspace_trail_consistent [OF refl place] have "bc_trail ?b = trail_of (bc_views ?b)" by (rule conjunct1)
  with place show ?thesis by (simp add: views shown_label_def)
qed

section \<open>Requests that fail\<close>

definition all_fail :: "'w ajax \<Rightarrow> bool" where
  "all_fail ajax \<longleftrightarrow> (\<forall>r w. fst (ajax r w) = None)"

lemma failing_execute: "all_fail ajax \<Longrightarrow> \<exists>e w'. gatewayExecute nt ajax cmd w = (Inl e, w')"
  unfolding all_fail_def gatewayExecute_def clusterRequest_def serverPOST_def send_def
  by (auto simp: prog_defs prop_of_def split: prod.splits option.splits) (metis fst_conv option.distinct(1))+

lemma failing_get: "all_fail ajax \<Longrightarrow> \<exists>w'. syncGETResource ajax path t w = (Inr JNull, w')"
  unfolding all_fail_def syncGETResource_def send_def
  by (auto split: prod.splits option.splits) (metis fst_conv option.distinct(1))

lemma failing_build: "(\<exists>e w'. m (dk_world d) = (Inl e, w')) \<Longrightarrow>
    dk_place (snd (build_then_open m d)) = dk_place d \<and> \<not> is_ok (fst (build_then_open m d)) \<and>
    dk_place (snd (open_then_build m d)) = TrailOf newBreadcrumbs \<and> \<not> is_ok (fst (open_then_build m d))"
  by (auto simp: build_then_open_def open_then_build_def setUIComponent_def in_desk_def prog_defs)

lemma failing_cluster_view: "all_fail ajax \<Longrightarrow> \<exists>e w'. cluster_view nt ajax c w = (Inl e, w')"
proof -
  assume fails: "all_fail ajax"
  have "\<exists>e w'. seq (gatewayExecute nt ajax cmd) f w = (Inl e, w')" for cmd and f :: "jsval \<Rightarrow> ('a, view) prog"
    using failing_execute [OF fails, of nt cmd w] by (auto simp: seq_def)
  then have run: "\<exists>e w'. seq (seq (gatewayExecute nt ajax cmd) g) f w = (Inl e, w')" "\<exists>e w'. seq (gatewayExecute nt ajax cmd) f w = (Inl e, w')"
    for cmd and g :: "jsval \<Rightarrow> ('a, jsval) prog" and f :: "jsval \<Rightarrow> ('a, view) prog"
    unfolding seq_assoc by blast+
  have page: "\<exists>e w'. seq (built (seq (in_world (gatewayExecute nt ajax cmd)) g)) f w = (Inl e, w')"
    for cmd and g :: "jsval \<Rightarrow> ('a page, unit) prog" and f :: "(view \<times> bool) list \<Rightarrow> ('a, view) prog"
    using failing_execute [OF fails, of nt cmd w] by (auto simp: seq_def built_def in_world_def)
  show ?thesis
    by (cases c) (simp_all add: UIListServer_def UIListModule_def UIClusterMetric_def loadYaraClusterMetricSnapshot_def
      loadCombineClusterMetricSnapshot_def UIClusterRegistration_def UIServerRegistration_def run page)
qed

lemma failing_elastic_views:
  assumes "all_fail ajax"
  shows "\<exists>e w'. UINodes ajax w = (Inl e, w')" "\<exists>e w'. UIIndices ajax w = (Inl e, w')" "\<exists>e w'. UISearch nt ajax index w = (Inl e, w')"
proof -
  have get: "\<exists>w'. esGET ajax path w = (Inr JNull, w')" for path
    unfolding esGET_def by (rule failing_get [OF assms])
  show "\<exists>e w'. UINodes ajax w = (Inl e, w')"
    using get [of "''/_nodes''"] by (auto simp: UINodes_def esNodes_def prog_defs prop_of_def)
  show "\<exists>e w'. UIIndices ajax w = (Inl e, w')"
    using get [of "''/_stats/indices,store,docs''"] by (auto simp: UIIndices_def esIndices_def UIShards_def prog_defs prop_of_def)
  show "\<exists>e w'. UISearch nt ajax index w = (Inl e, w')"
    using get [of "''/'' @ index @ ''/_mapping''"]
    by (auto simp: UISearch_def newSearch_def indexQuery_def search_fields_def mapping_fields_def object_keys_def prog_defs)
qed

lemma failing_modules:
  assumes "all_fail ajax"
  shows "\<exists>e w'. UIListApplication ajax w = (Inl e, w')" "\<exists>e w'. UIJobScheduler nt ajax cmd w = (Inl e, w')"
proof -
  show "\<exists>e w'. UIListApplication ajax w = (Inl e, w')"
    using failing_get [OF assms, of "''/yarn-app/history/list''" "''json''" w]
    by (auto simp: UIListApplication_def applications_onRefresh_def built_def in_world_def UIApplications_def
        table_view_def elements_def prog_defs)
  show "\<exists>e w'. UIJobScheduler nt ajax cmd w = (Inl e, w')"
    using failing_execute [OF assms, of nt cmd w]
    by (auto simp: UIJobScheduler_def scheduler_onRefresh_def built_def in_world_def prog_defs)
qed

text \<open>
  C26: When the requests fail, every view raises before it is made. A click in the menus of the
  cluster and of Elasticsearch then leaves the workspace as it was; a click in the menus of
  Yarn, RingBearer and DemandSpike has already put an empty trail in its place.\<close>
theorem failing_menu_clicks:
  assumes "\<forall>r w. fst (ajax r w) = None"
  shows "(\<not> is_ok (fst (run_event nt pretty ajax (ClusterMenu c) d)) \<and> dk_place (snd (run_event nt pretty ajax (ClusterMenu c) d)) = dk_place d) \<and>
    list_all (\<lambda>e. \<not> is_ok (fst (run_event nt pretty ajax (ElasticMenu e) d)) \<and> dk_place (snd (run_event nt pretty ajax (ElasticMenu e) d)) = dk_place d)
      [onSelectNodes, onSelectIndices, onSelectSearchIndex index] \<and>
    list_all (\<lambda>e. \<not> is_ok (fst (run_event nt pretty ajax e d)) \<and> dk_place (snd (run_event nt pretty ajax e d)) = TrailOf newBreadcrumbs)
      [YarnMenu ''UIListApplication'', RingBearerMenu ''UIJobScheduler'', DemandSpikeMenu ''UIJobScheduler'']"
proof -
  have fails: "all_fail ajax" using assms by (simp add: all_fail_def)
  note cluster = failing_build [of _ d, OF failing_cluster_view [OF fails, of nt c]]
  show ?thesis
    using cluster failing_build [of "UINodes ajax" d, OF failing_elastic_views(1) [OF fails]]
      failing_build [of "UIIndices ajax" d, OF failing_elastic_views(2) [OF fails]]
      failing_build [of "UISearch nt ajax index" d, OF failing_elastic_views(3) [OF fails]]
      failing_build [of "UIListApplication ajax" d, OF failing_modules(1) [OF fails]]
      failing_build [of "UIJobScheduler nt ajax ringbearer_scheduler" d, OF failing_modules(2) [OF fails]]
      failing_build [of "UIJobScheduler nt ajax demandspike_scheduler" d, OF failing_modules(2) [OF fails]]
    by (simp add: elastic_menu_def yarn_onSelect_def yarn_module_def ringbearer_onSelect_def ringbearer_module_def
        demandspike_onSelect_def demandspike_module_def open_module_def RingBearerJobScheduler_def DemandSpikeJobScheduler_def)
qed

theorem failing_menu_clicks_witness:
  "let ajax = (\<lambda>r w. (None, Suc w)); d = (newDesk 0)\<lparr>dk_place := DemoOf ''UITableDemo''\<rparr>
   in dk_place (snd (run_event (\<lambda>_. []) (\<lambda>v. v) ajax (ClusterMenu onListServer) d)) = DemoOf ''UITableDemo'' \<and>
      dk_place (snd (run_event (\<lambda>_. []) (\<lambda>v. v) ajax (YarnMenu ''UIListApplication'') d)) = TrailOf newBreadcrumbs"
  using failing_menu_clicks [of "\<lambda>r w. (None, Suc w)" "\<lambda>_. []" "\<lambda>v. v" onListServer
      "(newDesk 0)\<lparr>dk_place := DemoOf ''UITableDemo''\<rparr>" "[]"]
  by (simp add: Let_def)

section \<open>Going back\<close>

lemma back_after_push:
  assumes "bc_trail b = trail_of (bc_views b)" "bc_views b \<noteq> []" "cv_label v \<noteq> cv_label (last (bc_views b))"
  shows "backView ((pushView v b)\<lparr>bc_content := c\<rparr>) = shown_last b"
proof -
  have "bc_views b ! (length (bc_views b) - 1) = last (bc_views b)" using assms(2) by (simp add: last_conv_nth)
  then have "backView ((pushView v b)\<lparr>bc_content := c\<rparr>) = removeToLabel (cv_label (last (bc_views b))) ((pushView v b)\<lparr>bc_content := c\<rparr>)"
    using assms(2) by (simp add: backView_def crumbs.views_push nth_append)
  moreover have "removeToLabel (cv_label (last (bc_views b))) (pushView v b) = shown_last b"
    using crumbs.to_label_undoes_push [OF in_order_shown [OF assms(1)], of v] assms(2,3) by (simp add: shown_last_def)
  ultimately show ?thesis using assms(2) by (simp add: remove_any_content)
qed

lemma push_view_trail:
  assumes "dk_place d = TrailOf b"
  shows "snd (push_view v d) = d\<lparr>dk_views := dk_views d @ [v],
    dk_place := TrailOf ((pushView \<lparr>cv_id = length (dk_views d), cv_label = view_label v\<rparr> b)
      \<lparr>bc_content := (if replaces_area v then Some (length (dk_views d)) else bc_content b)\<rparr>)\<rparr>"
  using assms by (simp add: push_view_state)

lemma click_row_trail:
  assumes "dk_place d = TrailOf b" and "d' = snd (click_row nt pretty ajax c d)"
    and "dk_views d' \<noteq> dk_views d"
  shows "\<exists>v c. dk_views d' = dk_views d @ [v] \<and>
    dk_place d' = TrailOf ((pushView \<lparr>cv_id = length (dk_views d), cv_label = view_label v\<rparr> b)\<lparr>bc_content := c\<rparr>)"
proof -
  obtain r w' where m: "clicked_view nt pretty ajax c (dk_world d) = (r, w')" by force
  let ?d = "d\<lparr>dk_world := w'\<rparr>"
  have run: "click_row nt pretty ajax c d =
      (case r of Inl e \<Rightarrow> (Inl e, ?d) | Inr None \<Rightarrow> (Inr (), ?d) | Inr (Some v) \<Rightarrow> push_view v ?d)"
    using m by (simp add: click_row_def in_desk_def seq_def ret_def split: sum.split option.split)
  with assms(2,3) obtain v where "r = Inr (Some v)" by (auto split: sum.splits option.splits)
  then show ?thesis using push_view_trail [of ?d b v] run assms(1,2) by auto
qed

text \<open>
  C25: Going back from a view. After any clicks, if a click on a row or an action of the last view
  of a trail made a further view, whether it could be drawn or not, and its label differs from
  that of the view below, then going back gives the views and buttons there were before, and exactly
  the trail there was, with what its area showed, unless drawing that view again raises first.\<close>
theorem back_undoes_row_click:
  assumes "d = run_events nt pretty ajax evs (newDesk w)" and "dk_place d = TrailOf b" and "bc_views b \<noteq> []"
    and "d' = run_events nt pretty ajax [Row c] d" and "dk_views d' \<noteq> dk_views d"
    and "view_label (last (dk_views d')) \<noteq> cv_label (last (bc_views b))"
  shows "\<exists>b'. dk_place (run_events nt pretty ajax [Row c, Back] d) = TrailOf b' \<and>
    bc_views b' = bc_views b \<and> bc_trail b' = bc_trail b \<and>
    (replaces_area (dk_views d ! cv_id (last (bc_views b))) \<longrightarrow> b' = b)"
proof -
  have "desk_ok d" unfolding assms(1) by (rule desk_ok_events) (simp add: desk_ok_def newDesk_def)
  then have ok: "trail_ok (dk_views d) b" using assms(2) by (simp add: desk_ok_def)
  then have old: "cv_id (last (bc_views b)) < length (dk_views d)" using assms(3) by (simp add: trail_ok_def list_all_iff)
  have d': "d' = snd (click_row nt pretty ajax c d)" using assms(4) by (simp add: run_events_def)
  obtain v k where v: "dk_views d' = dk_views d @ [v]"
    "dk_place d' = TrailOf ((pushView \<lparr>cv_id = length (dk_views d), cv_label = view_label v\<rparr> b)\<lparr>bc_content := k\<rparr>)"
    using click_row_trail [OF assms(2) d' assms(5)] by blast
  let ?b = "(pushView \<lparr>cv_id = length (dk_views d), cv_label = view_label v\<rparr> b)\<lparr>bc_content := k\<rparr>"
  have gone: "backView ?b = shown_last b"
    using back_after_push [of b] ok assms(3,6) v(1) by (simp add: trail_ok_def)
  have "1 < length (bc_views ?b)" using assms(3) by (simp add: crumbs.views_push)
  moreover have "run_events nt pretty ajax [Row c, Back] d = snd (click_back d')"
    by (simp add: run_events_def d')
  ultimately have "dk_place (run_events nt pretty ajax [Row c, Back] d) =
      TrailOf (if replaces_area (dk_views d ! cv_id (last (bc_views b))) then shown_last b else (shown_last b)\<lparr>bc_content := k\<rparr>)"
    using assms(3) old unfolding click_back_def on_trail_def v(2)
    by (simp add: gone Let_def v(1) nth_append)
  moreover have "shown_last b = b" if "replaces_area (dk_views d ! cv_id (last (bc_views b)))"
    using ok assms(3) that by (cases b) (simp add: trail_ok_def shown_last_def)
  ultimately show ?thesis by auto
qed

theorem back_undoes_row_click_witness:
  "let evs = [ClusterMenu onListServer]; jvm = JObj [(''memoryInfo'', JObj []), (''garbageCollectorInfo'', JArr [])];
       run = run_events (\<lambda>_. []) (\<lambda>v. v) one_server
   in dk_place (run [Row (MemoryMore jvm), Back] (run evs (newDesk 0))) = dk_place (run evs (newDesk 0))"
proof -
  let ?run = "run_events (\<lambda>_. []) (\<lambda>v. v) one_server"
  let ?d = "?run [ClusterMenu onListServer] (newDesk 0)"
  let ?jvm = "JObj [(''memoryInfo'', JObj []), (''garbageCollectorInfo'', JArr [])]"
  let ?b = "pushView \<lparr>cv_id = 0, cv_label = Some ''List Server''\<rparr> newBreadcrumbs"
  have views: "bc_views ?b = [\<lparr>cv_id = 0, cv_label = Some ''List Server''\<rparr>]"
    by (simp add: pushView_def newBreadcrumbs_def Let_def)
  have place: "dk_place ?d = TrailOf ?b"
    by (simp add: run_events_def ping_one_server newDesk_def del: run_event.simps)
  have made: "dk_views ?d ! 0 = TableView (Some ''List Server'') server_fields [] [''JVM'', ''Metric'']"
    by (simp add: run_events_def ping_one_server newDesk_def del: run_event.simps)
  obtain v where v: "UIMemoryMonitorDetail ?jvm = Inr v" "view_label v = Some ''Memory''"
    by (auto simp: UIMemoryMonitorDetail_def UIMemoryMonitor_def UIMemoryMonitorList_def prop_of_def get_prop_def table_view_def elements_def)
  let ?d' = "?run [Row (MemoryMore ?jvm)] ?d"
  have "?d' = snd (push_view v ?d)"
    using v(1) by (simp add: run_events_def [of _ _ _ "[Row (MemoryMore ?jvm)]"] click_row_def in_desk_def prog_defs)
  then have more: "dk_views ?d' = dk_views ?d @ [v]" using push_view_trail [OF place, of v] by simp
  show ?thesis
    using back_undoes_row_click [OF refl place _ refl, of "MemoryMore ?jvm"] more v(2)
    by (auto simp: views place Let_def made replaces_area_def)
qed

section \<open>The menu of the cluster\<close>

definition named_member :: "string \<Rightarrow> jsval" where
  "named_member n = JObj [(''memberName'', JStr n)]"

lemma member_entries_named: "member_entries nt (map named_member ns) = Inr ns"
  by (induction ns) (simp_all add: member_entries_def named_member_def prop_of_def get_prop_def menu_text_def)

lemma map_result_pairs: "map_result (\<lambda>x. Inr (x, f x)) xs = Inr (map (\<lambda>x. (x, f x)) xs)"
  by (induction xs) simp_all

text \<open>
  C29: The menu of the cluster. For an answer with servers and their roles the menu lists every
  server, and for each role, once, exactly its servers; a click on an entry asks for the
  registration of the server with that name.\<close>
theorem cluster_menu_offers_every_server:
  assumes "reg = registration (map (\<lambda>(n, rs). (named_member n, rs)) servers)"
  shows "\<exists>roles. menu_entries nt reg =
       Inr (map fst servers, map (\<lambda>role. (role, map fst (filter (\<lambda>(n, rs). role \<in> set rs) servers))) roles) \<and>
     distinct roles \<and> set roles = (\<Union>(n, rs) \<in> set servers. set rs) \<and>
     run_event nt pretty ajax (ClusterMenu (onServerRegistration n)) =
       build_then_open (seq (gatewayExecute nt ajax (''server registration --member-name '' @ n)) (\<lambda>results.
         seq (lift_result (bind_result (at_index 0 results) (prop_of ''result''))) (\<lambda>reg.
           lift_result (registration_view nt False reg))))"
proof -
  let ?ms = "map (\<lambda>(n, rs). (named_member n, rs)) servers"
  have firsts: "map fst ?ms = map named_member (map fst servers)" by (induction servers) auto
  have by_role: "map fst (filter (\<lambda>(m, rs). role \<in> set rs) ?ms) = map named_member (map fst (filter (\<lambda>(n, rs). role \<in> set rs) servers))"
    for role by (induction servers) auto
  have members: "bind_result (getMembers reg) (member_entries nt) = Inr (map fst servers)"
    unfolding assms members_of_registration firsts by (simp only: bind_result_simps member_entries_named)
  have role: "bind_result (getMemberByRole role reg) (member_entries nt) = Inr (map fst (filter (\<lambda>(n, rs). role \<in> set rs) servers))" for role
    unfolding assms role_of_registration by_role by (simp only: bind_result_simps member_entries_named)
  obtain roles where roles: "getRoleSet nt reg = Inr roles" "distinct roles" "set roles = (\<Union>(m, rs) \<in> set ?ms. set rs)"
    using roles_of_registration [of nt ?ms] unfolding assms by blast
  have "menu_entries nt reg =
      Inr (map fst servers, map (\<lambda>role. (role, map fst (filter (\<lambda>(n, rs). role \<in> set rs) servers))) roles)"
    unfolding menu_entries_def members roles(1) role bind_result_simps map_result_pairs ..
  moreover have "set roles = (\<Union>(n, rs) \<in> set servers. set rs)" unfolding roles(3) by auto
  ultimately show ?thesis using roles(2) by (auto simp: UIServerRegistration_def)
qed

theorem cluster_menu_offers_every_server_witness:
  "let servers = [(''s1'', [''kafka'']), (''s2'', [''kafka'', ''http''])];
       reg = registration (map (\<lambda>(n, rs). (named_member n, rs)) servers)
   in \<exists>roles. menu_entries (\<lambda>_. []) reg =
        Inr ([''s1'', ''s2''], map (\<lambda>role. (role, map fst (filter (\<lambda>(n, rs). role \<in> set rs) servers))) roles) \<and>
      set roles = {''kafka'', ''http''}"
proof -
  let ?servers = "[(''s1'', [''kafka'']), (''s2'', [''kafka'', ''http''])]"
  let ?reg = "registration (map (\<lambda>(n, rs). (named_member n, rs)) ?servers)"
  from cluster_menu_offers_every_server [OF refl, where nt = "\<lambda>_. []" and servers = ?servers
      and pretty = "\<lambda>v. v" and ajax = "\<lambda>r w. (None, w :: unit)" and n = "[]"]
  obtain roles where r: "menu_entries (\<lambda>_. []) ?reg =
      Inr (map fst ?servers, map (\<lambda>role. (role, map fst (filter (\<lambda>(n, rs). role \<in> set rs) ?servers))) roles)"
    "set roles = (\<Union>(n, rs) \<in> set ?servers. set rs)"
    by (elim exE conjE)
  have "map fst ?servers = [''s1'', ''s2'']" "(\<Union>(n, rs) \<in> set ?servers. set rs) = {''kafka'', ''http''}" by auto
  with r show ?thesis unfolding Let_def by (intro exI [of _ roles] conjI) (simp_all only:)
qed

end
