(* ===== verification/Start.thy ===== *)
theory Start
  imports NavigationProps
begin

text \<open>
  The application as a whole (\<open>app.js\<close>, \<open>main.js\<close>, \<open>site/UINavigation.js\<close>): how the page starts, the
  menus the active plugin draws, and the clicks that the page offers. The modules are loaded before
  anything is drawn; loading \<open>service/ClusterGateway.js\<close> requests the registration of the cluster, once.
  A menu is drawn by its own method, which may raise; the page keeps what was drawn before.
\<close>

section \<open>The address of the application\<close>

text \<open>The position of the last occurrence of a character, or -1.\<close>

definition last_index_of :: "char \<Rightarrow> string \<Rightarrow> int" where
  "last_index_of c s = int (length s) - 1 - int (length (takeWhile (\<lambda>x. x \<noteq> c) (rev s)))"

definition ROOT_CONTEXT :: "string \<Rightarrow> string" where
  "ROOT_CONTEXT pathname = take (nat (last_index_of CHR ''/'' pathname)) pathname"

text \<open>\<open>reload\<close> gives the window this address, when it shows the page at \<open>pathname\<close>.\<close>

definition app_reload :: "string \<Rightarrow> string" where
  "app_reload pathname = ROOT_CONTEXT pathname @ ''/index.html''"

lemma takeWhile_absent: "c \<notin> set s \<Longrightarrow> takeWhile (\<lambda>x. x \<noteq> c) (s @ t) = s @ takeWhile (\<lambda>x. x \<noteq> c) t"
  by (induction s) auto

lemma last_index_of_append: "c \<notin> set file \<Longrightarrow> last_index_of c (dir @ c # file) = int (length dir)"
  using takeWhile_absent [of c "rev file" "c # rev dir"] by (simp add: last_index_of_def)

lemma last_index_of_none: "c \<notin> set s \<Longrightarrow> last_index_of c s = -1"
  using arg_cong [OF takeWhile_absent [of c "rev s" "[]"], of length] by (simp add: last_index_of_def del: takeWhile_eq_all_conv)

lemma ROOT_CONTEXT_directory: "CHR ''/'' \<notin> set file \<Longrightarrow> ROOT_CONTEXT (dir @ CHR ''/'' # file) = dir"
  by (simp add: ROOT_CONTEXT_def last_index_of_append)

lemma ROOT_CONTEXT_bare: "CHR ''/'' \<notin> set file \<Longrightarrow> ROOT_CONTEXT file = []"
  by (simp add: ROOT_CONTEXT_def last_index_of_none)

text \<open>Loading the page again leads to the page that loading it again leads to.\<close>

lemma app_reload_stays: "app_reload (app_reload pathname) = app_reload pathname"
  using ROOT_CONTEXT_directory [of "''index.html''" "ROOT_CONTEXT pathname"] by (simp add: app_reload_def)

section \<open>The menus on the page\<close>

text \<open>
  The menus a plugin contributes, in its order. A menu on the page is empty until its method has
  drawn it; then it has fixed entries, or also those of the answer: the servers and roles of the
  cluster, the indices of Elasticsearch.
\<close>

datatype menu =
    ClusterNav | ClusterApiNav | RingBearerNav | RingBearerApiNav | YarnNav | YarnApiNav
  | ElasticNav | DemoNav | DemandSpikeNav | DemandSpikeApiNav

datatype drawn =
    Empty
  | Entries "string list"
  | ServerEntries "string list" "(string \<times> string list) list"
  | IndexEntries "string list"

definition uiNavigation :: "string \<Rightarrow> menu list" where
  "uiNavigation name =
     (if name = ''cluster'' then [ClusterNav, ClusterApiNav]
      else if name = ''ringbearer'' then [RingBearerNav, RingBearerApiNav]
      else if name = ''yarn'' then [YarnNav, YarnApiNav]
      else if name = ''elasticsearch'' then [ElasticNav]
      else if name = ''uidemo'' then [DemoNav]
      else if name = ''demandspike'' then [DemandSpikeNav, DemandSpikeApiNav]
      else [])"

fun menu_names :: "menu \<Rightarrow> string list" where
  "menu_names ClusterApiNav = [''Cluster'', ''Server'', ''Module'']"
| "menu_names RingBearerNav = [''UIJobScheduler'']"
| "menu_names RingBearerApiNav = [''RingBearer'']"
| "menu_names YarnNav = [''UIListApplication'']"
| "menu_names YarnApiNav = [''Yarn'']"
| "menu_names DemoNav = [''UITableDemo'', ''UITableTreeDemo'', ''UIBeanDemo'']"
| "menu_names DemandSpikeNav = [''UIJobScheduler'']"
| "menu_names DemandSpikeApiNav = [''DemandSpike'']"
| "menu_names _ = []"

section \<open>The page\<close>

text \<open>
  The registration that the gateway keeps, the plugins listed and the menus below them, the desk of
  the workspace, and whether the banner, the greeting of the workspace and the footer have been
  drawn.
\<close>

record 'w app =
  ap_registration :: jsval
  ap_active :: "plugin option"
  ap_plugins :: "plugin list"
  ap_menus :: "(menu \<times> drawn) list"
  ap_desk :: "'w desk"
  ap_banner :: bool
  ap_welcome :: bool
  ap_footer :: bool

definition newApp :: "jsval \<Rightarrow> 'w \<Rightarrow> 'w app" where
  "newApp reg w = \<lparr>ap_registration = reg, ap_active = getPlugin ''cluster'' registered, ap_plugins = [], ap_menus = [], ap_desk = newDesk w,
     ap_banner = False, ap_welcome = False, ap_footer = False\<rparr>"

definition in_app :: "('w desk, 'a) prog \<Rightarrow> ('w app, 'a) prog" where
  "in_app m a = (case m (ap_desk a) of (r, d) \<Rightarrow> (r, a\<lparr>ap_desk := d\<rparr>))"

text \<open>The menu added last gets its entries.\<close>

definition fill_menu :: "drawn \<Rightarrow> ('w app, unit) prog" where
  "fill_menu e = update (\<lambda>a. a\<lparr>ap_menus := butlast (ap_menus a) @ [(fst (last (ap_menus a)), e)]\<rparr>)"

definition render_menu :: "(jsnum \<Rightarrow> string) \<Rightarrow> 'w ajax \<Rightarrow> menu \<Rightarrow> ('w app, unit) prog" where
  "render_menu nt ajax m =
     (case m of
        ClusterNav \<Rightarrow> seq (reads ap_registration) (\<lambda>reg.
          seq (lift_result (menu_entries nt reg)) (\<lambda>(members, roles). fill_menu (ServerEntries members roles)))
      | ElasticNav \<Rightarrow> seq (in_app (in_desk (availableIndices ajax))) (\<lambda>indices.
          andthen (fill_menu (IndexEntries indices)) (in_app (elastic_menu nt ajax onSelectNodes)))
      | _ \<Rightarrow> fill_menu (Entries (menu_names m)))"

definition app_renderNavigation :: "(jsnum \<Rightarrow> string) \<Rightarrow> 'w ajax \<Rightarrow> ('w app, unit) prog" where
  "app_renderNavigation nt ajax =
     andthen (update (\<lambda>a. a\<lparr>ap_plugins := registered, ap_menus := []\<rparr>))
       (seq (reads ap_active) (\<lambda>p. case p of
          None \<Rightarrow> throw (TypeError ''uiNavigation'')
        | Some p \<Rightarrow> for_each (uiNavigation (pg_name p)) (\<lambda>m.
            andthen (update (\<lambda>a. a\<lparr>ap_menus := ap_menus a @ [(m, Empty)]\<rparr>)) (render_menu nt ajax m))))"

definition selectPlugin :: "(jsnum \<Rightarrow> string) \<Rightarrow> 'w ajax \<Rightarrow> string \<Rightarrow> ('w app, unit) prog" where
  "selectPlugin nt ajax name =
     andthen (update (\<lambda>a. a\<lparr>ap_active := getPlugin name registered\<rparr>)) (app_renderNavigation nt ajax)"

definition app_render :: "(jsnum \<Rightarrow> string) \<Rightarrow> 'w ajax \<Rightarrow> ('w app, unit) prog" where
  "app_render nt ajax =
     andthen (update (\<lambda>a. a\<lparr>ap_banner := True\<rparr>))
    (andthen (app_renderNavigation nt ajax)
    (andthen (update (\<lambda>a. a\<lparr>ap_welcome := True\<rparr>))
             (update (\<lambda>a. a\<lparr>ap_footer := True\<rparr>))))"

definition app_initialize :: "(jsnum \<Rightarrow> string) \<Rightarrow> 'w ajax \<Rightarrow> ('w app, unit) prog" where
  "app_initialize nt ajax = app_render nt ajax"

text \<open>
  \<open>require\<close> loads the modules and then calls \<open>initialize\<close>. When the request for the registration raises,
  \<open>ClusterGateway\<close> and all modules that need it stay undefined: there is no application, and nothing
  is drawn.
\<close>

definition app_start :: "(jsnum \<Rightarrow> string) \<Rightarrow> 'w ajax \<Rightarrow> 'w \<Rightarrow> unit result \<times> 'w app option" where
  "app_start nt ajax w =
     (case newClusterRegistration nt ajax w of
        (Inl e, w') \<Rightarrow> (Inl e, None)
      | (Inr reg, w') \<Rightarrow> (case app_initialize nt ajax (newApp reg w') of (r, a) \<Rightarrow> (r, Some a)))"

section \<open>What the page offers\<close>

datatype site_event = SelectPlugin string | Click event

fun app_event :: "(jsnum \<Rightarrow> string) \<Rightarrow> (jsval \<Rightarrow> jsval) \<Rightarrow> 'w ajax \<Rightarrow> site_event \<Rightarrow> ('w app, unit) prog" where
  "app_event nt pretty ajax (SelectPlugin name) = selectPlugin nt ajax name"
| "app_event nt pretty ajax (Click e) = in_app (run_event nt pretty ajax e)"

definition entry_of :: "menu \<Rightarrow> string \<Rightarrow> 'w app \<Rightarrow> bool" where
  "entry_of m name a \<longleftrightarrow> (m, Entries (menu_names m)) \<in> set (ap_menus a) \<and> name \<in> set (menu_names m)"

definition on_trail_now :: "'w app \<Rightarrow> bool" where
  "on_trail_now a \<longleftrightarrow> (case dk_place (ap_desk a) of TrailOf b \<Rightarrow> True | _ \<Rightarrow> False)"

definition server_entry :: "string \<Rightarrow> menu \<times> drawn \<Rightarrow> bool" where
  "server_entry name e \<longleftrightarrow> (case e of
     (ClusterNav, ServerEntries members roles) \<Rightarrow> name \<in> set members \<or> (\<exists>(role, ms) \<in> set roles. name \<in> set ms)
   | _ \<Rightarrow> False)"

fun offers_cluster :: "cluster_click \<Rightarrow> menu \<times> drawn \<Rightarrow> bool" where
  "offers_cluster (onServerRegistration name) e = server_entry name e"
| "offers_cluster _ (ClusterNav, ServerEntries _ _) = True"
| "offers_cluster _ _ = False"

text \<open>The template of the Elasticsearch menu has no entry for the statistics of the cluster.\<close>

fun offers_elastic :: "elastic_click \<Rightarrow> menu \<times> drawn \<Rightarrow> bool" where
  "offers_elastic onSelectCluster _ = False"
| "offers_elastic (onSelectSearchIndex index) (ElasticNav, IndexEntries indices) = (index \<in> set indices)"
| "offers_elastic _ (ElasticNav, IndexEntries _) = True"
| "offers_elastic _ _ = False"

fun offers :: "'w app \<Rightarrow> site_event \<Rightarrow> bool" where
  "offers a (SelectPlugin name) = list_ex (\<lambda>p. pg_name p = name) (ap_plugins a)"
| "offers a (Click (ClusterMenu c)) = list_ex (offers_cluster c) (ap_menus a)"
| "offers a (Click (ElasticMenu c)) = list_ex (offers_elastic c) (ap_menus a)"
| "offers a (Click (YarnMenu name)) = entry_of YarnNav name a"
| "offers a (Click (RingBearerMenu name)) = entry_of RingBearerNav name a"
| "offers a (Click (DemandSpikeMenu name)) = entry_of DemandSpikeNav name a"
| "offers a (Click (ClusterApi name)) = entry_of ClusterApiNav name a"
| "offers a (Click (YarnApi name)) = entry_of YarnApiNav name a"
| "offers a (Click (RingBearerApi name)) = entry_of RingBearerApiNav name a"
| "offers a (Click (DemandSpikeApi name)) = entry_of DemandSpikeApiNav name a"
| "offers a (Click (DemoMenu name)) = entry_of DemoNav name a"
| "offers a (Click (Row c)) = on_trail_now a"
| "offers a (Click Back) = on_trail_now a"
| "offers a (Click (Crumb txt)) = on_trail_now a"

text \<open>The pages a user can reach: from the start, by any clicks that are offered.\<close>

inductive site_reachable :: "(jsnum \<Rightarrow> string) \<Rightarrow> (jsval \<Rightarrow> jsval) \<Rightarrow> 'w ajax \<Rightarrow> 'w app \<Rightarrow> bool"
  for nt pretty ajax where
  started: "app_start nt ajax w = (r, Some a) \<Longrightarrow> site_reachable nt pretty ajax a"
| clicked: "site_reachable nt pretty ajax a \<Longrightarrow> offers a e \<Longrightarrow>
    site_reachable nt pretty ajax (snd (app_event nt pretty ajax e a))"

end
