(* ===== verification/StartProps.thy ===== *)
theory StartProps
  imports Start
begin

text \<open>
  What holds of the application as a whole: how it starts when the first request is answered and
  when it is not, what every page a user reaches offers, and which pages can always be opened.
\<close>

section \<open>Drawing the menus\<close>

text \<open>What a drawn menu shows belongs to the menu; the menu of the cluster shows the registration kept.\<close>

fun fits :: "(jsnum \<Rightarrow> string) \<Rightarrow> jsval \<Rightarrow> menu \<Rightarrow> drawn \<Rightarrow> bool" where
  "fits nt reg ClusterNav e = (\<exists>members roles. menu_entries nt reg = Inr (members, roles) \<and> e = ServerEntries members roles)"
| "fits nt reg ElasticNav e = (\<exists>indices. e = IndexEntries indices)"
| "fits nt reg m e = (e = Entries (menu_names m))"

lemma in_app_parts:
  "ap_menus (snd (in_app m a)) = ap_menus a" "ap_active (snd (in_app m a)) = ap_active a"
  "ap_plugins (snd (in_app m a)) = ap_plugins a" "ap_registration (snd (in_app m a)) = ap_registration a" "ap_desk (snd (in_app m a)) = snd (m (ap_desk a))"
  by (simp_all add: in_app_def split: prod.split)

lemma desk_ok_world [simp]: "desk_ok (d\<lparr>dk_world := w\<rparr>) = desk_ok d"
  by (simp add: desk_ok_def split: place.split)

lemma fill_menu_run: "ap_menus a = ms @ [(m, e)] \<Longrightarrow> fill_menu e' a = (Inr (), a\<lparr>ap_menus := ms @ [(m, e')]\<rparr>)"
  by (simp add: fill_menu_def update_def)

text \<open>The parts of the page that the menus leave alone, and what drawing one menu does to the others.\<close>

definition menu_step :: "(jsnum \<Rightarrow> string) \<Rightarrow> menu \<Rightarrow> (menu \<times> drawn) list \<Rightarrow> 'w app \<Rightarrow> unit result \<Rightarrow> 'w app \<Rightarrow> bool" where
  "menu_step nt m ms a r a' \<longleftrightarrow>
     (\<exists>e. ap_menus a' = ms @ [(m, e)] \<and> (fits nt (ap_registration a) m e \<or> e = Empty) \<and> (is_ok r \<longrightarrow> fits nt (ap_registration a) m e)) \<and>
     ap_active a' = ap_active a \<and> ap_plugins a' = ap_plugins a \<and> ap_registration a' = ap_registration a \<and> (desk_ok (ap_desk a) \<longrightarrow> desk_ok (ap_desk a'))"

lemma render_menu_step:
  assumes "ap_menus a = ms @ [(m, Empty)]"
  shows "menu_step nt m ms a (fst (render_menu nt ajax m a)) (snd (render_menu nt ajax m a))"
proof (cases "m = ClusterNav \<or> m = ElasticNav")
  case False
  with assms show ?thesis
    by (cases m) (auto simp: menu_step_def render_menu_def fill_menu_def update_def)
next
  case True
  then show ?thesis
  proof
    assume m: "m = ClusterNav"
    show ?thesis
      using m by (cases "menu_entries nt (ap_registration a)")
        (auto simp: menu_step_def render_menu_def fill_menu_run [OF assms] prog_defs fill_menu_def assms)
  next
    assume m: "m = ElasticNav"
    obtain r w' where run: "availableIndices ajax (dk_world (ap_desk a)) = (r, w')" by (cases "availableIndices ajax (dk_world (ap_desk a))")
    show ?thesis
    proof (cases r)
      case (Inl e)
      with m run assms show ?thesis
        by (simp add: menu_step_def render_menu_def prog_defs in_app_def in_desk_def)
    next
      case (Inr indices)
      let ?d = "ap_desk a\<lparr>dk_world := w'\<rparr>"
      obtain r' d' where menu: "elastic_menu nt ajax onSelectNodes ?d = (r', d')" by (cases "elastic_menu nt ajax onSelectNodes ?d")
      have "desk_ok d'" if "desk_ok (ap_desk a)"
        using keepsD [OF keeps_elastic, of ?d nt ajax onSelectNodes] that menu by simp
      with m run Inr menu assms show ?thesis
        by (auto simp: menu_step_def render_menu_def fill_menu_def prog_defs in_app_def in_desk_def)
    qed
  qed
qed

text \<open>
  Drawing several menus stops at the first that raises: those before it are drawn, that one is empty
  or drawn, and none follows.
\<close>

definition menus_step :: "(jsnum \<Rightarrow> string) \<Rightarrow> menu list \<Rightarrow> 'w app \<Rightarrow> unit result \<Rightarrow> 'w app \<Rightarrow> bool" where
  "menus_step nt ms a r a' \<longleftrightarrow>
     (\<exists>new. ap_menus a' = ap_menus a @ new \<and> map fst new = take (length new) ms \<and>
       list_all (\<lambda>(m, e). fits nt (ap_registration a) m e) (butlast new) \<and> list_all (\<lambda>(m, e). fits nt (ap_registration a) m e \<or> e = Empty) new \<and>
       (is_ok r \<longrightarrow> length new = length ms \<and> list_all (\<lambda>(m, e). fits nt (ap_registration a) m e) new)) \<and>
     ap_active a' = ap_active a \<and> ap_plugins a' = ap_plugins a \<and> ap_registration a' = ap_registration a \<and> (desk_ok (ap_desk a) \<longrightarrow> desk_ok (ap_desk a'))"

definition add_menu :: "(jsnum \<Rightarrow> string) \<Rightarrow> 'w ajax \<Rightarrow> menu \<Rightarrow> ('w app, unit) prog" where
  "add_menu nt ajax m = andthen (update (\<lambda>a. a\<lparr>ap_menus := ap_menus a @ [(m, Empty)]\<rparr>)) (render_menu nt ajax m)"

lemma add_menu_step: "menu_step nt m (ap_menus a) a (fst (add_menu nt ajax m a)) (snd (add_menu nt ajax m a))"
  using render_menu_step [of "a\<lparr>ap_menus := ap_menus a @ [(m, Empty)]\<rparr>" "ap_menus a" m nt ajax]
  by (simp add: add_menu_def menu_step_def prog_defs)

lemma add_menus_step: "menus_step nt ms a (fst (for_each ms (add_menu nt ajax) a)) (snd (for_each ms (add_menu nt ajax) a))"
proof (induction ms arbitrary: a)
  case Nil
  show ?case by (simp add: menus_step_def ret_def)
next
  case (Cons m ms)
  obtain r a' where run: "add_menu nt ajax m a = (r, a')" by (cases "add_menu nt ajax m a")
  from add_menu_step [of nt m a ajax] obtain e where one: "ap_menus a' = ap_menus a @ [(m, e)]" "fits nt (ap_registration a) m e \<or> e = Empty" "is_ok r \<Longrightarrow> fits nt (ap_registration a) m e"
    "ap_active a' = ap_active a" "ap_plugins a' = ap_plugins a" "ap_registration a' = ap_registration a" "desk_ok (ap_desk a) \<Longrightarrow> desk_ok (ap_desk a')"
    by (auto simp: run menu_step_def)
  show ?case
  proof (cases r)
    case (Inl x)
    have "menus_step nt (m # ms) a (Inl x) a'"
      unfolding menus_step_def using one by (intro conjI exI [of _ "[(m, e)]"]) auto
    then show ?thesis by (simp add: run Inl prog_defs)
  next
    case (Inr u)
    let ?rest = "for_each ms (add_menu nt ajax) a'"
    from Cons.IH [of a'] obtain new where tl: "ap_menus (snd ?rest) = ap_menus a' @ new" "map fst new = take (length new) ms"
      "list_all (\<lambda>(m, e). fits nt (ap_registration a) m e) (butlast new)"
      "list_all (\<lambda>(m, e). fits nt (ap_registration a) m e \<or> e = Empty) new"
      "is_ok (fst ?rest) \<Longrightarrow> length new = length ms \<and> list_all (\<lambda>(m, e). fits nt (ap_registration a) m e) new"
      "ap_active (snd ?rest) = ap_active a'" "ap_plugins (snd ?rest) = ap_plugins a'" "ap_registration (snd ?rest) = ap_registration a'"
      "desk_ok (ap_desk a') \<Longrightarrow> desk_ok (ap_desk (snd ?rest))"
      by (auto simp: menus_step_def one(6))
    have "menus_step nt (m # ms) a (fst ?rest) (snd ?rest)"
      unfolding menus_step_def using one tl Inr by (intro conjI exI [of _ "(m, e) # new"]) auto
    then show ?thesis by (simp add: run Inr prog_defs)
  qed
qed

section \<open>The reachable pages\<close>

text \<open>The page lists all plugins and shows an initial part of the active one's menus.\<close>

definition site_ok :: "(jsnum \<Rightarrow> string) \<Rightarrow> 'w app \<Rightarrow> bool" where
  "site_ok nt a \<longleftrightarrow> ap_plugins a = registered \<and>
     (\<exists>p \<in> set registered. ap_active a = Some p \<and> map fst (ap_menus a) = take (length (ap_menus a)) (uiNavigation (pg_name p))) \<and>
     list_all (\<lambda>(m, e). fits nt (ap_registration a) m e) (butlast (ap_menus a)) \<and> list_all (\<lambda>(m, e). fits nt (ap_registration a) m e \<or> e = Empty) (ap_menus a) \<and>
     desk_ok (ap_desk a)"

lemma app_renderNavigation_active:
  "ap_active a = Some p \<Longrightarrow> app_renderNavigation nt ajax a =
     for_each (uiNavigation (pg_name p)) (add_menu nt ajax) (a\<lparr>ap_plugins := registered, ap_menus := []\<rparr>)"
  unfolding add_menu_def [abs_def] by (simp add: app_renderNavigation_def andthen_def seq_def reads_def update_def)

lemma render_site_ok:
  assumes "ap_active a = Some p" "p \<in> set registered" "desk_ok (ap_desk a)"
  shows "site_ok nt (snd (app_renderNavigation nt ajax a))"
  using add_menus_step [of nt "uiNavigation (pg_name p)" "a\<lparr>ap_plugins := registered, ap_menus := []\<rparr>" ajax] assms
  by (auto simp: app_renderNavigation_active menus_step_def site_ok_def)

lemma getPlugin_registered: "list_ex (\<lambda>p. pg_name p = name) registered \<Longrightarrow> \<exists>p \<in> set registered. getPlugin name registered = Some p \<and> pg_name p = name"
  unfolding getPlugin_def by (cases "find (\<lambda>p. pg_name p = name) registered") (auto simp: find_None_iff find_Some_iff list_ex_iff)

lemma started_ok: "site_ok nt (snd (app_initialize nt ajax (newApp reg w)))"
proof -
  let ?a = "(newApp reg w)\<lparr>ap_banner := True\<rparr>"
  obtain r a' where run: "app_renderNavigation nt ajax ?a = (r, a')" by (cases "app_renderNavigation nt ajax ?a")
  have "site_ok nt a'"
    using render_site_ok [of ?a ClusterPlugin nt ajax] run
    by (simp add: newApp_def getPlugin_def registered_def addPlugin_def ClusterPlugin_def newDesk_def desk_ok_def)
  then show ?thesis
    by (cases r) (simp_all add: app_initialize_def app_render_def prog_defs run site_ok_def)
qed

lemma event_ok:
  assumes "site_ok nt a" "offers a e"
  shows "site_ok nt (snd (app_event nt pretty ajax e a))"
proof (cases e)
  case (SelectPlugin name)
  with assms obtain p where "p \<in> set registered" "getPlugin name registered = Some p"
    using getPlugin_registered [of name] by (auto simp: site_ok_def)
  with render_site_ok [of "a\<lparr>ap_active := Some p\<rparr>" p nt ajax] assms(1) SelectPlugin show ?thesis
    by (simp add: selectPlugin_def prog_defs site_ok_def)
next
  case (Click ev)
  have "desk_ok (snd (run_event nt pretty ajax ev (ap_desk a)))"
    using assms(1) by (intro keepsD [OF keeps_event]) (simp add: site_ok_def)
  with assms(1) Click show ?thesis by (simp add: site_ok_def in_app_parts)
qed

lemma reachable_ok: "site_reachable nt pretty ajax a \<Longrightarrow> site_ok nt a"
proof (induction rule: site_reachable.induct)
  case (started w r a)
  then obtain reg w' where "app_initialize nt ajax (newApp reg w') = (r, a)"
    by (auto simp: app_start_def split: prod.splits sum.splits)
  then show ?case using started_ok [of nt ajax reg w'] by simp
qed (simp add: event_ok)

text \<open>No registered plugin has the menus of DemandSpike.\<close>

lemma no_demandspike:
  assumes "site_ok nt a"
  shows "(DemandSpikeNav, e) \<notin> set (ap_menus a)" "(DemandSpikeApiNav, e) \<notin> set (ap_menus a)"
proof -
  from assms obtain p where p: "p \<in> set registered" "map fst (ap_menus a) = take (length (ap_menus a)) (uiNavigation (pg_name p))"
    by (auto simp: site_ok_def)
  then have "set (map fst (ap_menus a)) \<subseteq> set (uiNavigation (pg_name p))" by (metis set_take_subset)
  moreover have "DemandSpikeNav \<notin> set (uiNavigation (pg_name p))" "DemandSpikeApiNav \<notin> set (uiNavigation (pg_name p))"
    using p(1) by (auto simp: registered_def addPlugin_def uiNavigation_def ClusterPlugin_def RingBearerPlugin_def YarnPlugin_def
      ElasticsearchPlugin_def UIDemoPlugin_def)
  ultimately show "(DemandSpikeNav, e) \<notin> set (ap_menus a)" "(DemandSpikeApiNav, e) \<notin> set (ap_menus a)"
    by force+
qed

text \<open>
  C24: Once the modules are loaded, whatever offered clicks follow and whichever requests fail, the
  page lists all five plugins, each of which can be selected; below them are the first menus of the
  active plugin in its order, all drawn up to the last, which may be empty when it could not be drawn;
  the menu of the cluster shows the registration that was requested at the start; the trail in the
  workspace is consistent with its views; and no entry of DemandSpike is ever offered.\<close>
theorem site_always_consistent:
  assumes "site_reachable nt pretty ajax a"
  shows "list_all (\<lambda>name. offers a (SelectPlugin name)) [''cluster'', ''ringbearer'', ''yarn'', ''elasticsearch'', ''uidemo''] \<and>
    (\<exists>p k. ap_active a = Some p \<and> map fst (ap_menus a) = take k (uiNavigation (pg_name p)) \<and> offers a (SelectPlugin (pg_name p))) \<and>
    list_all (\<lambda>(m, e). fits nt (ap_registration a) m e) (butlast (ap_menus a)) \<and> list_all (\<lambda>(m, e). fits nt (ap_registration a) m e \<or> e = Empty) (ap_menus a) \<and>
    desk_ok (ap_desk a) \<and>
    \<not> offers a (Click (DemandSpikeMenu name)) \<and> \<not> offers a (Click (DemandSpikeApi name))"
proof -
  have ok: "site_ok nt a" by (rule reachable_ok [OF assms])
  then obtain p where p: "p \<in> set registered" "ap_active a = Some p"
    "map fst (ap_menus a) = take (length (ap_menus a)) (uiNavigation (pg_name p))"
    by (auto simp: site_ok_def)
  have "list_all (\<lambda>name. offers a (SelectPlugin name)) [''cluster'', ''ringbearer'', ''yarn'', ''elasticsearch'', ''uidemo'']"
    using ok by (simp add: site_ok_def registered_def addPlugin_def ClusterPlugin_def RingBearerPlugin_def YarnPlugin_def
      ElasticsearchPlugin_def UIDemoPlugin_def)
  moreover have "offers a (SelectPlugin (pg_name p))" using ok p(1) by (auto simp: site_ok_def list_ex_iff)
  ultimately show ?thesis
    using ok p no_demandspike [OF ok] by (auto simp: entry_of_def site_ok_def)
qed

text \<open>A server that answers the first request, with a registration without servers, and no other.\<close>

definition first_answer :: "nat ajax" where
  "first_answer r w = (if w = 0 then Some (JObj [(''data'', JObj [(''serverRegistration'', JArr [])])]) else None, Suc w)"

lemma first_registration:
  "newClusterRegistration nt first_answer 0 = (Inr (JObj [(''serverRegistration'', JArr [])]), 1)"
  by (simp add: newClusterRegistration_def clusterRequest_def serverPOST_def send_def first_answer_def prog_defs prop_of_def get_prop_def)

lemma first_start:
  "\<exists>r a. app_start nt first_answer 0 = (r, Some a)"
  by (auto simp: app_start_def first_registration split: prod.split)

theorem site_always_consistent_witness:
  "\<exists>r a. app_start (\<lambda>_. []) first_answer 0 = (r, Some a) \<and>
     (let a' = snd (app_event (\<lambda>_. []) (\<lambda>v. v) first_answer (SelectPlugin ''yarn'') a) in
      list_all (\<lambda>name. offers a' (SelectPlugin name)) [''cluster'', ''ringbearer'', ''yarn'', ''elasticsearch'', ''uidemo''] \<and>
      \<not> offers a' (Click (DemandSpikeMenu ''UIJobScheduler'')))"
proof -
  obtain r a where start: "app_start (\<lambda>_. []) first_answer 0 = (r, Some a)" using first_start by blast
  have a: "site_reachable (\<lambda>_. []) (\<lambda>v. v) first_answer a" by (rule started [OF start])
  have "offers a (SelectPlugin ''yarn'')" using site_always_consistent [OF a] by simp
  from site_always_consistent [OF clicked [OF a this]] start show ?thesis by (auto simp: Let_def)
qed

section \<open>The start\<close>

lemma cluster_menus:
  assumes "ap_active a = Some ClusterPlugin"
  shows "app_renderNavigation nt ajax a =
    (case menu_entries nt (ap_registration a) of
       Inl e \<Rightarrow> (Inl e, a\<lparr>ap_plugins := registered, ap_menus := [(ClusterNav, Empty)]\<rparr>)
     | Inr (members, roles) \<Rightarrow> (Inr (), a\<lparr>ap_plugins := registered,
         ap_menus := [(ClusterNav, ServerEntries members roles), (ClusterApiNav, Entries (menu_names ClusterApiNav))]\<rparr>))"
  using assms
  by (auto simp: app_renderNavigation_active ClusterPlugin_def uiNavigation_def add_menu_def render_menu_def fill_menu_def
      prog_defs split: prod.splits sum.splits)

lemma initialize_run:
  "app_initialize nt ajax (newApp reg w) =
    (case menu_entries nt reg of
       Inl e \<Rightarrow> (Inl e, (newApp reg w)\<lparr>ap_banner := True, ap_plugins := registered, ap_menus := [(ClusterNav, Empty)]\<rparr>)
     | Inr (members, roles) \<Rightarrow> (Inr (), (newApp reg w)\<lparr>ap_banner := True, ap_plugins := registered,
         ap_menus := [(ClusterNav, ServerEntries members roles), (ClusterApiNav, Entries (menu_names ClusterApiNav))],
         ap_welcome := True, ap_footer := True\<rparr>))"
proof -
  have active: "ap_active ((newApp reg w)\<lparr>ap_banner := True\<rparr>) = Some ClusterPlugin"
    by (simp add: newApp_def getPlugin_def registered_def addPlugin_def ClusterPlugin_def)
  show ?thesis
    using cluster_menus [OF active, of nt ajax]
    by (auto simp: app_initialize_def app_render_def prog_defs newApp_def split: sum.splits)
qed

definition registration_request :: "(jsnum \<Rightarrow> string) \<Rightarrow> ajax_request" where
  "registration_request nt =
     \<lparr>rq_type = ''POST'', rq_url = ''/cluster/rest'', rq_dataType = ''json'',
      rq_data = Some (json_text nt (JObj [(''command'', JStr ''cluster registration'')]))\<rparr>"

text \<open>
  C27: The start. Loading the modules sends one request, for the registration of the cluster, and the
  start sends no other. When it fails the modules stay undefined, so there is no application and
  nothing is drawn. When it is answered, banner and plugins are drawn and then the menu of the
  servers from the data of the answer: if the data has the servers and roles of a registration, both
  menus of the cluster, greeting and footer follow; if not, for instance when the answer has no
  data, the start raises with an empty menu and draws neither greeting nor footer.\<close>
theorem start_needs_registration:
  assumes "ajax (registration_request nt) w = (answer, w')"
  shows "case answer of
      None \<Rightarrow> app_start nt ajax w = (Inl (TypeError ''data''), None)
    | Some response \<Rightarrow>
       (case prop_of ''data'' response of
          Inl e \<Rightarrow> app_start nt ajax w = (Inl e, None)
        | Inr reg \<Rightarrow> (\<exists>r a. app_start nt ajax w = (r, Some a) \<and>
            is_ok r = is_ok (menu_entries nt reg) \<and> ap_registration a = reg \<and> dk_world (ap_desk a) = w' \<and>
            ap_banner a \<and> ap_plugins a = registered \<and> ap_footer a = is_ok r \<and> ap_welcome a = is_ok r \<and>
            dk_place (ap_desk a) = Blank \<and>
            ap_menus a = (case menu_entries nt reg of
                Inl e \<Rightarrow> [(ClusterNav, Empty)]
              | Inr (members, roles) \<Rightarrow>
                  [(ClusterNav, ServerEntries members roles), (ClusterApiNav, Entries [''Cluster'', ''Server'', ''Module''])])))"
proof -
  have reg: "newClusterRegistration nt ajax w =
      (case answer of None \<Rightarrow> (Inl (TypeError ''data''), w') | Some response \<Rightarrow> (prop_of ''data'' response, w'))"
    using assms
    by (simp add: newClusterRegistration_def clusterRequest_def serverPOST_def send_def registration_request_def prog_defs
        prop_of_def split: option.split)
  show ?thesis
    unfolding app_start_def reg initialize_run
    by (auto simp: newApp_def newDesk_def split: option.split sum.split)
qed

theorem start_needs_registration_witness:
  "app_start (\<lambda>_. []) (\<lambda>r w. (None, Suc w)) 0 = (Inl (TypeError ''data''), None) \<and>
   (\<exists>a. app_start (\<lambda>_. []) first_answer 0 = (Inr (), Some a) \<and> ap_footer a)"
proof -
  have some: "first_answer (registration_request (\<lambda>_. [])) 0 = (Some (JObj [(''data'', JObj [(''serverRegistration'', JArr [])])]), 1)"
    by (simp add: first_answer_def)
  have menu: "menu_entries (\<lambda>_. []) (JObj [(''serverRegistration'', JArr [])]) = Inr ([], [])" by code_simp
  have data: "prop_of ''data'' (JObj [(''data'', JObj [(''serverRegistration'', JArr [])])]) = Inr (JObj [(''serverRegistration'', JArr [])])"
    by (simp add: prop_of_def get_prop_def)
  from start_needs_registration [of "\<lambda>r w. (None, Suc w)" "\<lambda>_. []" 0 None 1] start_needs_registration [where ajax = first_answer and w = 0, OF some] show ?thesis
    by (auto simp: menu data is_ok_iff)
qed

section \<open>Pages that can always be opened\<close>

lemma select_fixed:
  assumes "name \<in> {''ringbearer'', ''yarn'', ''uidemo''}"
  shows "selectPlugin nt ajax name a = (Inr (), a\<lparr>ap_active := getPlugin name registered, ap_plugins := registered,
     ap_menus := map (\<lambda>m. (m, Entries (menu_names m))) (uiNavigation name)\<rparr>)"
  using assms
  by (auto simp: selectPlugin_def app_renderNavigation_def getPlugin_def registered_def addPlugin_def ClusterPlugin_def
      RingBearerPlugin_def YarnPlugin_def ElasticsearchPlugin_def UIDemoPlugin_def uiNavigation_def render_menu_def fill_menu_def prog_defs)

lemma opened_trail: "\<exists>b. dk_place (snd (open_then_build m d)) = TrailOf b"
  by (auto simp: open_then_build_def setUIComponent_def in_desk_def push_view_def prog_defs split: prod.split sum.split)

text \<open>The place in the workspace after the click on a plugin and then on an entry of its menus.\<close>

definition two_clicks :: "(jsnum \<Rightarrow> string) \<Rightarrow> (jsval \<Rightarrow> jsval) \<Rightarrow> 'w ajax \<Rightarrow> string \<Rightarrow> event \<Rightarrow> 'w app \<Rightarrow> place option" where
  "two_clicks nt pretty ajax name e a =
     (let a' = snd (app_event nt pretty ajax (SelectPlugin name) a) in
      if offers a (SelectPlugin name) \<and> offers a' (Click e)
      then Some (dk_place (ap_desk (snd (app_event nt pretty ajax (Click e) a')))) else None)"

text \<open>
  C28: From every page a user reaches once the modules are loaded, whichever later requests fail, two clicks that the page offers open
  each demo, each interface page of RingBearer and Yarn, and a trail for the jobs of RingBearer
  and the applications of Yarn.\<close>
theorem pages_in_two_clicks:
  assumes "site_reachable nt pretty ajax a"
  shows "list_all (\<lambda>name. two_clicks nt pretty ajax ''uidemo'' (DemoMenu name) a = Some (DemoOf name)) [''UITableDemo'', ''UITableTreeDemo'', ''UIBeanDemo''] \<and>
    two_clicks nt pretty ajax ''ringbearer'' (RingBearerApi ''RingBearer'') a = Some (PageOf UIRingBearerApi) \<and>
    two_clicks nt pretty ajax ''yarn'' (YarnApi ''Yarn'') a = Some (PageOf UIYarnApi) \<and>
    (\<exists>b. two_clicks nt pretty ajax ''ringbearer'' (RingBearerMenu ''UIJobScheduler'') a = Some (TrailOf b)) \<and>
    (\<exists>b. two_clicks nt pretty ajax ''yarn'' (YarnMenu ''UIListApplication'') a = Some (TrailOf b))"
proof -
  have offered: "offers a (SelectPlugin name)" if "name \<in> {''ringbearer'', ''yarn'', ''uidemo''}" for name
    using reachable_ok [OF assms] that by (auto simp: site_ok_def registered_def addPlugin_def RingBearerPlugin_def YarnPlugin_def UIDemoPlugin_def)
  have run: "two_clicks nt pretty ajax name e a = (if offers (snd (selectPlugin nt ajax name a)) (Click e)
      then Some (dk_place (snd (run_event nt pretty ajax e (ap_desk a)))) else None)"
    if "name \<in> {''ringbearer'', ''yarn'', ''uidemo''}" for name e
    using offered [OF that] select_fixed [OF that, of nt ajax a] by (simp add: two_clicks_def in_app_parts Let_def)
  show ?thesis
    using opened_trail [of "RingBearerJobScheduler nt ajax" "ap_desk a"] opened_trail [of "UIListApplication ajax" "ap_desk a"]
    by (simp add: run select_fixed entry_of_def uiNavigation_def uidemo_onSelect_def ringbearer_api_onSelect_def yarn_api_onSelect_def
        open_page_def setUIComponent_def update_def ringbearer_onSelect_def ringbearer_module_def yarn_onSelect_def yarn_module_def open_module_def)
qed

theorem pages_in_two_clicks_witness:
  "\<exists>r a. app_start (\<lambda>_. []) first_answer 0 = (r, Some a) \<and>
     two_clicks (\<lambda>_. []) (\<lambda>v. v) first_answer ''uidemo'' (DemoMenu ''UITableDemo'') a = Some (DemoOf ''UITableDemo'')"
proof -
  obtain r a where start: "app_start (\<lambda>_. []) first_answer 0 = (r, Some a)" using first_start by blast
  from pages_in_two_clicks [OF started [OF start], of "\<lambda>v. v"] start show ?thesis by auto
qed

section \<open>The coarser model of the site\<close>

text \<open>
  Theory Components counts the menus only. When selecting a plugin returns, its model gives the
  abstraction of the page reached here.
\<close>

definition site_of :: "breadcrumbs option \<Rightarrow> 'w app \<Rightarrow> site" where
  "site_of place a = \<lparr>activePlugin = ap_active a, navigation = Some (map pg_label (ap_plugins a), Some (length (ap_menus a))),
     workspace = place\<rparr>"

lemma menus_of_registered: "p \<in> set registered \<Longrightarrow> length (uiNavigation (pg_name p)) = pg_blocks p"
  by (auto simp: registered_def addPlugin_def uiNavigation_def ClusterPlugin_def RingBearerPlugin_def YarnPlugin_def
      ElasticsearchPlugin_def UIDemoPlugin_def)

lemma select_refines:
  assumes "is_ok (fst (selectPlugin nt ajax name a))"
  shows "setActivePlugin name s = (Inr (), site_of (workspace s) (snd (selectPlugin nt ajax name a)))"
proof -
  from assms obtain p where p: "getPlugin name registered = Some p"
    by (cases "getPlugin name registered") (simp_all add: selectPlugin_def app_renderNavigation_def prog_defs)
  then have "p \<in> set registered" by (auto simp: getPlugin_def find_Some_iff)
  then have blocks: "length (uiNavigation (pg_name p)) = pg_blocks p" by (rule menus_of_registered)
  let ?a = "a\<lparr>ap_active := Some p, ap_plugins := registered, ap_menus := []\<rparr>"
  have run: "selectPlugin nt ajax name a = for_each (uiNavigation (pg_name p)) (add_menu nt ajax) ?a"
    using app_renderNavigation_active [of "a\<lparr>ap_active := Some p\<rparr>" p nt ajax] p by (simp add: selectPlugin_def prog_defs)
  from add_menus_step [of nt "uiNavigation (pg_name p)" ?a ajax] assms
  have "length (ap_menus (snd (selectPlugin nt ajax name a))) = pg_blocks p" "ap_active (snd (selectPlugin nt ajax name a)) = Some p"
    "ap_plugins (snd (selectPlugin nt ajax name a)) = registered"
    by (auto simp: run menus_step_def blocks)
  with p show ?thesis by (simp add: setActivePlugin_def renderNavigation_def prog_defs site_of_def)
qed

end
