(* ===== verification/Assertions.thy ===== *)
theory Assertions
  imports JSValue
begin

text \<open>
  The helpers of \<open>util/Assert.js\<close> and \<open>util/console.js\<close>. An assertion raises
  an \<open>Error\<close> with the message given, or with one of its own. Values carry no identity, so whether two objects are the same one is an argument of the strict comparison.
\<close>

fun truthy :: "jsval \<Rightarrow> bool" where
  "truthy JUndef = False"
| "truthy JNull = False"
| "truthy (JBool b) = b"
| "truthy (JNum n) = (n \<noteq> NaN \<and> n \<noteq> Fin 0)"
| "truthy (JStr s) = (s \<noteq> [])"
| "truthy _ = True"

fun strict_eq :: "bool \<Rightarrow> jsval \<Rightarrow> jsval \<Rightarrow> bool" where
  "strict_eq same JUndef JUndef = True"
| "strict_eq same JNull JNull = True"
| "strict_eq same (JBool b) (JBool c) = (b = c)"
| "strict_eq same (JNum m) (JNum n) = (m = n \<and> m \<noteq> NaN)"
| "strict_eq same (JStr s) (JStr t) = (s = t)"
| "strict_eq same (JArr _) (JArr _) = same"
| "strict_eq same (JObj _) (JObj _) = same"
| "strict_eq same _ _ = False"

text \<open>\<open>new Error(msg)\<close> turns its argument into text; without an argument the message is empty.\<close>

definition new_error :: "(jsnum \<Rightarrow> string) \<Rightarrow> jsval \<Rightarrow> js_error" where
  "new_error nt msg = ErrorObject (if msg = JUndef then [] else js_text nt msg)"

definition assert_that :: "(jsnum \<Rightarrow> string) \<Rightarrow> bool \<Rightarrow> string \<Rightarrow> jsval \<Rightarrow> unit result" where
  "assert_that nt holds own msg = (if holds then Inr () else Inl (if nullish msg then ErrorObject own else new_error nt msg))"

definition assertTrue :: "(jsnum \<Rightarrow> string) \<Rightarrow> jsval \<Rightarrow> jsval \<Rightarrow> unit result" where
  "assertTrue nt b msg = assert_that nt (truthy b) ''expect a true value'' msg"

definition assertFalse :: "(jsnum \<Rightarrow> string) \<Rightarrow> jsval \<Rightarrow> jsval \<Rightarrow> unit result" where
  "assertFalse nt b msg = assert_that nt (\<not> truthy b) ''expect a false value'' msg"

definition assertNull :: "(jsnum \<Rightarrow> string) \<Rightarrow> jsval \<Rightarrow> jsval \<Rightarrow> unit result" where
  "assertNull nt v msg = assert_that nt (nullish v) ''expect a null value'' msg"

definition assertNotNull :: "(jsnum \<Rightarrow> string) \<Rightarrow> jsval \<Rightarrow> jsval \<Rightarrow> unit result" where
  "assertNotNull nt v msg = assert_that nt (\<not> nullish v) ''expect a non null value'' msg"

definition assertEquals :: "(jsnum \<Rightarrow> string) \<Rightarrow> bool \<Rightarrow> jsval \<Rightarrow> jsval \<Rightarrow> jsval \<Rightarrow> unit result" where
  "assertEquals nt same o1 o2 msg =
     assert_that nt (strict_eq same o1 o2) (''expect '' @ js_text nt o1 @ '', but result '' @ js_text nt o2) msg"

definition assert_fail :: "(jsnum \<Rightarrow> string) \<Rightarrow> jsval \<Rightarrow> unit result" where
  "assert_fail nt msg = Inl (new_error nt msg)"

text \<open>The console as the texts logged, oldest first; the indented text of a value is a parameter.\<close>

definition printJSON :: "(jsval \<Rightarrow> string) \<Rightarrow> jsval \<Rightarrow> (string list, unit) prog" where
  "printJSON pretty v = update (\<lambda>lines. lines @ [pretty v])"

text \<open>Exactly one of a pair of opposite assertions raises; a number is equal to itself unless it is \<open>NaN\<close>.\<close>

lemma opposite_assertions:
  "is_ok (assertTrue nt b msg) \<longleftrightarrow> \<not> is_ok (assertFalse nt b msg)" "is_ok (assertNull nt v msg) \<longleftrightarrow> \<not> is_ok (assertNotNull nt v msg)"
  by (simp_all add: assertTrue_def assertFalse_def assertNull_def assertNotNull_def assert_that_def)

lemma equal_to_itself: "is_ok (assertEquals nt True v v msg) \<longleftrightarrow> v \<noteq> JNum NaN"
  by (cases v) (simp_all add: assertEquals_def assert_that_def)

end
