(* ===== verification/Spec2Isabelle.thy ===== *)
theory Spec2Isabelle
  imports PageList DemoTables TableTree Components Gateway Scripts Jobs PluginProps StartProps Assertions
begin

text \<open>
  NeverwinterDP: the web console (\<open>src/main/webapp/app/js\<close>) and the scripts that deploy and test a
  cluster (\<open>src/app/jscript\<close>), as definitions that compute, with the theorems that make them
  correct. Paths below are relative to these two directories.

  The program. The console is a single page. A plugin (\<open>plugins/*/Plugin.js\<close>) contributes menus
  (\<open>plugins/*/UINavigation.js\<close>); a click in a menu requests data from the servers
  (\<open>service/Server.js\<close>, \<open>service/ClusterGateway.js\<close>, \<open>plugins/elasticsearch/ESGateway.js\<close>), makes
  a view of it and puts a trail with the view into the workspace (\<open>site/UIWorkspace.js\<close>,
  \<open>ui/UIBreadcumbs.js\<close>). The views are configurations of four components: forms
  (\<open>ui/UIBean.js\<close>), tables (\<open>ui/UITable.js\<close>) over a pager (\<open>util/PageList.js\<close>), tree tables
  (\<open>ui/UITableTree.js\<close>) and pages of blocks (\<open>ui/UIContainer.js\<close>, \<open>ui/UICollapsible.js\<close>). Clicks
  in a view push further views on the trail. The scripts build commands for the shell of the
  cluster: installation and removal of modules, jobs, and the submission of jobs.

  Conventions. A method is a computation over its state that returns a value or raises and keeps
  in both cases the state it reached (\<open>prog\<close> in theory Prelude); an operation without effects
  that may raise returns a sum (\<open>result\<close>). JavaScript values are the datatype \<open>jsval\<close>, objects are
  lists of properties in their order, numbers are rationals with the infinities and NaN. A
  number read from text is rounded to the nearest double (\<open>to_double\<close>, by which \<open>parseInt\<close>,
  \<open>parseFloat\<close> and the conversion of texts are defined); the arithmetic of the display functions is exact,
  and zero has one sign. Strings are lists of characters. The text of a
  number (\<open>num_text\<close>, \<open>nt\<close>), the indented JSON text (\<open>pretty\<close>), the answers of the servers
  (\<open>ajax\<close>) and the functions of a plugin's configuration are parameters. \<open>ajax\<close> gets a request and a
  world and returns the answer, or nothing when the request fails, and the next world, so the
  order of the requests is visible.

  The theories, by the parts of the program:

  \<^item> Prelude: exceptions, computations, arrays with integer indices, and the rules that derive
    frame conditions (\<open>leaves\<close>) and invariants (\<open>keeps\<close>) along a computation. JSValue: values,
    property lists with the locale \<open>property_map\<close> and its interpretation, equality and coercions,
    the parser of number texts and the rounding to doubles.
  \<^item> PageList: the pager as a record and its methods; the locale \<open>pager\<close> states its contract,
    which is interpreted on these methods and used by the table view. Lemmas: the count, the
    number of pages and the current page fit each other under all the methods, the shown items are
    those of the current page as long as only the methods with callers are used, the pages partition
    the list, removing removes the item shown.
  \<^item> UIUtil: the validators, with the regular expressions as predicates, and their bounds.
  \<^item> UIBean, UIBeanFacts, UIBeanProps, UIBeanValidation: forms. The state has the bound beans in a
    heap, since an array form shares its beans with the caller. Lemmas: one block is selected,
    array forms mirror the array, restoring undoes edits of texts (not those that only compare
    equal, nor the trimming of OK), what validation reports, and when a form leaves the edit mode.
  \<^item> FormPage: the inputs and texts a form draws and the events they offer. The template puts texts
    into the page without escaping them; what the browser reads back is a parameter (\<open>html\<close>) of
    which only is used that it leaves plain texts as they are, and a plain text typed is shown
    again. FormTypes: forms over typed beans never raise and keep their types. SharedArrays: forms
    over a store where several fields may refer to one array; the model over values is an
    abstraction of it as long as no array is shared. Demo: the page of the form demos, whose
    blocks share an array.
  \<^item> UITable, UITableFacts, UITableProps: tables with marks, counters, filter and rows, over the
    contract of the pager. Lemmas: the invariant of all reachable tables, what is
    left of it when setting or adding beans raises (\<open>table_run\<close>), removal, filter, and that the beans
    given come back.
  \<^item> DemoTables: what a page of a table shows and what deleting a row does, for any beans, then the
    demos of the table and of the tree with their configurations and beans.
  \<^item> CustomInput: inputs with suggestions, whose search runs on a timer, and date inputs, as state
    machines over the events of the user and the timers. TableEdit: the popup form that edits the
    rows of a table, over the store the form and the table share.
  \<^item> TableTree: nodes with generated identifiers, searching, and the rows that are visible.
  \<^item> Components: the chain of parents (a partial function, since parents may form a cycle), the
    breadcrumb trail with the locale \<open>view_trail\<close> that states what the workspace relies on, containers,
    the registry of plugins and the navigation of the site.
  \<^item> Gateway: requests, the commands of the cluster and its registration, and Elasticsearch.
  \<^item> Views: what the configurations of the plugins share: fields with their display functions,
    views as a datatype, what a view draws, numbers with two decimals, and a page of blocks as a
    state. ClusterViews, ElasticViews, JobViews: every view of the plugins, with its fields, its
    request, and how it lays out the answer. PluginProps: what these views show.
  \<^item> ApiPages: the pages that document the gateway, with their demos and the popup.
  \<^item> Navigation: the workspace as a state, the menus, the clicks in views, and \<open>run_events\<close>, the
    state after any list of clicks. A view that raises while it is drawn stays on the trail, and the
    area keeps what it showed or is cleared, depending on the kind of the view (\<open>replaces_area\<close>).
    NavigationProps: what holds after any clicks.
  \<^item> Start: the address of the application, the request for the registration of the cluster, which is
    sent once when \<open>service/ClusterGateway.js\<close> is loaded and without whose answer there is no
    application (\<open>app_start\<close>), the order in which the page is drawn, the menus of the
    active plugin with what they show, and the clicks that the page offers (\<open>offers\<close>), with the
    pages reachable by them (\<open>site_reachable\<close>). StartProps: the invariant of these pages, how the
    start depends on the first request, and which pages can always be opened. The navigation of
    theory Components is shown to be an abstraction of it. Assertions: the helpers of \<open>util\<close>.
  \<^item> Deploy: the modules of a cluster and their commands. The locales \<open>server_module\<close>,
    \<open>removable_module\<close> and \<open>cluster_module\<close> state what installing by server and removing
    promise, and are interpreted on the modules. Scripts: the deployment scripts and what they
    install, remove and number. Jobs: the jobs, which commands on services fit
    what was stopped before (\<open>svc_step\<close>), and the test scripts. The simulation of failures that two jobs
    start runs on a timer of the Java server and is modelled as its command only.

  Termination and fuel. All loops are structural or have a measure, except the search for an
  ancestor, which is a partial function; its theorem states when it ends. No fuel is used.

  Not modelled: the HTML text the templates produce beyond the values they print, how a browser reads
  texts that are not escaped, styles, icons and the dialog and menu widgets of jQuery UI; apart from the request for the
  registration, the modules that \<open>require\<close> loads are taken to be there at once. The store of references shares arrays between beans, but not the objects
  nested   nested in them; an array that is the value of an option is taken to be made anew by each call of
  \<open>getOptions\<close>. Vendored code (\<open>js/libs\<close>, \<open>kibana\<close>, the loader plugins \<open>text.js\<close>, \<open>css.js\<close>,
  \<open>css-build.js\<close>), the configuration of the loader in \<open>main.js\<close>, the Java server and the shell scripts.
  Objects with a property \<open>length\<close>, which the servers do not send, are taken to have no elements.
\<close>

end
